(* ===== verification/Prelude.thy ===== *)
theory Prelude
  imports Main "HOL-Library.Word"
begin

text \<open>
  Shared vocabulary of the development: byte strings, the big-endian integer encodings the
  program writes (\<open>to_be_bytes\<close> / \<open>from_be_bytes\<close>), ASCII domain-separation tags, results as
  sums, and generic facts on lists that the component theories use.  Rust's \<open>u8\<close>, \<open>u32\<close> and
  \<open>u64\<close> are words of 8, 32 and 64 bits; a Rust \<open>Vec<u8>\<close>, slice or byte array is a list of bytes.
\<close>

unbundle bit_operations_syntax

type_synonym byte = "8 word"
type_synonym bytes = "byte list"
type_synonym u16 = "16 word"
type_synonym u32 = "32 word"
type_synonym u64 = "64 word"

text \<open>Facts about the byte encodings, used by every injectivity proof.\<close>
named_theorems codec_simps

section \<open>Word bounds\<close>

lemma unat_bound: "unat (w :: 'a::len word) < 2 ^ LENGTH('a)"
  by (rule unsigned_less)

lemma unat_Suc_bound: "Suc (unat (a :: 'a::len word)) < 2 ^ LENGTH('a) \<Longrightarrow> unat (a + 1) = Suc (unat a)"
  by (simp add: unat_word_ariths(1))

lemma unat_Suc_less: "(a :: 'a::len word) < b \<Longrightarrow> unat (a + 1) = Suc (unat a)"
  by (rule unat_Suc_bound, rule le_less_trans [OF _ unat_bound [of b]])
    (simp add: word_less_nat_alt Suc_le_eq)

lemma unat_of_nat32 [simp]: "j < 2 ^ 32 \<Longrightarrow> unat (of_nat j :: u32) = j"
  by (simp add: unat_of_nat take_bit_nat_eq_self)

lemma of_nat32_inject:
  "i < 2 ^ 32 \<Longrightarrow> j < 2 ^ 32 \<Longrightarrow> (of_nat i :: u32) = of_nat j \<longleftrightarrow> i = j"
  by (metis unat_of_nat32)

section \<open>ASCII tags\<close>

definition ascii :: "string \<Rightarrow> bytes" where
  "ascii s = map of_char s"

lemma length_ascii [simp]: "length (ascii s) = length s"
  by (simp add: ascii_def)

section \<open>Big-endian integers\<close>

primrec be_bytes :: "nat \<Rightarrow> 'a::len word \<Rightarrow> bytes" where
  "be_bytes 0 w = []"
| "be_bytes (Suc n) w = be_bytes n (drop_bit 8 w) @ [ucast w]"

definition of_be :: "bytes \<Rightarrow> 'a::len word" where
  "of_be bs = foldl (\<lambda>acc b. push_bit 8 acc OR ucast b) 0 bs"

lemma length_be_bytes [simp, codec_simps]: "length (be_bytes n w) = n"
  by (induction n arbitrary: w) auto

lemma of_be_snoc: "of_be (bs @ [b]) = push_bit 8 (of_be bs) OR ucast b"
  by (simp add: of_be_def)

lemma of_be_be_bytes: "of_be (be_bytes n (w :: 'a::len word)) = (take_bit (8 * n) w :: 'a word)"
proof (induction n arbitrary: w)
  case 0
  then show ?case by (simp add: of_be_def)
next
  case (Suc n)
  have "push_bit 8 (take_bit (8 * n) (drop_bit 8 w)) OR ucast (ucast w :: byte)
      = (take_bit (8 * Suc n) w :: 'a word)"
    by (rule bit_word_eqI) (auto simp: bit_simps)
  then show ?case by (simp add: of_be_snoc Suc)
qed

lemma of_be_be_bytes_full [simp]:
  "LENGTH('a) \<le> 8 * n \<Longrightarrow> of_be (be_bytes n (w :: 'a::len word)) = (w :: 'a word)"
  by (simp add: of_be_be_bytes take_bit_word_eq_self)

lemma be_bytes_inject:
  "LENGTH('a) \<le> 8 * n \<Longrightarrow> be_bytes n (v :: 'a::len word) = be_bytes n w \<longleftrightarrow> v = w"
  by (metis of_be_be_bytes_full)

lemma of_be_bit_bound: "bit (of_be bs :: 'a::len word) i \<Longrightarrow> i < 8 * length bs"
proof (induction bs arbitrary: i rule: rev_induct)
  case Nil
  then show ?case by (simp add: of_be_def)
next
  case (snoc b bs)
  have "bit (push_bit 8 (of_be bs) :: 'a word) i \<or> bit (ucast b :: 'a word) i"
    using snoc.prems by (simp add: of_be_snoc bit_or_iff)
  then show ?case
  proof
    assume "bit (push_bit 8 (of_be bs) :: 'a word) i"
    then have "8 \<le> i" "bit (of_be bs :: 'a word) (i - 8)" by (auto simp: bit_push_bit_iff)
    then show ?thesis using snoc.IH [of "i - 8"] by simp
  next
    assume "bit (ucast b :: 'a word) i"
    then have "bit b i" by (simp add: bit_simps)
    then have "i < 8" using bit_imp_le_length by fastforce
    then show ?thesis by simp
  qed
qed

lemma be_bytes_of_be:
  "8 * length bs \<le> LENGTH('a::len) \<Longrightarrow> be_bytes (length bs) (of_be bs :: 'a word) = bs"
proof (induction bs rule: rev_induct)
  case (snoc b bs)
  let ?w = "of_be (bs @ [b]) :: 'a word"
  have "drop_bit 8 ?w = of_be bs"
  proof (rule bit_word_eqI)
    fix i assume "i < LENGTH('a)"
    have "\<not> bit b (8 + i)" using bit_imp_le_length by fastforce
    moreover have "8 + i < LENGTH('a)" if "bit (of_be bs :: 'a word) i"
      using of_be_bit_bound [OF that] snoc.prems by simp
    ultimately show "bit (drop_bit 8 ?w) i \<longleftrightarrow> bit (of_be bs :: 'a word) i"
      using of_be_bit_bound [of bs i] snoc.prems
      by (auto simp: of_be_snoc bit_simps )
  qed
  moreover have "ucast ?w = b"
    by (rule bit_word_eqI) (use snoc.prems in \<open>auto simp: of_be_snoc bit_simps\<close>)
  ultimately show ?case using snoc by simp
qed simp

abbreviation be16 :: "u16 \<Rightarrow> bytes" where "be16 \<equiv> be_bytes 2"
abbreviation be32 :: "u32 \<Rightarrow> bytes" where "be32 \<equiv> be_bytes 4"
abbreviation be64 :: "u64 \<Rightarrow> bytes" where "be64 \<equiv> be_bytes 8"

lemma be_inject [simp, codec_simps]:
  "be16 a = be16 b \<longleftrightarrow> a = b"
  "be32 c = be32 d \<longleftrightarrow> c = d"
  "be64 e = be64 f \<longleftrightarrow> e = f"
  by (simp_all add: be_bytes_inject)

text \<open>\<open>x.len() as u32\<close>: the cast truncates silently, which is what \<open>of_nat\<close> does.\<close>
definition len32 :: "'a list \<Rightarrow> u32" where
  "len32 xs = of_nat (length xs)"

lemma unat_len32 [simp]: "length xs < 2 ^ 32 \<Longrightarrow> unat (len32 xs) = length xs"
  by (simp add: len32_def unat_of_nat take_bit_nat_eq_self)

lemma len32_inject:
  "length xs < 2 ^ 32 \<Longrightarrow> length ys < 2 ^ 32 \<Longrightarrow> len32 xs = len32 ys \<longleftrightarrow> length xs = length ys"
  by (metis unat_len32 len32_def)

section \<open>Lists\<close>

lemma append_eq_same_length:
  "length a = length b \<Longrightarrow> a @ x = b @ y \<longleftrightarrow> a = b \<and> x = y"
  by simp

text \<open>\<open>iter().position(p)\<close> followed by \<open>remove(pos)\<close>: the first match and the rest.\<close>
primrec take_first :: "('a \<Rightarrow> bool) \<Rightarrow> 'a list \<Rightarrow> ('a \<times> 'a list) option" where
  "take_first p [] = None"
| "take_first p (x # xs) =
     (if p x then Some (x, xs)
      else case take_first p xs of None \<Rightarrow> None | Some (y, ys) \<Rightarrow> Some (y, x # ys))"

lemma take_first_None_iff: "take_first p xs = None \<longleftrightarrow> (\<forall>x \<in> set xs. \<not> p x)"
  by (induction xs) (auto split: option.splits)

lemma take_first_Some:
  "take_first p xs = Some (y, ys) \<Longrightarrow>
     p y \<and> y \<in> set xs \<and> set xs = insert y (set ys) \<and> length xs = Suc (length ys)"
  by (induction xs arbitrary: ys) (auto split: if_splits option.splits)

lemma take_first_Some_mset:
  "take_first p xs = Some (y, ys) \<Longrightarrow> \<exists>us vs. xs = us @ y # vs \<and> ys = us @ vs"
proof (induction xs arbitrary: ys)
  case (Cons a xs)
  show ?case
  proof (cases "p a")
    case True
    then have "a # xs = [] @ y # xs \<and> ys = [] @ xs" using Cons.prems by simp
    then show ?thesis by blast
  next
    case False
    then obtain zs where "take_first p xs = Some (y, zs)" "ys = a # zs"
      using Cons.prems by (auto split: option.splits)
    with Cons.IH obtain us vs where "xs = us @ y # vs" "zs = us @ vs" by blast
    then have "a # xs = (a # us) @ y # vs \<and> ys = (a # us) @ vs"
      using \<open>ys = a # zs\<close> by simp
    then show ?thesis by blast
  qed
qed simp

lemma take_first_distinct:
  assumes "take_first p xs = Some (y, ys)" "distinct (map f xs)"
  shows "distinct (map f ys) \<and> set ys = {x \<in> set xs. f x \<noteq> f y}"
proof -
  obtain us vs where "xs = us @ y # vs" "ys = us @ vs"
    using take_first_Some_mset [OF assms(1)] by blast
  then show ?thesis using assms(2) by (auto simp: image_iff)
qed


lemma distinct_map_others:
  "distinct (map h (us @ f # vs)) \<Longrightarrow> g \<in> set (us @ vs) \<Longrightarrow> h g \<noteq> h f"
  by (auto simp: image_iff)

end
