(* ===== verification/Primitives.thy ===== *)
theory Primitives
  imports Prelude
begin

text \<open>
  The cryptographic and peer-identity crates the program calls (x25519-dalek, hmac, hkdf, sha2,
  chacha20poly1305, ed25519-dalek, ml-kem, libp2p-identity) are not part of this repository.
  They are one record of functions, passed as the argument \<open>P\<close> to every definition that uses
  them.  What the program relies on is stated by named predicates on \<open>P\<close> (the documented
  behaviour of each crate) that the theorems take as hypotheses; \<open>toy_prims\<close> is a concrete
  instance satisfying all of them and is used by the witnesses only.  Randomness drawn from
  \<open>OsRng\<close> is an explicit argument of the operations that draw it.
\<close>

record prims =
  x25519_pub :: "bytes \<Rightarrow> bytes"                                     \<comment> \<open>\<open>PublicKey::from(&secret)\<close>\<close>
  x25519_dh :: "bytes \<Rightarrow> bytes \<Rightarrow> bytes"                        \<comment> \<open>\<open>secret.diffie_hellman(&public)\<close>\<close>
  hmac_sha256 :: "bytes \<Rightarrow> bytes \<Rightarrow> bytes"                      \<comment> \<open>key, message\<close>
  hkdf_sha256 :: "bytes \<Rightarrow> bytes \<Rightarrow> bytes \<Rightarrow> nat \<Rightarrow> bytes"  \<comment> \<open>salt, ikm, info, output length\<close>
  sha256 :: "bytes \<Rightarrow> bytes"
  aead_seal :: "bytes \<Rightarrow> bytes \<Rightarrow> bytes \<Rightarrow> bytes \<Rightarrow> bytes"     \<comment> \<open>key, nonce, aad, plaintext\<close>
  aead_open :: "bytes \<Rightarrow> bytes \<Rightarrow> bytes \<Rightarrow> bytes \<Rightarrow> bytes option"
  ed_pub :: "bytes \<Rightarrow> bytes"                                         \<comment> \<open>\<open>SigningKey::verifying_key\<close>\<close>
  ed_sign :: "bytes \<Rightarrow> bytes \<Rightarrow> bytes"
  ed_key_ok :: "bytes \<Rightarrow> bool"                                       \<comment> \<open>\<open>VerifyingKey::from_bytes\<close> succeeds\<close>
  ed_verify :: "bytes \<Rightarrow> bytes \<Rightarrow> bytes \<Rightarrow> bool"             \<comment> \<open>public key, message, signature\<close>
  kem_gen :: "bytes \<Rightarrow> bytes"                                        \<comment> \<open>decapsulation key drawn from randomness\<close>
  kem_ek :: "bytes \<Rightarrow> bytes"                                         \<comment> \<open>encapsulation key of a decapsulation key\<close>
  kem_encap :: "bytes \<Rightarrow> bytes \<Rightarrow> (bytes \<times> bytes) option"     \<comment> \<open>key, randomness: (ciphertext, secret)\<close>
  kem_decap :: "bytes \<Rightarrow> bytes \<Rightarrow> bytes option"
  peer_valid :: "bytes \<Rightarrow> bool"                                      \<comment> \<open>\<open>PeerId::from_bytes\<close> succeeds\<close>
  peer_inline :: "bytes \<Rightarrow> bytes option"                             \<comment> \<open>digest when the multihash code is 0\<close>
  pk_decode :: "bytes \<Rightarrow> bytes option"                               \<comment> \<open>\<open>PublicKey::try_decode_protobuf\<close>\<close>
  pk_verify :: "bytes \<Rightarrow> bytes \<Rightarrow> bytes \<Rightarrow> bool"             \<comment> \<open>libp2p \<open>PublicKey::verify\<close>\<close>
  pk_ed25519 :: "bytes \<Rightarrow> bytes option"                              \<comment> \<open>\<open>PublicKey::try_into_ed25519\<close>\<close>
  kp_of_ed :: "bytes \<Rightarrow> bytes"                                       \<comment> \<open>\<open>Keypair::ed25519_from_bytes\<close>\<close>
  kp_sign :: "bytes \<Rightarrow> bytes \<Rightarrow> bytes option"                   \<comment> \<open>libp2p \<open>Keypair::sign\<close>\<close>
  kp_peer :: "bytes \<Rightarrow> bytes"                                        \<comment> \<open>\<open>PeerId::from(keypair.public())\<close>\<close>

section \<open>Documented behaviour of the primitives\<close>

definition aead_correct :: "prims \<Rightarrow> bool" where
  "aead_correct P \<longleftrightarrow> (\<forall>k n a m. aead_open P k n a (aead_seal P k n a m) = Some m)"

text \<open>The ciphertext is the plaintext's length plus the 16-byte Poly1305 tag.\<close>
definition aead_tagged :: "prims \<Rightarrow> bool" where
  "aead_tagged P \<longleftrightarrow> (\<forall>k n a m. length (aead_seal P k n a m) = length m + 16)"

definition dh_agree :: "prims \<Rightarrow> bool" where
  "dh_agree P \<longleftrightarrow> (\<forall>a b. x25519_dh P a (x25519_pub P b) = x25519_dh P b (x25519_pub P a))"

definition ed_correct :: "prims \<Rightarrow> bool" where
  "ed_correct P \<longleftrightarrow> (\<forall>sk m. ed_key_ok P (ed_pub P sk) \<and> length (ed_sign P sk m) = 64
      \<and> ed_verify P (ed_pub P sk) m (ed_sign P sk m))"

definition kem_correct :: "prims \<Rightarrow> bool" where
  "kem_correct P \<longleftrightarrow> (\<forall>dk r ct ss. kem_encap P (kem_ek P dk) r = Some (ct, ss)
      \<longrightarrow> kem_decap P dk ct = Some ss)"

text \<open>A libp2p Ed25519 key pair signs without error, and its PeerId embeds the public key that
  verifies the signature.\<close>
definition peer_key_correct :: "prims \<Rightarrow> bytes \<Rightarrow> bool" where
  "peer_key_correct P kp \<longleftrightarrow> peer_valid P (kp_peer P kp)
     \<and> (\<exists>d pk. peer_inline P (kp_peer P kp) = Some d \<and> pk_decode P d = Some pk
        \<and> (\<forall>m. \<exists>s. kp_sign P kp m = Some s \<and> s \<noteq> [] \<and> length s < 2 ^ 32 \<and> pk_verify P pk m s))"

text \<open>The key pair built from an Ed25519 signing key has a PeerId whose inline key is that Ed25519 key.\<close>
definition identity_key_correct :: "prims \<Rightarrow> bytes \<Rightarrow> bool" where
  "identity_key_correct P sk \<longleftrightarrow> peer_key_correct P (kp_of_ed P sk)
     \<and> (\<exists>d pk. peer_inline P (kp_peer P (kp_of_ed P sk)) = Some d \<and> pk_decode P d = Some pk
        \<and> pk_ed25519 P pk = Some (ed_pub P sk))"

lemma aead_correctD [simp]: "aead_correct P \<Longrightarrow> aead_open P k n a (aead_seal P k n a m) = Some m"
  by (simp add: aead_correct_def)

lemma aead_taggedD [simp]: "aead_tagged P \<Longrightarrow> length (aead_seal P k n a m) = length m + 16"
  by (simp add: aead_tagged_def)

lemma dh_agreeD: "dh_agree P \<Longrightarrow> x25519_dh P a (x25519_pub P b) = x25519_dh P b (x25519_pub P a)"
  by (simp add: dh_agree_def)

lemma ed_correctD [simp]:
  assumes "ed_correct P"
  shows "ed_key_ok P (ed_pub P sk)" "length (ed_sign P sk m) = 64"
    "ed_verify P (ed_pub P sk) m (ed_sign P sk m)"
  using assms by (simp_all add: ed_correct_def)

section \<open>A concrete instance for the witnesses\<close>

definition toy_hash :: "bytes \<Rightarrow> bytes" where
  "toy_hash m = take 32 (m @ replicate 32 0)"

definition toy_sign :: "bytes \<Rightarrow> bytes \<Rightarrow> bytes" where
  "toy_sign s m = take 64 (s @ m @ replicate 64 0)"

lemma length_toy_sign [simp]: "length (toy_sign s m) = 64"
  by (simp add: toy_sign_def)

lemma toy_sign_nonempty [simp]: "toy_sign s m \<noteq> []"
  by (metis length_toy_sign list.size(3) zero_neq_numeral)

text \<open>A 16-byte check value over key and associated data.\<close>
definition toy_tag :: "bytes \<Rightarrow> bytes \<Rightarrow> bytes" where
  "toy_tag k a = take 8 (k @ replicate 8 0) @ take 8 (rev a @ replicate 8 0)"

lemma length_toy_tag [simp]: "length (toy_tag k a) = 16"
  by (simp add: toy_tag_def)

definition toy_open :: "bytes \<Rightarrow> bytes \<Rightarrow> bytes \<Rightarrow> bytes \<Rightarrow> bytes option" where
  "toy_open k n a c =
     (let l = length c - 16 in
      if 16 \<le> length c \<and> drop l c = toy_tag k a then Some (take l c) else None)"

definition toy_prims :: prims where
  "toy_prims = \<lparr>
     x25519_pub = (\<lambda>s. s),
     x25519_dh = (\<lambda>a b. map2 (+) a b),
     hmac_sha256 = (\<lambda>k m. toy_hash (m @ k)),
     hkdf_sha256 = (\<lambda>salt ikm info l. take l (salt @ ikm @ info @ replicate l 0)),
     sha256 = toy_hash,
     aead_seal = (\<lambda>k n a m. m @ toy_tag k a),
     aead_open = toy_open,
     ed_pub = (\<lambda>s. s),
     ed_sign = toy_sign,
     ed_key_ok = (\<lambda>_. True),
     ed_verify = (\<lambda>pk m s. s = toy_sign pk m),
     kem_gen = (\<lambda>r. r),
     kem_ek = (\<lambda>dk. dk),
     kem_encap = (\<lambda>ek r. Some (ek @ r, toy_hash (ek @ r))),
     kem_decap = (\<lambda>dk ct. Some (toy_hash ct)),
     peer_valid = (\<lambda>b. b \<noteq> []),
     peer_inline = (\<lambda>b. Some b),
     pk_decode = (\<lambda>b. Some b),
     pk_verify = (\<lambda>pk m s. s = toy_sign pk m),
     pk_ed25519 = (\<lambda>b. Some b),
     kp_of_ed = (\<lambda>k. k),
     kp_sign = (\<lambda>k m. Some (toy_sign k m)),
     kp_peer = (\<lambda>k. k) \<rparr>"

lemma toy_open_seal [simp]: "toy_open k n a (m @ toy_tag k a) = Some m"
  by (simp add: toy_open_def Let_def)

lemma toy_laws [simp]:
  "aead_correct toy_prims" "aead_tagged toy_prims" "dh_agree toy_prims" "ed_correct toy_prims" "kem_correct toy_prims"
proof -
  show "aead_correct toy_prims" by (simp add: aead_correct_def toy_prims_def)
  have "map2 (+) a b = map2 (+) b a" for a b :: bytes
    by (rule nth_equalityI) (auto simp: add.commute)
  then show "dh_agree toy_prims" by (simp add: dh_agree_def toy_prims_def)
qed (simp_all add: ed_correct_def kem_correct_def aead_tagged_def toy_prims_def)

lemma toy_fields [simp]:
  "x25519_pub toy_prims s = s" "kp_peer toy_prims s = s" "kp_sign toy_prims s m = Some (toy_sign s m)"
  "peer_valid toy_prims s \<longleftrightarrow> s \<noteq> []" "peer_inline toy_prims s = Some s" "pk_decode toy_prims s = Some s"
  "pk_verify toy_prims s m sig \<longleftrightarrow> sig = toy_sign s m" "kem_ek toy_prims s = s"
  "kem_encap toy_prims s r = Some (s @ r, toy_hash (s @ r))" "kem_decap toy_prims s c = Some (toy_hash c)"
  "pk_ed25519 toy_prims s = Some s" "kp_of_ed toy_prims s = s" "ed_pub toy_prims s = s"
  by (simp_all add: toy_prims_def)

lemma toy_peer_key [simp]: "kp \<noteq> [] \<Longrightarrow> peer_key_correct toy_prims kp"
  by (simp add: peer_key_correct_def toy_prims_def)

lemma toy_identity_key [simp]: "sk \<noteq> [] \<Longrightarrow> identity_key_correct toy_prims sk"
  by (simp add: identity_key_correct_def)

end
