(* ===== verification/Chain.thy ===== *)
theory Chain
  imports Prelude
begin

text \<open>
  The interface that the DM ratchet's receiving chain and the group receiver chain share: a
  receiver that accepts the messages of one symmetric-key chain by index, caches the keys of
  the indices it jumps over and refuses to cache more than \<open>cap\<close> of them.  The client lemmas
  (any delivery order of a window decrypts; duplicates are harmless for a replay-safe receiver)
  are proved once here; Ratchet and Megolm interpret the locales on their own receive
  operations.
\<close>

section \<open>Delivering a list of messages\<close>

fun deliver :: "('s \<Rightarrow> 'm \<Rightarrow> 'r \<times> 's) \<Rightarrow> 's \<Rightarrow> 'm list \<Rightarrow> 'r list \<times> 's" where
  "deliver recv s [] = ([], s)"
| "deliver recv s (m # ms) =
     (let (r, s1) = recv s m; (rs, s2) = deliver recv s1 ms in (r # rs, s2))"

definition rights :: "('e + 'a) list \<Rightarrow> 'a list" where
  "rights rs = List.map_filter (\<lambda>r. case r of Inl _ \<Rightarrow> None | Inr a \<Rightarrow> Some a) rs"

lemma rights_simps [simp]:
  "rights [] = []" "rights (Inl e # rs) = rights rs" "rights (Inr a # rs) = a # rights rs"
  by (simp_all add: rights_def List.map_filter_simps)

text \<open>The distinct indices of a delivery order, at their first arrival.\<close>
fun first_arrivals :: "'a set \<Rightarrow> 'a list \<Rightarrow> 'a list" where
  "first_arrivals seen [] = []"
| "first_arrivals seen (i # is) =
     (if i \<in> seen then first_arrivals seen is else i # first_arrivals (insert i seen) is)"

section \<open>The key schedule of a chain\<close>

primrec iterate :: "nat \<Rightarrow> ('a \<Rightarrow> 'a) \<Rightarrow> 'a \<Rightarrow> 'a" where
  "iterate 0 f x = x"
| "iterate (Suc n) f x = f (iterate n f x)"

lemma iterate_shift: "iterate n f (f x) = f (iterate n f x)"
  by (induction n) auto

lemma iterate_add: "iterate (m + n) f x = iterate m f (iterate n f x)"
  by (induction m) auto

section \<open>Receivers of one chain\<close>

locale chain_receiver =
  fixes recv :: "'s \<Rightarrow> 'm \<Rightarrow> ('e + 'p) \<times> 's"
    and msg :: "nat \<Rightarrow> 'm" and pt :: "nat \<Rightarrow> 'p"
    and inv :: "'s \<Rightarrow> bool" and nxt :: "'s \<Rightarrow> nat"
    and cached :: "'s \<Rightarrow> nat set" and load :: "'s \<Rightarrow> nat"
    and cap :: nat and limit :: nat
  assumes live: "inv s \<Longrightarrow> nxt s \<le> i \<Longrightarrow> i < limit \<Longrightarrow> (i - nxt s) + load s \<le> cap \<Longrightarrow>
      \<exists>s'. recv s (msg i) = (Inr (pt i), s') \<and> inv s' \<and> nxt s' = Suc i
         \<and> cached s' = cached s \<union> {nxt s..<i} \<and> load s' = load s + (i - nxt s)"
    and late: "inv s \<Longrightarrow> i < nxt s \<Longrightarrow> i \<in> cached s \<Longrightarrow>
      \<exists>s'. recv s (msg i) = (Inr (pt i), s') \<and> inv s' \<and> nxt s' = nxt s
         \<and> cached s' = cached s - {i} \<and> load s = Suc (load s')"
    and cached_below: "inv s \<Longrightarrow> cached s \<subseteq> {..<nxt s}"
begin

definition pending :: "'s \<Rightarrow> nat \<Rightarrow> bool" where
  "pending s i \<longleftrightarrow> i \<in> cached s \<or> nxt s \<le> i"

text \<open>The potential \<open>load s + (b - nxt s)\<close> never grows while indices below \<open>b\<close> arrive.\<close>
lemma pending_step:
  assumes "inv s" "pending s i" "i < b" "b \<le> limit" "load s + (b - nxt s) \<le> Suc cap"
  obtains s' where "recv s (msg i) = (Inr (pt i), s')" "inv s'"
    "\<And>j. pending s' j \<longleftrightarrow> pending s j \<and> j \<noteq> i" "load s' + (b - nxt s') \<le> Suc cap"
proof (cases "nxt s \<le> i")
  case True
  with live [OF assms(1) True] assms obtain s' where
    s': "recv s (msg i) = (Inr (pt i), s')" "inv s'" "nxt s' = Suc i"
      "cached s' = cached s \<union> {nxt s..<i}" "load s' = load s + (i - nxt s)" by fastforce
  have "pending s' j \<longleftrightarrow> pending s j \<and> j \<noteq> i" for j
    using s' True cached_below [OF assms(1)] by (auto simp: pending_def)
  moreover have "load s' + (b - nxt s') \<le> Suc cap" using s' True assms by simp
  ultimately show ?thesis using that s' by blast
next
  case False
  then have "i \<in> cached s" "i < nxt s" using assms(2) by (auto simp: pending_def)
  with late [OF assms(1)] obtain s' where
    s': "recv s (msg i) = (Inr (pt i), s')" "inv s'" "nxt s' = nxt s"
      "cached s' = cached s - {i}" "load s = Suc (load s')" by blast
  have "pending s' j \<longleftrightarrow> pending s j \<and> j \<noteq> i" for j
    using s' False by (auto simp: pending_def)
  then show ?thesis using that s' assms by simp
qed

lemma any_order:
  assumes "inv s" "distinct is" "\<forall>i \<in> set is. pending s i \<and> i < b" "b \<le> limit"
    "load s + (b - nxt s) \<le> Suc cap"
  shows "\<exists>s'. deliver recv s (map msg is) = (map (\<lambda>i. Inr (pt i)) is, s') \<and> inv s'
     \<and> (\<forall>j. pending s' j \<longleftrightarrow> pending s j \<and> j \<notin> set is)"
  using assms
proof (induction "is" arbitrary: s)
  case (Cons i "is")
  then have "pending s i" "i < b" by auto
  then obtain s1 where s1: "recv s (msg i) = (Inr (pt i), s1)" "inv s1"
    "\<And>j. pending s1 j \<longleftrightarrow> pending s j \<and> j \<noteq> i" "load s1 + (b - nxt s1) \<le> Suc cap"
    using pending_step [OF Cons.prems(1) _ _ Cons.prems(4,5)] by blast
  have "\<forall>j \<in> set is. pending s1 j \<and> j < b" using Cons.prems s1(3) by auto
  with Cons.IH [OF s1(2) _ _ _ s1(4)] Cons.prems obtain s' where
    "deliver recv s1 (map msg is) = (map (\<lambda>i. Inr (pt i)) is, s')" "inv s'"
    "\<forall>j. pending s' j \<longleftrightarrow> pending s1 j \<and> j \<notin> set is" by auto
  then show ?case using s1 by (auto simp: Let_def)
qed simp

end

section \<open>Receivers that reject a replay without a state change\<close>

locale replay_safe_receiver = chain_receiver recv msg pt inv nxt cached load cap limit
  for recv :: "'s \<Rightarrow> 'm \<Rightarrow> ('e + 'p) \<times> 's" and msg pt inv nxt cached load cap limit +
  assumes stale: "inv s \<Longrightarrow> i < nxt s \<Longrightarrow> i \<notin> cached s \<Longrightarrow> \<exists>e. recv s (msg i) = (Inl e, s)"
begin

lemma with_duplicates:
  assumes "inv s" "\<forall>i \<in> set is. (pending s i \<or> i \<in> seen) \<and> i < b" "b \<le> limit"
    "load s + (b - nxt s) \<le> Suc cap" "\<forall>i \<in> seen. \<not> pending s i"
  shows "rights (fst (deliver recv s (map msg is))) = map pt (first_arrivals seen is)
     \<and> inv (snd (deliver recv s (map msg is)))"
  using assms
proof (induction "is" arbitrary: s seen)
  case (Cons i "is")
  show ?case
  proof (cases "i \<in> seen")
    case True
    then have "\<not> pending s i" using Cons.prems by blast
    then obtain e where "recv s (msg i) = (Inl e, s)"
      using stale Cons.prems(1) by (force simp: pending_def)
    then show ?thesis using Cons.IH [OF Cons.prems(1), of seen] Cons.prems True
      by (simp add: Let_def case_prod_unfold)
  next
    case False
    then have "pending s i" "i < b" using Cons.prems by auto
    then obtain s1 where s1: "recv s (msg i) = (Inr (pt i), s1)" "inv s1"
      "\<And>j. pending s1 j \<longleftrightarrow> pending s j \<and> j \<noteq> i" "load s1 + (b - nxt s1) \<le> Suc cap"
      using pending_step [OF Cons.prems(1) _ _ Cons.prems(3,4)] by blast
    have "\<forall>j \<in> set is. (pending s1 j \<or> j \<in> insert i seen) \<and> j < b"
      "\<forall>j \<in> insert i seen. \<not> pending s1 j"
      using Cons.prems s1(3) by auto
    from Cons.IH [OF s1(2) this(1) Cons.prems(3) s1(4) this(2)] s1(1) False show ?thesis
      by (simp add: Let_def case_prod_unfold)
  qed
qed simp

end

end
