(* ===== verification/Ratchet.thy ===== *)
theory Ratchet
  imports Primitives Chain
begin

text \<open>
  \<open>src/src/crypto/ratchet.rs\<close>: the Double Ratchet session of one peer.  \<open>ratchet_state\<close> has the
  fields of \<open>RatchetState\<close>; every operation that takes \<open>&mut self\<close> returns its result paired
  with the state it leaves, also on its error paths, because the caller keeps the mutated
  session after an error.  The counters are \<open>u32\<close>; \<open>+= 1\<close> is the release build's wrap-around.
  \<open>StaticSecret::random_from_rng(OsRng)\<close> is the argument \<open>fresh\<close>.
\<close>

section \<open>Data\<close>

definition RK_INFO :: bytes where "RK_INFO = ascii ''ME55-rk-v1''"
definition CK_CONST_CHAIN :: byte where "CK_CONST_CHAIN = 0x02"
definition CK_CONST_MSG :: byte where "CK_CONST_MSG = 0x01"
definition SESSION_ID_DOMAIN :: bytes where "SESSION_ID_DOMAIN = ascii ''ME55-session-id-v1''"
definition MAX_SKIP :: nat where "MAX_SKIP = 1000"
definition ZERO_NONCE :: bytes where "ZERO_NONCE = replicate 12 0"

datatype ratchet_error = BadAead | TooManySkipped | NotInitializedForRecv

record header =
  hdr_dh :: bytes
  hdr_pn :: u32
  hdr_n :: u32

definition to_aad_bytes :: "header \<Rightarrow> bytes" where
  "to_aad_bytes h = hdr_dh h @ be32 (hdr_pn h) @ be32 (hdr_n h)"

record ratchet_message =
  rm_header :: header
  rm_ct :: bytes

record skipped_key =
  sk_dh_pub :: bytes
  sk_n :: u32
  sk_mk :: bytes

record ratchet_state =
  rs_dhs_secret :: bytes
  rs_dhs_public :: bytes
  rs_dhr :: "bytes option"
  rs_rk :: bytes
  rs_cks :: "bytes option"
  rs_ckr :: "bytes option"
  rs_ns :: u32
  rs_nr :: u32
  rs_pn :: u32
  rs_skipped :: "skipped_key list"
  rs_session_id :: bytes

section \<open>Key derivation and AEAD\<close>

definition derive_session_id :: "prims \<Rightarrow> bytes \<Rightarrow> bytes" where
  "derive_session_id P sk = hmac_sha256 P sk SESSION_ID_DOMAIN"

text \<open>\<open>(new_rk, ck)\<close>: the two halves of a 64-byte HKDF output.\<close>
definition kdf_rk :: "prims \<Rightarrow> bytes \<Rightarrow> bytes \<Rightarrow> bytes \<times> bytes" where
  "kdf_rk P rk dh_out = (let okm = hkdf_sha256 P rk dh_out RK_INFO 64 in (take 32 okm, drop 32 okm))"

text \<open>\<open>(new_ck, mk)\<close>.\<close>
definition kdf_ck :: "prims \<Rightarrow> bytes \<Rightarrow> bytes \<times> bytes" where
  "kdf_ck P ck = (hmac_sha256 P ck [CK_CONST_CHAIN], hmac_sha256 P ck [CK_CONST_MSG])"

definition aead_encrypt :: "prims \<Rightarrow> bytes \<Rightarrow> bytes \<Rightarrow> bytes \<Rightarrow> header \<Rightarrow> bytes" where
  "aead_encrypt P mk plaintext ad h = aead_seal P mk ZERO_NONCE (ad @ to_aad_bytes h) plaintext"

definition aead_decrypt ::
  "prims \<Rightarrow> bytes \<Rightarrow> bytes \<Rightarrow> bytes \<Rightarrow> header \<Rightarrow> ratchet_error + bytes" where
  "aead_decrypt P mk ciphertext ad h =
     (case aead_open P mk ZERO_NONCE (ad @ to_aad_bytes h) ciphertext of
        Some pt \<Rightarrow> Inr pt | None \<Rightarrow> Inl BadAead)"

lemma aead_decrypt_encrypt [simp]:
  "aead_correct P \<Longrightarrow> aead_decrypt P mk (aead_encrypt P mk pt ad h) ad h = Inr pt"
  by (simp add: aead_decrypt_def aead_encrypt_def)

section \<open>Construction\<close>

definition new_initiator :: "prims \<Rightarrow> bytes \<Rightarrow> bytes \<Rightarrow> bytes \<Rightarrow> ratchet_state" where
  "new_initiator P fresh sk their_dh_pub =
     (let (rk, cks) = kdf_rk P sk (x25519_dh P fresh their_dh_pub) in
      \<lparr> rs_dhs_secret = fresh, rs_dhs_public = x25519_pub P fresh, rs_dhr = Some their_dh_pub,
        rs_rk = rk, rs_cks = Some cks, rs_ckr = None, rs_ns = 0, rs_nr = 0, rs_pn = 0,
        rs_skipped = [], rs_session_id = derive_session_id P sk \<rparr>)"

definition new_responder :: "prims \<Rightarrow> bytes \<Rightarrow> bytes \<Rightarrow> ratchet_state" where
  "new_responder P sk my_dh_secret =
     \<lparr> rs_dhs_secret = my_dh_secret, rs_dhs_public = x25519_pub P my_dh_secret, rs_dhr = None,
       rs_rk = sk, rs_cks = None, rs_ckr = None, rs_ns = 0, rs_nr = 0, rs_pn = 0,
       rs_skipped = [], rs_session_id = derive_session_id P sk \<rparr>"

section \<open>Encrypt\<close>

definition ratchet_encrypt ::
  "prims \<Rightarrow> ratchet_state \<Rightarrow> bytes \<Rightarrow> bytes \<Rightarrow> (ratchet_error + ratchet_message) \<times> ratchet_state" where
  "ratchet_encrypt P st plaintext ad =
     (case rs_cks st of
        None \<Rightarrow> (Inl NotInitializedForRecv, st)
      | Some cks \<Rightarrow>
          (let (next_cks, mk) = kdf_ck P cks;
               h = \<lparr> hdr_dh = rs_dhs_public st, hdr_pn = rs_pn st, hdr_n = rs_ns st \<rparr>
           in (Inr \<lparr> rm_header = h, rm_ct = aead_encrypt P mk plaintext ad h \<rparr>,
               st\<lparr> rs_cks := Some next_cks, rs_ns := rs_ns st + 1 \<rparr>)))"

section \<open>Decrypt\<close>

text \<open>\<open>try_skipped\<close>: the cached entry is removed whether or not the AEAD accepts.\<close>
definition try_skipped ::
  "prims \<Rightarrow> ratchet_state \<Rightarrow> ratchet_message \<Rightarrow> bytes \<Rightarrow> bytes option \<times> ratchet_state" where
  "try_skipped P st m ad =
     (case take_first (\<lambda>s. sk_dh_pub s = hdr_dh (rm_header m) \<and> sk_n s = hdr_n (rm_header m))
             (rs_skipped st) of
        None \<Rightarrow> (None, st)
      | Some (entry, rest) \<Rightarrow>
          (case aead_decrypt P (sk_mk entry) (rm_ct m) ad (rm_header m) of
             Inr pt \<Rightarrow> Some pt | Inl _ \<Rightarrow> None,
           st\<lparr> rs_skipped := rest \<rparr>))"

text \<open>The loop \<open>while self.nr < until\<close> of \<open>skip_message_keys\<close>, over \<open>(ckr, nr, skipped)\<close>.\<close>
function skip_loop ::
  "prims \<Rightarrow> bytes \<Rightarrow> u32 \<Rightarrow> bytes \<Rightarrow> u32 \<Rightarrow> skipped_key list \<Rightarrow> bytes \<times> u32 \<times> skipped_key list" where
  "skip_loop P dhr until ck nr skipped =
     (if nr < until then
        (let (next_ck, mk) = kdf_ck P ck in
         skip_loop P dhr until next_ck (nr + 1)
           (skipped @ [\<lparr> sk_dh_pub = dhr, sk_n = nr, sk_mk = mk \<rparr>]))
      else (ck, nr, skipped))"
  by pat_completeness auto

termination skip_loop
  by (relation "measure (\<lambda>(P, dhr, until, ck, nr, skipped). unat until - unat nr)")
    (auto simp: unat_Suc_less word_less_nat_alt)

declare skip_loop.simps [simp del]

text \<open>\<open>while self.skipped.len() > MAX_SKIP { pop_front }\<close>.\<close>
function evict_oldest :: "'a list \<Rightarrow> 'a list" where
  "evict_oldest xs = (if length xs > MAX_SKIP then evict_oldest (tl xs) else xs)"
  by pat_completeness auto

termination evict_oldest
  by (relation "measure length") (auto simp: MAX_SKIP_def)

declare evict_oldest.simps [simp del]

lemma evict_oldest_id [simp]: "length xs \<le> MAX_SKIP \<Longrightarrow> evict_oldest xs = xs"
  by (subst evict_oldest.simps) simp

text \<open>\<open>until.saturating_sub(self.nr) as usize\<close>.\<close>
definition saturating_sub :: "u32 \<Rightarrow> u32 \<Rightarrow> u32" where
  "saturating_sub a b = (if b \<le> a then a - b else 0)"

definition skip_message_keys ::
  "prims \<Rightarrow> ratchet_state \<Rightarrow> u32 \<Rightarrow> (ratchet_error + unit) \<times> ratchet_state" where
  "skip_message_keys P st until =
     (case rs_ckr st of
        None \<Rightarrow> (Inr (), st)
      | Some ckr \<Rightarrow>
          if unat (saturating_sub until (rs_nr st)) + length (rs_skipped st) > MAX_SKIP
          then (Inl TooManySkipped, st)
          else (case rs_dhr st of
            None \<Rightarrow> (Inr (), st)
          | Some dhr \<Rightarrow>
              (let (ck, nr, skipped) = skip_loop P dhr until ckr (rs_nr st) (rs_skipped st) in
               (Inr (), st\<lparr> rs_ckr := Some ck, rs_nr := nr, rs_skipped := evict_oldest skipped \<rparr>))))"

definition dh_ratchet_step :: "prims \<Rightarrow> bytes \<Rightarrow> ratchet_state \<Rightarrow> bytes \<Rightarrow> ratchet_state" where
  "dh_ratchet_step P fresh st incoming_dh =
     (let (new_rk, new_ckr) = kdf_rk P (rs_rk st) (x25519_dh P (rs_dhs_secret st) incoming_dh);
          (new_rk2, new_cks) = kdf_rk P new_rk (x25519_dh P fresh incoming_dh)
      in st\<lparr> rs_pn := rs_ns st, rs_ns := 0, rs_nr := 0, rs_dhr := Some incoming_dh,
             rs_ckr := Some new_ckr, rs_dhs_secret := fresh, rs_dhs_public := x25519_pub P fresh,
             rs_rk := new_rk2, rs_cks := Some new_cks \<rparr>)"

text \<open>Step 2 of \<open>decrypt\<close>: the DH ratchet step on a new sender key.\<close>
definition dh_phase ::
  "prims \<Rightarrow> bytes \<Rightarrow> ratchet_state \<Rightarrow> header \<Rightarrow> (ratchet_error + unit) \<times> ratchet_state" where
  "dh_phase P fresh st h =
     (if rs_dhr st \<noteq> Some (hdr_dh h) then
        (case skip_message_keys P st (hdr_pn h) of
           (Inl e, st1) \<Rightarrow> (Inl e, st1)
         | (Inr _, st1) \<Rightarrow> (Inr (), dh_ratchet_step P fresh st1 (hdr_dh h)))
      else (Inr (), st))"

text \<open>Steps 3 and 4 of \<open>decrypt\<close>: catch up in the receiving chain, derive the key, open.\<close>
definition chain_phase ::
  "prims \<Rightarrow> ratchet_state \<Rightarrow> ratchet_message \<Rightarrow> bytes \<Rightarrow> (ratchet_error + bytes) \<times> ratchet_state" where
  "chain_phase P st m ad =
     (case skip_message_keys P st (hdr_n (rm_header m)) of
        (Inl e, st1) \<Rightarrow> (Inl e, st1)
      | (Inr _, st1) \<Rightarrow>
          (case rs_ckr st1 of
             None \<Rightarrow> (Inl NotInitializedForRecv, st1)
           | Some ckr \<Rightarrow>
               (let (next_ckr, mk) = kdf_ck P ckr in
                (aead_decrypt P mk (rm_ct m) ad (rm_header m),
                 st1\<lparr> rs_ckr := Some next_ckr, rs_nr := rs_nr st1 + 1 \<rparr>))))"

definition ratchet_decrypt ::
  "prims \<Rightarrow> bytes \<Rightarrow> ratchet_state \<Rightarrow> ratchet_message \<Rightarrow> bytes \<Rightarrow>
     (ratchet_error + bytes) \<times> ratchet_state" where
  "ratchet_decrypt P fresh st m ad =
     (case try_skipped P st m ad of
        (Some pt, st1) \<Rightarrow> (Inr pt, st1)
      | (None, st1) \<Rightarrow>
          (case dh_phase P fresh st1 (rm_header m) of
             (Inl e, st2) \<Rightarrow> (Inl e, st2)
           | (Inr _, st2) \<Rightarrow> chain_phase P st2 m ad))"


section \<open>The key schedule of one chain\<close>

definition ck_at :: "prims \<Rightarrow> bytes \<Rightarrow> nat \<Rightarrow> bytes" where
  "ck_at P ck j = iterate j (\<lambda>c. fst (kdf_ck P c)) ck"

definition mk_at :: "prims \<Rightarrow> bytes \<Rightarrow> nat \<Rightarrow> bytes" where
  "mk_at P ck j = snd (kdf_ck P (ck_at P ck j))"

definition sk_entry :: "prims \<Rightarrow> bytes \<Rightarrow> bytes \<Rightarrow> nat \<Rightarrow> skipped_key" where
  "sk_entry P dhr ck j = \<lparr> sk_dh_pub = dhr, sk_n = of_nat j, sk_mk = mk_at P ck j \<rparr>"

lemma ck_at_simps [simp]:
  "ck_at P ck 0 = ck" "kdf_ck P (ck_at P ck j) = (ck_at P ck (Suc j), mk_at P ck j)"
  by (simp_all add: ck_at_def mk_at_def kdf_ck_def)

lemma sk_entry_simps [simp]:
  "sk_dh_pub (sk_entry P d ck j) = d" "sk_n (sk_entry P d ck j) = of_nat j"
  "sk_mk (sk_entry P d ck j) = mk_at P ck j"
  by (simp_all add: sk_entry_def)

lemma skip_loop_chain:
  "skip_loop P dhr until (ck_at P ck (unat nr)) nr skipped =
     (ck_at P ck (max (unat nr) (unat until)), max nr until,
      skipped @ map (sk_entry P dhr ck) [unat nr..<unat until])"
proof (induction "unat until - unat nr" arbitrary: nr skipped)
  case 0
  then have nl: "\<not> nr < until" "until \<le> nr" by (simp_all add: word_less_nat_alt word_le_nat_alt)
  then have "max nr until = nr" "max (unat nr) (unat until) = unat nr" "[unat nr..<unat until] = []"
    using 0 by (simp_all add: max.absorb1)
  with nl(1) show ?case by (subst skip_loop.simps) simp
next
  case (Suc d)
  then have lt: "nr < until" by (simp add: word_less_nat_alt)
  note suc = unat_Suc_less [OF lt]
  have "unat nr < unat until" using lt by (simp add: word_less_nat_alt)
  then have "[unat nr..<unat until] = unat nr # [Suc (unat nr)..<unat until]"
    "max (unat nr) (unat until) = max (unat (nr + 1)) (unat until)"
    "max nr until = max (nr + 1) until"
    using suc by (simp_all add: upt_conv_Cons max_def word_le_nat_alt)
  moreover have "d = unat until - unat (nr + 1)" using Suc(2) suc by simp
  ultimately show ?case using Suc(1) [of "nr + 1"] lt suc
    by (subst skip_loop.simps) (simp add: sk_entry_def)
qed

lemma skip_loop_length:
  "length (snd (snd (skip_loop P dhr until ck nr skipped)))
     = length skipped + (unat until - unat nr)"
proof (induction "unat until - unat nr" arbitrary: ck nr skipped)
  case 0
  then show ?case by (subst skip_loop.simps) (simp add: word_less_nat_alt)
next
  case (Suc d)
  then have lt: "nr < until" by (simp add: word_less_nat_alt)
  then have "d = unat until - unat (nr + 1)" using Suc(2) unat_Suc_less [OF lt] by simp
  with Suc(1) [of "nr + 1"] Suc(2) lt show ?case
    by (subst skip_loop.simps) (simp add: case_prod_unfold Let_def)
qed

lemma unat_saturating_sub [simp]: "unat (saturating_sub a b) = unat a - unat b"
  by (auto simp: saturating_sub_def unat_sub word_le_nat_alt)


section \<open>The parts of decrypt\<close>

abbreviation sk_key :: "skipped_key \<Rightarrow> bytes \<times> u32" where
  "sk_key s \<equiv> (sk_dh_pub s, sk_n s)"

lemma try_skipped_miss:
  "\<forall>s \<in> set (rs_skipped st). sk_key s \<noteq> (hdr_dh (rm_header m), hdr_n (rm_header m)) \<Longrightarrow>
     try_skipped P st m ad = (None, st)"
proof -
  assume "\<forall>s \<in> set (rs_skipped st). sk_key s \<noteq> (hdr_dh (rm_header m), hdr_n (rm_header m))"
  then have "take_first (\<lambda>s. sk_dh_pub s = hdr_dh (rm_header m) \<and> sk_n s = hdr_n (rm_header m))
     (rs_skipped st) = None" by (auto simp: take_first_None_iff)
  then show ?thesis by (simp add: try_skipped_def)
qed

lemma try_skipped_hit:
  assumes "distinct (map sk_key (rs_skipped st))" "s \<in> set (rs_skipped st)"
    "sk_key s = (hdr_dh (rm_header m), hdr_n (rm_header m))"
  obtains rest where
    "try_skipped P st m ad =
       (case aead_decrypt P (sk_mk s) (rm_ct m) ad (rm_header m) of Inr pt \<Rightarrow> Some pt | Inl _ \<Rightarrow> None,
        st\<lparr> rs_skipped := rest \<rparr>)"
    "set rest = set (rs_skipped st) - {s}" "distinct (map sk_key rest)"
    "length (rs_skipped st) = Suc (length rest)"
proof -
  let ?p = "\<lambda>s. sk_dh_pub s = hdr_dh (rm_header m) \<and> sk_n s = hdr_n (rm_header m)"
  have "take_first ?p (rs_skipped st) \<noteq> None" using assms by (auto simp: take_first_None_iff)
  then obtain y rest where tf: "take_first ?p (rs_skipped st) = Some (y, rest)" by auto
  have inj: "inj_on sk_key (set (rs_skipped st))" using assms(1) by (simp add: distinct_map)
  have y: "?p y" "y \<in> set (rs_skipped st)" "length (rs_skipped st) = Suc (length rest)"
    using take_first_Some [OF tf] by auto
  have rest: "distinct (map sk_key rest)" "set rest = {x \<in> set (rs_skipped st). sk_key x \<noteq> sk_key y}"
    using take_first_distinct [OF tf assms(1)] by auto
  have "y = s" by (rule inj_onD [OF inj]) (use y assms in auto)
  moreover have "set rest = set (rs_skipped st) - {s}"
    unfolding rest(2) \<open>y = s\<close> using inj_onD [OF inj _ _ assms(2)] by blast
  moreover have "try_skipped P st m ad =
       (case aead_decrypt P (sk_mk y) (rm_ct m) ad (rm_header m) of Inr pt \<Rightarrow> Some pt | Inl _ \<Rightarrow> None,
        st\<lparr> rs_skipped := rest \<rparr>)"
    by (simp add: try_skipped_def tf)
  ultimately show thesis using that y(3) rest(1) by blast
qed

lemma skip_message_keys_ok:
  assumes "rs_ckr st = Some (ck_at P ck (unat (rs_nr st)))" "rs_dhr st = Some dh"
    "(unat until - unat (rs_nr st)) + length (rs_skipped st) \<le> MAX_SKIP"
  shows "skip_message_keys P st until = (Inr (), st\<lparr>
     rs_ckr := Some (ck_at P ck (max (unat (rs_nr st)) (unat until))), rs_nr := max (rs_nr st) until,
     rs_skipped := rs_skipped st @ map (sk_entry P dh ck) [unat (rs_nr st)..<unat until] \<rparr>)"
  using assms by (simp add: skip_message_keys_def skip_loop_chain)

lemma skip_message_keys_None [simp]:
  "rs_ckr st = None \<Longrightarrow> skip_message_keys P st until = (Inr (), st)"
  by (simp add: skip_message_keys_def)

text \<open>The cap: whatever the outcome, the cache never exceeds \<open>MAX_SKIP\<close>, and the eviction loop
  has nothing to evict.\<close>
lemma skip_message_keys_bound:
  assumes "length (rs_skipped st) \<le> MAX_SKIP"
  shows "length (rs_skipped (snd (skip_message_keys P st until))) \<le> MAX_SKIP"
proof -
  have "length (snd (snd (skip_loop P dhr until ck (rs_nr st) (rs_skipped st)))) \<le> MAX_SKIP"
    if "\<not> MAX_SKIP < unat (saturating_sub until (rs_nr st)) + length (rs_skipped st)" for dhr ck
    using that by (simp add: skip_loop_length)
  then show ?thesis using assms
    by (auto simp: skip_message_keys_def case_prod_unfold Let_def split: option.splits)
qed

lemma try_skipped_bound:
  "length (rs_skipped (snd (try_skipped P st m ad))) \<le> length (rs_skipped st)"
  by (auto simp: try_skipped_def dest: take_first_Some split: option.splits)

lemma dh_phase_bound:
  "length (rs_skipped st) \<le> MAX_SKIP \<Longrightarrow>
     length (rs_skipped (snd (dh_phase P fresh st h))) \<le> MAX_SKIP"
  using skip_message_keys_bound [of st P "hdr_pn h"]
  by (auto simp: dh_phase_def dh_ratchet_step_def case_prod_unfold Let_def split: prod.splits sum.splits)

lemma chain_phase_bound:
  "length (rs_skipped st) \<le> MAX_SKIP \<Longrightarrow>
     length (rs_skipped (snd (chain_phase P st m ad))) \<le> MAX_SKIP"
  using skip_message_keys_bound [of st P "hdr_n (rm_header m)"]
  by (auto simp: chain_phase_def case_prod_unfold Let_def split: prod.splits sum.splits option.splits)

section \<open>The receiving chain as a chain receiver\<close>

definition wire_msg ::
  "prims \<Rightarrow> bytes \<Rightarrow> u32 \<Rightarrow> bytes \<Rightarrow> bytes \<Rightarrow> (nat \<Rightarrow> bytes) \<Rightarrow> nat \<Rightarrow> ratchet_message" where
  "wire_msg P dh pn ck ad pt j =
     (let h = \<lparr> hdr_dh = dh, hdr_pn = pn, hdr_n = of_nat j \<rparr>
      in \<lparr> rm_header = h, rm_ct = aead_encrypt P (mk_at P ck j) (pt j) ad h \<rparr>)"

lemma wire_msg_simps [simp]:
  "hdr_dh (rm_header (wire_msg P dh pn ck ad pt j)) = dh"
  "hdr_pn (rm_header (wire_msg P dh pn ck ad pt j)) = pn"
  "hdr_n (rm_header (wire_msg P dh pn ck ad pt j)) = of_nat j"
  by (simp_all add: wire_msg_def Let_def)

lemma open_wire_msg [simp]:
  "aead_correct P \<Longrightarrow> aead_decrypt P (mk_at P ck j) (rm_ct (wire_msg P dh pn ck ad pt j)) ad
     (rm_header (wire_msg P dh pn ck ad pt j)) = Inr (pt j)"
  by (simp add: wire_msg_def Let_def)

definition chain_inv :: "prims \<Rightarrow> bytes \<Rightarrow> bytes \<Rightarrow> ratchet_state \<Rightarrow> bool" where
  "chain_inv P dh ck st \<longleftrightarrow> aead_correct P \<and> rs_dhr st = Some dh
     \<and> rs_ckr st = Some (ck_at P ck (unat (rs_nr st)))
     \<and> distinct (map sk_key (rs_skipped st))
     \<and> (\<forall>s \<in> set (rs_skipped st). sk_dh_pub s = dh \<longrightarrow> (\<exists>j < unat (rs_nr st). s = sk_entry P dh ck j))"

definition chain_cached :: "prims \<Rightarrow> bytes \<Rightarrow> bytes \<Rightarrow> ratchet_state \<Rightarrow> nat set" where
  "chain_cached P dh ck st = {j. j < unat (rs_nr st) \<and> sk_entry P dh ck j \<in> set (rs_skipped st)}"

definition chain_load :: "ratchet_state \<Rightarrow> nat" where
  "chain_load st = length (rs_skipped st)"


lemma chain_phase_ok:
  assumes "aead_correct P" "rs_ckr st = Some (ck_at P ck (unat (rs_nr st)))" "rs_dhr st = Some dh"
    "unat (rs_nr st) \<le> i" "i < 2 ^ 32 - 1"
    "(i - unat (rs_nr st)) + length (rs_skipped st) \<le> MAX_SKIP"
  shows "chain_phase P st (wire_msg P dh pn ck ad pt i) ad = (Inr (pt i), st\<lparr>
     rs_ckr := Some (ck_at P ck (Suc i)), rs_nr := of_nat (Suc i),
     rs_skipped := rs_skipped st @ map (sk_entry P dh ck) [unat (rs_nr st)..<i] \<rparr>)"
proof -
  have i: "unat (of_nat i :: u32) = i" using assms by simp
  have "max (rs_nr st) (of_nat i) = of_nat i" "max (unat (rs_nr st)) i = i"
    using assms i by (simp_all add: max_def word_le_nat_alt)
  with skip_message_keys_ok [OF assms(2,3), of "of_nat i"] assms i show ?thesis
    by (simp add: chain_phase_def add.commute)
qed

lemma chain_phase_too_many:
  assumes "rs_ckr st = Some ck" "MAX_SKIP < (i - unat (rs_nr st)) + length (rs_skipped st)" "i < 2 ^ 32"
  shows "chain_phase P st (wire_msg P dh pn ck' ad pt i) ad = (Inl TooManySkipped, st)"
  using assms by (simp add: chain_phase_def skip_message_keys_def)

lemma chain_inv_key:
  assumes "chain_inv P dh ck st" "s \<in> set (rs_skipped st)" "sk_key s = (dh, of_nat i)" "i < 2 ^ 32"
  shows "s = sk_entry P dh ck i \<and> i < unat (rs_nr st)"
proof -
  obtain j where j: "j < unat (rs_nr st)" "s = sk_entry P dh ck j"
    using assms by (auto simp: chain_inv_def)
  then have "(of_nat j :: u32) = of_nat i" using assms(3) by simp
  moreover have "j < 2 ^ 32" using j(1) unat_bound [of "rs_nr st"] by simp
  ultimately show ?thesis using j assms(4) of_nat32_inject by blast
qed

lemma distinct_append_entries:
  assumes "distinct (map sk_key sk)" "b \<le> 2 ^ 32"
    "\<And>s i. s \<in> set sk \<Longrightarrow> a \<le> i \<Longrightarrow> i < b \<Longrightarrow> sk_key s \<noteq> (dh, of_nat i)"
  shows "distinct (map sk_key (sk @ map (sk_entry P dh ck) [a..<b]))"
proof -
  have "inj_on (\<lambda>i. sk_key (sk_entry P dh ck i)) {a..<b}"
    by (rule inj_onI) (use assms(2) of_nat32_inject in auto)
  then have "distinct (map sk_key (map (sk_entry P dh ck) [a..<b]))"
    by (simp add: distinct_map comp_def inj_on_def)
  moreover have "sk_key ` set sk \<inter> sk_key ` set (map (sk_entry P dh ck) [a..<b]) = {}"
    using assms(3) by fastforce
  ultimately show ?thesis using assms(1) by (simp only: map_append distinct_append set_map)
qed

lemma ratchet_live:
  assumes "chain_inv P dh ck st" "unat (rs_nr st) \<le> i" "i < 2 ^ 32 - 1"
    "(i - unat (rs_nr st)) + chain_load st \<le> MAX_SKIP"
  shows "\<exists>st'. ratchet_decrypt P fresh st (wire_msg P dh pn ck ad pt i) ad = (Inr (pt i), st')
     \<and> chain_inv P dh ck st' \<and> unat (rs_nr st') = Suc i
     \<and> chain_cached P dh ck st' = chain_cached P dh ck st \<union> {unat (rs_nr st)..<i}
     \<and> chain_load st' = chain_load st + (i - unat (rs_nr st))"
proof -
  let ?m = "wire_msg P dh pn ck ad pt i"
  let ?st' = "st\<lparr> rs_ckr := Some (ck_at P ck (Suc i)), rs_nr := of_nat (Suc i),
     rs_skipped := rs_skipped st @ map (sk_entry P dh ck) [unat (rs_nr st)..<i] \<rparr>"
  note inv = assms(1) [unfolded chain_inv_def]
  have "i < 2 ^ 32" using assms(3) by simp
  note key = chain_inv_key [OF assms(1)]
  have "try_skipped P st ?m ad = (None, st)"
    by (rule try_skipped_miss) (use key [OF _ _ \<open>i < 2 ^ 32\<close>] assms(2) in force)
  moreover have "dh_phase P fresh st (rm_header ?m) = (Inr (), st)" using inv by (simp add: dh_phase_def)
  moreover have "chain_phase P st ?m ad = (Inr (pt i), ?st')"
    using chain_phase_ok inv assms by (simp add: chain_load_def)
  ultimately have dec: "ratchet_decrypt P fresh st ?m ad = (Inr (pt i), ?st')"
    by (simp add: ratchet_decrypt_def)
  have nr: "unat (rs_nr ?st') = Suc i" using assms(3) unat_of_nat32 [of "Suc i"] by (simp del: of_nat_Suc)
  have low: "j < 2 ^ 32" if "j < i" for j using that assms(3) by simp
  have cached: "sk_entry P dh ck j \<in> sk_entry P dh ck ` {unat (rs_nr st)..<i}
      \<longleftrightarrow> j \<in> {unat (rs_nr st)..<i}" if "j < 2 ^ 32" for j
    using that low of_nat32_inject by (auto simp: sk_entry_def image_iff)
  have "sk_key s \<noteq> (dh, of_nat j)" if "s \<in> set (rs_skipped st)" "unat (rs_nr st) \<le> j" "j < i" for s j
    using key [OF that(1) _ low [OF that(3)]] that(2) by auto
  then have "distinct (map sk_key (rs_skipped ?st'))"
    using distinct_append_entries [of "rs_skipped st" i "unat (rs_nr st)" dh P ck] inv \<open>i < 2 ^ 32\<close> by simp
  moreover have "\<exists>j < unat (rs_nr ?st'). s = sk_entry P dh ck j"
    if s: "s \<in> set (rs_skipped ?st')" "sk_dh_pub s = dh" for s
  proof -
    have "s \<in> set (rs_skipped st) \<or> s \<in> sk_entry P dh ck ` {unat (rs_nr st)..<i}" using s by auto
    then have "\<exists>j < Suc i. s = sk_entry P dh ck j"
    proof
      assume "s \<in> set (rs_skipped st)"
      then obtain j where "j < unat (rs_nr st)" "s = sk_entry P dh ck j" using inv s(2) by blast
      then show ?thesis using assms(2) by (intro exI [of _ j]) simp
    next
      assume "s \<in> sk_entry P dh ck ` {unat (rs_nr st)..<i}"
      then obtain j where "j < i" "s = sk_entry P dh ck j" by auto
      then show ?thesis by (intro exI [of _ j]) simp
    qed
    then show ?thesis unfolding nr .
  qed
  ultimately have "chain_inv P dh ck ?st'" using inv nr by (simp add: chain_inv_def)
  moreover have "chain_cached P dh ck ?st' = chain_cached P dh ck st \<union> {unat (rs_nr st)..<i}"
  proof (rule set_eqI)
    fix j
    have "j < Suc i \<and> sk_entry P dh ck j \<in> set (rs_skipped st) \<longleftrightarrow>
        j < unat (rs_nr st) \<and> sk_entry P dh ck j \<in> set (rs_skipped st)"
      using key [of "sk_entry P dh ck j" j] low assms(2,3) by auto
    then show "j \<in> chain_cached P dh ck ?st' \<longleftrightarrow> j \<in> chain_cached P dh ck st \<union> {unat (rs_nr st)..<i}"
      using cached [of j] low nr assms(3) by (auto simp: chain_cached_def)
  qed
  ultimately show ?thesis using dec nr by (intro exI [of _ ?st']) (simp add: chain_load_def)
qed


lemma ratchet_late:
  assumes "chain_inv P dh ck st" "i < unat (rs_nr st)" "i \<in> chain_cached P dh ck st"
  shows "\<exists>st'. ratchet_decrypt P fresh st (wire_msg P dh pn ck ad pt i) ad = (Inr (pt i), st')
     \<and> chain_inv P dh ck st' \<and> unat (rs_nr st') = unat (rs_nr st)
     \<and> chain_cached P dh ck st' = chain_cached P dh ck st - {i}
     \<and> chain_load st = Suc (chain_load st')"
proof -
  let ?m = "wire_msg P dh pn ck ad pt i"
  note inv = assms(1) [unfolded chain_inv_def]
  have i: "i < 2 ^ 32" using assms(2) unat_bound [of "rs_nr st"] by simp
  obtain rest where r: "try_skipped P st ?m ad =
       (case aead_decrypt P (sk_mk (sk_entry P dh ck i)) (rm_ct ?m) ad (rm_header ?m) of
          Inr pt \<Rightarrow> Some pt | Inl _ \<Rightarrow> None, st\<lparr> rs_skipped := rest \<rparr>)"
    "set rest = set (rs_skipped st) - {sk_entry P dh ck i}" "distinct (map sk_key rest)"
    "length (rs_skipped st) = Suc (length rest)"
    using try_skipped_hit [of st "sk_entry P dh ck i" ?m P ad] inv assms(3)
    by (auto simp: chain_cached_def)
  have "ratchet_decrypt P fresh st ?m ad = (Inr (pt i), st\<lparr> rs_skipped := rest \<rparr>)"
    using r(1) inv by (simp add: ratchet_decrypt_def)
  moreover have "chain_inv P dh ck (st\<lparr> rs_skipped := rest \<rparr>)" using inv r by (simp add: chain_inv_def)
  moreover have "sk_entry P dh ck j = sk_entry P dh ck i \<longleftrightarrow> j = i" if "j < unat (rs_nr st)" for j
    using that i unat_bound [of "rs_nr st"] of_nat32_inject [of j i] by (auto simp: sk_entry_def)
  then have "chain_cached P dh ck (st\<lparr> rs_skipped := rest \<rparr>) = chain_cached P dh ck st - {i}"
    using r(2) by (auto simp: chain_cached_def)
  ultimately show ?thesis using r(4) by (intro exI [of _ "st\<lparr> rs_skipped := rest \<rparr>"]) (simp add: chain_load_def)
qed

interpretation rx: chain_receiver
  "\<lambda>st m. ratchet_decrypt P fresh st m ad" "wire_msg P dh pn ck ad pt" pt "chain_inv P dh ck"
  "\<lambda>st. unat (rs_nr st)" "chain_cached P dh ck" chain_load MAX_SKIP "2 ^ 32 - 1"
  for P fresh ad dh pn ck pt
proof
  show "chain_inv P dh ck st \<Longrightarrow> chain_cached P dh ck st \<subseteq> {..<unat (rs_nr st)}" for st
    by (auto simp: chain_cached_def)
qed (use ratchet_live ratchet_late in blast)+


section \<open>Properties\<close>

definition not_cached :: "ratchet_state \<Rightarrow> ratchet_message \<Rightarrow> bool" where
  "not_cached st m \<longleftrightarrow>
     list_all (\<lambda>s. sk_key s \<noteq> (hdr_dh (rm_header m), hdr_n (rm_header m))) (rs_skipped st)"

lemma try_skipped_not_cached [simp]: "not_cached st m \<Longrightarrow> try_skipped P st m ad = (None, st)"
  by (rule try_skipped_miss) (simp add: not_cached_def list_all_iff)

lemma skip_nothing:
  "rs_ckr st = Some ck \<Longrightarrow> rs_dhr st = Some dh \<Longrightarrow> until \<le> rs_nr st \<Longrightarrow>
     length (rs_skipped st) \<le> MAX_SKIP \<Longrightarrow> skip_message_keys P st until = (Inr (), st)"
  by (simp add: skip_message_keys_def skip_loop.simps word_le_nat_alt word_less_nat_alt)

text \<open>The header bytes bound into the AEAD determine the header: 40 bytes, and two headers
  with 32-byte keys have the same bytes only if they are equal.\<close>
lemma header_aad_inject:
  assumes "length (hdr_dh h) = 32" "length (hdr_dh h') = 32"
  shows "length (to_aad_bytes h) = 40 \<and> (to_aad_bytes h = to_aad_bytes h' \<longleftrightarrow> h = h')"
  using assms by (cases h; cases h') (auto simp: to_aad_bytes_def append_eq_same_length)

text \<open>Encrypting a list of plaintexts yields the consecutive messages of the sending chain:
  consecutive numbers, one key per number, and the chain left at the next position.\<close>
lemma ratchet_send_chain:
  assumes "rs_cks st = Some (ck_at P ck (unat (rs_ns st)))" "unat (rs_ns st) + length pts < 2 ^ 32"
  shows "deliver (\<lambda>st pt. ratchet_encrypt P st pt ad) st pts =
     (map (\<lambda>i. Inr (wire_msg P (rs_dhs_public st) (rs_pn st) ck ad (\<lambda>_. pts ! i) (unat (rs_ns st) + i)))
        [0..<length pts],
      st\<lparr> rs_cks := Some (ck_at P ck (unat (rs_ns st) + length pts)),
          rs_ns := of_nat (unat (rs_ns st) + length pts) \<rparr>)"
  using assms
proof (induction pts arbitrary: st)
  case (Cons pt pts)
  let ?st = "st\<lparr> rs_cks := Some (ck_at P ck (Suc (unat (rs_ns st)))), rs_ns := rs_ns st + 1 \<rparr>"
  have n: "unat (rs_ns st + 1) = Suc (unat (rs_ns st))" using Cons.prems by (intro unat_Suc_bound) simp
  have "ratchet_encrypt P st pt ad =
      (Inr (wire_msg P (rs_dhs_public st) (rs_pn st) ck ad (\<lambda>_. pt) (unat (rs_ns st))), ?st)"
    using Cons.prems by (simp add: ratchet_encrypt_def wire_msg_def Let_def)
  moreover have "[0..<length (pt # pts)] = 0 # map Suc [0..<length pts]"
    by (simp add: map_Suc_upt upt_conv_Cons del: upt_Suc)
  ultimately show ?case using Cons.IH [of ?st] Cons.prems n by (simp add: comp_def)
qed simp

text \<open>C12: Any distinct indices of a receiving chain within the window, cached or still to come,
  decrypt in any order of arrival.\<close>
theorem ratchet_any_order:
  assumes "chain_inv P dh ck st" "distinct is" "b < 2 ^ 32"
    "\<forall>i \<in> set is. (i \<in> chain_cached P dh ck st \<or> unat (rs_nr st) \<le> i) \<and> i < b"
    "length (rs_skipped st) + (b - unat (rs_nr st)) \<le> Suc MAX_SKIP"
  shows "fst (deliver (\<lambda>st m. ratchet_decrypt P fresh st m ad) st (map (wire_msg P dh pn ck ad pt) is))
     = map (\<lambda>i. Inr (pt i)) is"
proof -
  have p: "\<forall>i \<in> set is. chain_receiver.pending (\<lambda>st. unat (rs_nr st)) (chain_cached P dh ck) st i \<and> i < b"
    using assms(4) by (simp add: rx.pending_def)
  have l: "b \<le> 2 ^ 32 - 1" and c: "chain_load st + (b - unat (rs_nr st)) \<le> Suc MAX_SKIP"
    using assms(3,5) by (simp_all add: chain_load_def)
  show ?thesis using rx.any_order [OF assms(1,2) p l c] by (metis fst_conv)
qed

lemma demo_chain_inv:
  "chain_inv toy_prims [1] [2] \<lparr> rs_dhs_secret = [], rs_dhs_public = [], rs_dhr = Some [1], rs_rk = [],
     rs_cks = None, rs_ckr = Some [2], rs_ns = 0, rs_nr = 0, rs_pn = 0, rs_skipped = [], rs_session_id = [] \<rparr>"
  by (simp add: chain_inv_def)

theorem ratchet_any_order_witness:
  "fst (deliver (\<lambda>st m. ratchet_decrypt toy_prims [] st m [9])
     \<lparr> rs_dhs_secret = [], rs_dhs_public = [], rs_dhr = Some [1], rs_rk = [],
       rs_cks = None, rs_ckr = Some [2], rs_ns = 0, rs_nr = 0, rs_pn = 0, rs_skipped = [], rs_session_id = [] \<rparr>
     (map (wire_msg toy_prims [1] 0 [2] [9] (\<lambda>i. [of_nat i])) [2, 0, 1])) = [Inr [2], Inr [0], Inr [1]]"
  using ratchet_any_order [OF demo_chain_inv, of "[2, 0, 1]" 3 "[]" "[9]" 0 "\<lambda>i. [of_nat i]"]
  by (simp add: MAX_SKIP_def)

text \<open>C34: Whatever the outcome of \<open>decrypt\<close>, the cache of skipped keys stays within \<open>MAX_SKIP\<close>.\<close>
theorem ratchet_cache_bounded:
  assumes "length (rs_skipped st) \<le> MAX_SKIP"
  shows "length (rs_skipped (snd (ratchet_decrypt P fresh st m ad))) \<le> MAX_SKIP"
proof -
  obtain r st1 where ts: "try_skipped P st m ad = (r, st1)" by (cases "try_skipped P st m ad") auto
  have b1: "length (rs_skipped st1) \<le> MAX_SKIP" using try_skipped_bound [of P st m ad] assms ts by simp
  obtain r2 st2 where dp: "dh_phase P fresh st1 (rm_header m) = (r2, st2)"
    by (cases "dh_phase P fresh st1 (rm_header m)") auto
  have "length (rs_skipped st2) \<le> MAX_SKIP"
    using dh_phase_bound [OF b1, of P fresh "rm_header m"] dp by simp
  then show ?thesis using ts b1 dp chain_phase_bound [of st2 P m ad]
    by (simp add: ratchet_decrypt_def split: option.splits sum.splits)
qed

theorem ratchet_cache_bounded_witness:
  "length (rs_skipped (snd (ratchet_decrypt toy_prims [1] (new_responder toy_prims [2] [3])
      \<lparr> rm_header = \<lparr> hdr_dh = [4], hdr_pn = 0, hdr_n = 7 \<rparr>, rm_ct = [] \<rparr> []))) \<le> MAX_SKIP"
  by (rule ratchet_cache_bounded) (simp add: new_responder_def)

text \<open>The oldest-first eviction never happens: whenever \<open>skip_message_keys\<close> succeeds, the keys
  it keeps are all the keys it derived, appended to all the keys it had.\<close>
lemma eviction_unreachable:
  assumes "rs_ckr st = Some ck" "rs_dhr st = Some dh" "fst (skip_message_keys P st until) = Inr ()"
  shows "rs_skipped (snd (skip_message_keys P st until))
     = snd (snd (skip_loop P dh until ck (rs_nr st) (rs_skipped st)))"
proof -
  have "\<not> MAX_SKIP < unat (saturating_sub until (rs_nr st)) + length (rs_skipped st)"
    using assms by (auto simp: skip_message_keys_def)
  then have "length (snd (snd (skip_loop P dh until ck (rs_nr st) (rs_skipped st)))) \<le> MAX_SKIP"
    by (simp add: skip_loop_length)
  then show ?thesis using assms by (auto simp: skip_message_keys_def case_prod_unfold Let_def split: if_splits)
qed


text \<open>A message of the current chain beyond the cap is refused with \<open>TooManySkipped\<close> and
  leaves the session exactly as it was.\<close>
lemma too_many_skipped_atomic:
  assumes "rs_dhr st = Some (hdr_dh (rm_header m))" "rs_ckr st = Some ck" "not_cached st m"
    "MAX_SKIP < (unat (hdr_n (rm_header m)) - unat (rs_nr st)) + length (rs_skipped st)"
  shows "ratchet_decrypt P fresh st m ad = (Inl TooManySkipped, st)"
  using assms
  by (simp add: ratchet_decrypt_def dh_phase_def chain_phase_def skip_message_keys_def)

text \<open>A message of the chain whose number lies behind the chain and whose key is not cached is refused by the
  AEAD, but only after the receiving chain has moved: the next message of the chain is now behind it too.\<close>
lemma stale_message_moves_chain:
  assumes "chain_inv P dh ck st" "length (rs_skipped st) \<le> MAX_SKIP" "unat (rs_nr st) < 2 ^ 32 - 1"
    and "i < unat (rs_nr st)" "not_cached st (wire_msg P dh pn ck ad pt i)"
    and "aead_decrypt P (mk_at P ck (unat (rs_nr st))) (rm_ct (wire_msg P dh pn ck ad pt i)) ad
        (rm_header (wire_msg P dh pn ck ad pt i)) = Inl BadAead"
  shows "\<exists>st'. ratchet_decrypt P fresh st (wire_msg P dh pn ck ad pt i) ad = (Inl BadAead, st')
     \<and> chain_inv P dh ck st' \<and> unat (rs_nr st') = Suc (unat (rs_nr st)) \<and> rs_skipped st' = rs_skipped st"
proof -
  let ?st = "st\<lparr> rs_ckr := Some (ck_at P ck (Suc (unat (rs_nr st)))), rs_nr := rs_nr st + 1 \<rparr>"
  note inv = assms(1) [unfolded chain_inv_def]
  have nr: "unat (rs_nr st + 1) = Suc (unat (rs_nr st))" using assms(3) by (intro unat_Suc_bound) simp
  have "of_nat i \<le> rs_nr st" using assms(4) unat_bound [of "rs_nr st"] by (simp add: word_le_nat_alt)
  then have "ratchet_decrypt P fresh st (wire_msg P dh pn ck ad pt i) ad = (Inl BadAead, ?st)"
    using inv assms(2,5,6) skip_nothing [of st "ck_at P ck (unat (rs_nr st))" dh "of_nat i" P]
    by (simp add: ratchet_decrypt_def dh_phase_def chain_phase_def)
  moreover have "chain_inv P dh ck ?st" using inv nr by (auto simp: chain_inv_def intro: less_SucI)
  ultimately show ?thesis using nr by (intro exI [of _ ?st]) simp
qed

text \<open>The next message of a chain with nothing skipped.\<close>
lemma next_of_chain:
  assumes "chain_inv P dh ck st" "rs_skipped st = []" "unat (rs_nr st) = k" "k < 2 ^ 32 - 1"
  shows "\<exists>st'. (\<forall>fresh. ratchet_decrypt P fresh st (wire_msg P dh pn ck ad pt k) ad = (Inr (pt k), st'))
     \<and> chain_inv P dh ck st' \<and> unat (rs_nr st') = Suc k \<and> rs_skipped st' = []"
proof -
  let ?m = "wire_msg P dh pn ck ad pt k"
  have "ratchet_decrypt P fresh st ?m ad = ratchet_decrypt P [] st ?m ad" for fresh
    using assms(1,2) by (simp add: ratchet_decrypt_def try_skipped_def dh_phase_def chain_inv_def)
  then show ?thesis
    using ratchet_live [OF assms(1), of k "[]" pn ad pt] assms by (auto simp: chain_load_def)
qed

text \<open>A forged message with an unknown DH key is rejected by the AEAD but not before the
  session has replaced its own DH key pair, root key and chains: the old session state is gone.\<close>
lemma forged_dh_rotates:
  assumes "rs_dhr st \<noteq> Some (hdr_dh (rm_header m))" "not_cached st m"
    and "hdr_pn (rm_header m) \<le> rs_nr st" "hdr_n (rm_header m) = 0" "length (rs_skipped st) \<le> MAX_SKIP"
      "rs_ckr st = None \<or> rs_dhr st \<noteq> None"
    and "\<And>mk. aead_decrypt P mk (rm_ct m) ad (rm_header m) = Inl BadAead"
  shows "\<exists>st'. ratchet_decrypt P fresh st m ad = (Inl BadAead, st')
     \<and> rs_dhs_secret st' = fresh \<and> rs_dhr st' = Some (hdr_dh (rm_header m))
     \<and> rs_rk st' = rs_rk (dh_ratchet_step P fresh st (hdr_dh (rm_header m))) \<and> rs_ns st' = 0 \<and> rs_nr st' = 1"
proof -
  have "skip_message_keys P st (hdr_pn (rm_header m)) = (Inr (), st)"
  proof (cases "rs_ckr st")
    case (Some ck)
    then obtain dh where "rs_dhr st = Some dh" using assms(6) by auto
    then show ?thesis using skip_nothing [OF Some] assms(3,5) by blast
  qed simp
  then have dp: "dh_phase P fresh st (rm_header m) = (Inr (), dh_ratchet_step P fresh st (hdr_dh (rm_header m)))"
    using assms(1) by (simp add: dh_phase_def)
  let ?st = "dh_ratchet_step P fresh st (hdr_dh (rm_header m))"
  obtain ck where st: "rs_ckr ?st = Some ck" "rs_dhr ?st = Some (hdr_dh (rm_header m))" "rs_nr ?st = 0"
    "rs_dhs_secret ?st = fresh" "rs_ns ?st = 0" "rs_skipped ?st = rs_skipped st"
    by (simp add: dh_ratchet_step_def case_prod_unfold Let_def)
  have "skip_message_keys P ?st 0 = (Inr (), ?st)"
    by (rule skip_nothing [OF st(1,2)]) (use st assms(5) in simp_all)
  then show ?thesis using assms(2,4,7) dp st
    by (simp add: ratchet_decrypt_def chain_phase_def case_prod_unfold Let_def)
qed

text \<open>A forged message that names a cached index destroys the cached key although its AEAD
  check fails: the genuine message with that header can no longer be opened from the cache.\<close>
lemma forgery_burns_cached_key:
  assumes "distinct (map sk_key (rs_skipped st))" "s \<in> set (rs_skipped st)"
    "sk_key s = (hdr_dh (rm_header m), hdr_n (rm_header m))"
    "aead_decrypt P (sk_mk s) (rm_ct m) ad (rm_header m) = Inl BadAead"
  shows "\<exists>st'. try_skipped P st m ad = (None, st') \<and> not_cached st' m
     \<and> Suc (length (rs_skipped st')) = length (rs_skipped st)"
proof -
  obtain rest where r: "try_skipped P st m ad = (None, st\<lparr> rs_skipped := rest \<rparr>)"
    "set rest = set (rs_skipped st) - {s}" "length (rs_skipped st) = Suc (length rest)"
    by (rule try_skipped_hit [OF assms(1-3), of P ad]) (simp add: assms(4))
  have inj: "inj_on sk_key (set (rs_skipped st))" using assms(1) by (simp add: distinct_map)
  have "sk_key x \<noteq> sk_key s" if "x \<in> set rest" for x
    using inj_onD [OF inj _ _ assms(2), of x] that r(2) by blast
  then have "not_cached (st\<lparr> rs_skipped := rest \<rparr>) m"
    unfolding not_cached_def list_all_iff assms(3) by simp
  then show ?thesis using r(1,3) by (intro exI [of _ "st\<lparr> rs_skipped := rest \<rparr>"]) simp
qed

end
