(* ===== verification/RatchetNet.thy ===== *)
theory RatchetNet
  imports Ratchet
begin

text \<open>
  Two parties running the Double Ratchet over an asynchronous network that may delay, reorder
  and withhold messages.  The operations are the model's \<open>ratchet_encrypt\<close> and
  \<open>ratchet_decrypt\<close>; the network adds the list of undelivered messages and, as ghost state, the
  epoch of every party (how many DH keys were generated before its current one) and the epoch and
  index of every message.  Odd epochs belong to the initiator, even epochs to the responder,
  whose signed prekey is epoch 0.  \<open>sec k\<close> is the DH secret of epoch \<open>k\<close>.
\<close>

section \<open>The network\<close>

record flight =
  fl_epoch :: nat
  fl_idx :: nat
  fl_msg :: ratchet_message
  fl_pt :: bytes

record net =
  nt_party :: "bool \<Rightarrow> ratchet_state"   \<comment> \<open>\<open>True\<close>: the initiator\<close>
  nt_epoch :: "bool \<Rightarrow> nat"
  nt_fly :: "flight list"

definition net_init :: "prims \<Rightarrow> (nat \<Rightarrow> bytes) \<Rightarrow> bytes \<Rightarrow> net" where
  "net_init P sec sk = \<lparr>
     nt_party = (\<lambda>p. if p then new_initiator P (sec 1) sk (x25519_pub P (sec 0))
                     else new_responder P sk (sec 0)),
     nt_epoch = (\<lambda>p. if p then 1 else 0), nt_fly = [] \<rparr>"

definition net_recv :: "prims \<Rightarrow> (nat \<Rightarrow> bytes) \<Rightarrow> bytes \<Rightarrow> net \<Rightarrow> bool \<Rightarrow> ratchet_message \<Rightarrow>
    (ratchet_error + bytes) \<times> ratchet_state" where
  "net_recv P sec ad n q m = ratchet_decrypt P (sec (nt_epoch n q + 2)) (nt_party n q) m ad"

text \<open>The receiver's state and epoch after \<open>net_recv\<close>; the DH key moved on iff \<open>dhr\<close> did.\<close>
definition net_update :: "net \<Rightarrow> bool \<Rightarrow> ratchet_state \<Rightarrow> net" where
  "net_update n q st = n\<lparr> nt_party := (nt_party n)(q := st),
     nt_epoch := (nt_epoch n)(q := (if rs_dhr st = rs_dhr (nt_party n q) then nt_epoch n q
                                    else nt_epoch n q + 2)) \<rparr>"

text \<open>\<open>to_party q f\<close>: the flight was sent by the other party.\<close>
definition to_party :: "bool \<Rightarrow> flight \<Rightarrow> bool" where
  "to_party q f \<longleftrightarrow> odd (fl_epoch f) \<noteq> q"

inductive net_step :: "prims \<Rightarrow> (nat \<Rightarrow> bytes) \<Rightarrow> bytes \<Rightarrow> net \<Rightarrow> net \<Rightarrow> bool"
  for P sec ad where
  send: "ratchet_encrypt P (nt_party n p) pt ad = (Inr m, st) \<Longrightarrow>
      unat (rs_ns (nt_party n p)) < 2 ^ 32 - 1 \<Longrightarrow>
      net_step P sec ad n (n\<lparr> nt_party := (nt_party n)(p := st),
        nt_fly := \<lparr> fl_epoch = nt_epoch n p, fl_idx = unat (rs_ns (nt_party n p)),
                    fl_msg = m, fl_pt = pt \<rparr> # nt_fly n \<rparr>)"
| deliver_ok: "nt_fly n = us @ f # vs \<Longrightarrow> to_party q f \<Longrightarrow>
      x25519_pub P (sec (nt_epoch n q + 2)) \<notin> (\<lambda>k. x25519_pub P (sec k)) ` {..nt_epoch n q + 1} \<Longrightarrow>
      net_recv P sec ad n q (fl_msg f) = (Inr pt, st) \<Longrightarrow>
      net_step P sec ad n ((net_update n q st)\<lparr> nt_fly := us @ vs \<rparr>)"
| deliver_err: "f \<in> set (nt_fly n) \<Longrightarrow> to_party q f \<Longrightarrow>
      x25519_pub P (sec (nt_epoch n q + 2)) \<notin> (\<lambda>k. x25519_pub P (sec k)) ` {..nt_epoch n q + 1} \<Longrightarrow>
      net_recv P sec ad n q (fl_msg f) = (Inl e, st) \<Longrightarrow>
      net_step P sec ad n (net_update n q st)"

inductive net_reachable :: "prims \<Rightarrow> (nat \<Rightarrow> bytes) \<Rightarrow> bytes \<Rightarrow> bytes \<Rightarrow> net \<Rightarrow> bool"
  for P sec sk ad where
  init: "net_reachable P sec sk ad (net_init P sec sk)"
| step: "net_reachable P sec sk ad n \<Longrightarrow> net_step P sec ad n n' \<Longrightarrow> net_reachable P sec sk ad n'"

section \<open>The key schedule of a conversation\<close>

abbreviation dkey :: "prims \<Rightarrow> (nat \<Rightarrow> bytes) \<Rightarrow> nat \<Rightarrow> bytes" where
  "dkey P sec k \<equiv> x25519_pub P (sec k)"

primrec root :: "prims \<Rightarrow> (nat \<Rightarrow> bytes) \<Rightarrow> bytes \<Rightarrow> nat \<Rightarrow> bytes \<times> bytes" where
  "root P sec sk 0 = (sk, [])"
| "root P sec sk (Suc k) =
     kdf_rk P (fst (root P sec sk k)) (x25519_dh P (sec (Suc k)) (dkey P sec k))"

abbreviation ent :: "prims \<Rightarrow> (nat \<Rightarrow> bytes) \<Rightarrow> bytes \<Rightarrow> nat \<times> nat \<Rightarrow> skipped_key" where
  "ent P sec sk kj \<equiv> sk_entry P (dkey P sec (fst kj)) (snd (root P sec sk (fst kj))) (snd kj)"

text \<open>Index \<open>(k, j)\<close> lies behind a receiver of epoch \<open>e\<close> that accepted \<open>nr\<close> messages of the
  current chain: its key must come from the cache.\<close>
definition behind :: "nat \<Rightarrow> nat \<Rightarrow> nat \<times> nat \<Rightarrow> bool" where
  "behind e nr kj \<longleftrightarrow> fst kj + 1 < e \<or> (fst kj + 1 = e \<and> snd kj < nr)"

definition ahead :: "(nat \<Rightarrow> nat) \<Rightarrow> nat \<Rightarrow> nat \<Rightarrow> nat \<times> nat \<Rightarrow> bool" where
  "ahead sent e nr kj \<longleftrightarrow> snd kj < sent (fst kj) \<and>
     ((fst kj + 1 = e \<and> nr \<le> snd kj) \<or> fst kj = e + 1)"

definition own_inv :: "prims \<Rightarrow> (nat \<Rightarrow> bytes) \<Rightarrow> bytes \<Rightarrow> (nat \<Rightarrow> nat) \<Rightarrow> nat \<Rightarrow> ratchet_state \<Rightarrow> bool" where
  "own_inv P sec sk sent e st \<longleftrightarrow>
     rs_dhs_secret st = sec e \<and> rs_dhs_public st = dkey P sec e
   \<and> rs_rk st = fst (root P sec sk e)
   \<and> rs_ns st = of_nat (sent e) \<and> rs_pn st = of_nat (sent (e - 2))
   \<and> rs_cks st = (if e = 0 then None else Some (ck_at P (snd (root P sec sk e)) (sent e)))
   \<and> rs_dhr st = (if e = 0 then None else Some (dkey P sec (e - 1)))
   \<and> rs_ckr st = (if e < 2 then None
                  else Some (ck_at P (snd (root P sec sk (e - 1))) (unat (rs_nr st))))
   \<and> unat (rs_nr st) \<le> sent (e - 1)"

text \<open>\<open>F\<close> is the set of indices in flight to the party.\<close>
definition cache_inv :: "prims \<Rightarrow> (nat \<Rightarrow> bytes) \<Rightarrow> bytes \<Rightarrow> (nat \<Rightarrow> nat) \<Rightarrow> (nat \<times> nat) set \<Rightarrow> nat \<Rightarrow>
    ratchet_state \<Rightarrow> bool" where
  "cache_inv P sec sk sent F e st \<longleftrightarrow>
     distinct (map sk_key (rs_skipped st))
   \<and> set (rs_skipped st) = ent P sec sk ` {kj \<in> F. behind e (unat (rs_nr st)) kj}
   \<and> {kj. ahead sent e (unat (rs_nr st)) kj} \<subseteq> F
   \<and> (\<forall>(k, j) \<in> F. j < sent k \<and> k \<le> e + 1 \<and> odd k \<noteq> odd e)"

definition fly_to :: "net \<Rightarrow> bool \<Rightarrow> (nat \<times> nat) set" where
  "fly_to n q = (\<lambda>f. (fl_epoch f, fl_idx f)) ` {f \<in> set (nt_fly n). to_party q f}"

definition net_inv :: "prims \<Rightarrow> (nat \<Rightarrow> bytes) \<Rightarrow> bytes \<Rightarrow> bytes \<Rightarrow> (nat \<Rightarrow> nat) \<Rightarrow> net \<Rightarrow> bool" where
  "net_inv P sec sk ad sent n \<longleftrightarrow>
     (\<forall>q. odd (nt_epoch n q) = q \<and> own_inv P sec sk sent (nt_epoch n q) (nt_party n q)
        \<and> cache_inv P sec sk sent (fly_to n q) (nt_epoch n q) (nt_party n q))
   \<and> (nt_epoch n True = nt_epoch n False + 1 \<or> nt_epoch n False = nt_epoch n True + 1)
   \<and> sent 0 = 0 \<and> (\<forall>k. sent k < 2 ^ 32) \<and> (\<forall>k. nt_epoch n (odd k) < k \<longrightarrow> sent k = 0)
   \<and> distinct (map (\<lambda>f. (fl_epoch f, fl_idx f)) (nt_fly n))
   \<and> (\<forall>f \<in> set (nt_fly n). fl_msg f = wire_msg P (dkey P sec (fl_epoch f))
        (of_nat (sent (fl_epoch f - 2))) (snd (root P sec sk (fl_epoch f))) ad (\<lambda>_. fl_pt f) (fl_idx f))
   \<and> inj_on (dkey P sec) {..max (nt_epoch n True) (nt_epoch n False)}"


section \<open>One receiving party\<close>

lemmas party_defs = own_inv_def cache_inv_def

lemma ent_inject:
  assumes "inj_on (dkey P sec) {..M}" "k \<le> M" "k' \<le> M" "j < 2 ^ 32" "j' < 2 ^ 32"
  shows "sk_key (ent P sec sk (k, j)) = sk_key (ent P sec sk (k', j')) \<longleftrightarrow> (k, j) = (k', j')"
  using assms of_nat32_inject [of j j'] by (auto dest: inj_onD)

text \<open>What every lemma of this section assumes of the receiver, its epoch and the flights.\<close>
definition party_ok :: "prims \<Rightarrow> (nat \<Rightarrow> bytes) \<Rightarrow> bytes \<Rightarrow> (nat \<Rightarrow> nat) \<Rightarrow> (nat \<times> nat) set \<Rightarrow> nat \<Rightarrow> nat \<Rightarrow>
    ratchet_state \<Rightarrow> bool" where
  "party_ok P sec sk sent F M e st \<longleftrightarrow>
     own_inv P sec sk sent e st \<and> cache_inv P sec sk sent F e st
   \<and> inj_on (dkey P sec) {..M} \<and> e \<le> M \<and> (\<forall>(k, j) \<in> F. k \<le> M)
   \<and> (\<forall>k. sent k < 2 ^ 32) \<and> sent 0 = 0 \<and> aead_correct P"

lemma party_flight:
  assumes "party_ok P sec sk sent F M e st" "(k, j) \<in> F"
  shows "j < sent k" "k \<le> e + 1" "odd k \<noteq> odd e" "k \<le> M" "j < 2 ^ 32 - 1" "k \<noteq> 0"
proof -
  show "j < sent k" "k \<le> e + 1" "odd k \<noteq> odd e" "k \<le> M"
    using assms by (auto simp: party_ok_def cache_inv_def)
  moreover have "sent k < 2 ^ 32" "sent 0 = 0" using assms by (auto simp: party_ok_def)
  ultimately show "j < 2 ^ 32 - 1" "k \<noteq> 0" by (auto intro: ccontr)
qed

lemma party_ent_inj: "party_ok P sec sk sent F M e st \<Longrightarrow> inj_on (ent P sec sk) F"
proof (rule inj_onI, clarify)
  fix k j k' j'
  assume p: "party_ok P sec sk sent F M e st" and m: "(k, j) \<in> F" "(k', j') \<in> F"
    and "ent P sec sk (k, j) = ent P sec sk (k', j')"
  then have "sk_key (ent P sec sk (k, j)) = sk_key (ent P sec sk (k', j'))" by simp
  then show "k = k' \<and> j = j'"
    using ent_inject [of P sec M k k' j j'] party_flight [OF p m(1)] party_flight [OF p m(2)] p
    by (simp add: party_ok_def)
qed

abbreviation fmsg :: "prims \<Rightarrow> (nat \<Rightarrow> bytes) \<Rightarrow> bytes \<Rightarrow> (nat \<Rightarrow> nat) \<Rightarrow> bytes \<Rightarrow> bytes \<Rightarrow> nat \<times> nat \<Rightarrow> ratchet_message" where
  "fmsg P sec sk sent ad pt kj \<equiv> wire_msg P (dkey P sec (fst kj)) (of_nat (sent (fst kj - 2)))
     (snd (root P sec sk (fst kj))) ad (\<lambda>_. pt) (snd kj)"

lemma party_fresh_key:
  assumes p: "party_ok P sec sk sent F M e st" and m: "(k, j) \<in> F" "\<not> behind e (unat (rs_nr st)) (k, j)"
    and s: "s \<in> set (rs_skipped st)"
  shows "sk_key s \<noteq> (dkey P sec k, of_nat j)"
proof -
  obtain k' j' where kj: "s = ent P sec sk (k', j')" "(k', j') \<in> F" "behind e (unat (rs_nr st)) (k', j')"
    using p s by (auto simp: party_ok_def cache_inv_def)
  have "(k', j') \<noteq> (k, j)" using kj(3) m(2) by auto
  then have "sk_key s \<noteq> sk_key (ent P sec sk (k, j))"
    using ent_inject [of P sec M k' k j' j] kj(1) party_flight [OF p m(1)] party_flight [OF p kj(2)] p
    by (simp add: party_ok_def)
  then show ?thesis by simp
qed

lemma party_miss:
  assumes p: "party_ok P sec sk sent F M e st" and m: "(k, j) \<in> F" "\<not> behind e (unat (rs_nr st)) (k, j)"
  shows "try_skipped P st (fmsg P sec sk sent ad pt (k, j)) ad = (None, st)"
  by (rule try_skipped_miss, rule ballI, drule party_fresh_key [OF p m]) simp

text \<open>A message that lies behind is opened with its cached key.\<close>
lemma party_behind:
  assumes p: "party_ok P sec sk sent F M e st" and m: "(k, j) \<in> F" "behind e (unat (rs_nr st)) (k, j)"
  shows "\<exists>st'. ratchet_decrypt P fresh st (fmsg P sec sk sent ad pt (k, j)) ad = (Inr pt, st')
     \<and> party_ok P sec sk sent (F - {(k, j)}) M e st' \<and> rs_dhr st' = rs_dhr st"
proof -
  note inv = p [unfolded party_ok_def cache_inv_def]
  let ?m = "fmsg P sec sk sent ad pt (k, j)"
  have mem: "ent P sec sk (k, j) \<in> set (rs_skipped st)" using inv m by blast
  have dist: "distinct (map sk_key (rs_skipped st))" using inv by blast
  obtain rest where r: "try_skipped P st ?m ad =
       (case aead_decrypt P (sk_mk (ent P sec sk (k, j))) (rm_ct ?m) ad (rm_header ?m) of
          Inr pt \<Rightarrow> Some pt | Inl _ \<Rightarrow> None, st\<lparr> rs_skipped := rest \<rparr>)"
    "set rest = set (rs_skipped st) - {ent P sec sk (k, j)}" "distinct (map sk_key rest)"
    using try_skipped_hit [OF dist mem, of ?m P ad] by auto
  have "ratchet_decrypt P fresh st ?m ad = (Inr pt, st\<lparr> rs_skipped := rest \<rparr>)"
    using r(1) inv by (simp add: ratchet_decrypt_def)
  moreover have "set rest = ent P sec sk ` {kj \<in> F - {(k, j)}. behind e (unat (rs_nr st)) kj}"
  proof -
    let ?B = "{kj \<in> F. behind e (unat (rs_nr st)) kj}"
    have "ent P sec sk ` (?B - {(k, j)}) = ent P sec sk ` ?B - ent P sec sk ` {(k, j)}"
      by (rule inj_on_image_set_diff [OF party_ent_inj [OF p]]) (use m in auto)
    moreover have "?B - {(k, j)} = {kj \<in> F - {(k, j)}. behind e (unat (rs_nr st)) kj}" by auto
    ultimately show ?thesis using r(2) inv by simp
  qed
  moreover have "\<not> ahead sent e (unat (rs_nr st)) (k, j)" using m(2) by (auto simp: ahead_def behind_def)
  ultimately show ?thesis using inv r(3)
    by (intro exI [of _ "st\<lparr> rs_skipped := rest \<rparr>"]) (auto simp: party_ok_def party_defs)
qed


text \<open>Every cached key and every key still to be skipped belongs to a different undelivered
  message, so the cap can only be hit with more than \<open>MAX_SKIP + 1\<close> messages undelivered.\<close>
lemma party_count:
  assumes p: "party_ok P sec sk sent F M e st" and "finite F" and G: "G \<subseteq> F"
    "\<forall>kj \<in> G. \<not> behind e (unat (rs_nr st)) kj"
  shows "card G + length (rs_skipped st) \<le> card F"
proof -
  let ?B = "{kj \<in> F. behind e (unat (rs_nr st)) kj}"
  have B: "?B \<subseteq> F" by auto
  have "distinct (rs_skipped st)" using p by (simp add: party_ok_def cache_inv_def distinct_map)
  then have "length (rs_skipped st) = card (set (rs_skipped st))" by (rule distinct_card [symmetric])
  also have "\<dots> = card ?B"
    using p card_image [OF inj_on_subset [OF party_ent_inj [OF p] B]] by (simp add: party_ok_def cache_inv_def)
  finally have len: "length (rs_skipped st) = card ?B" .
  have "card (G \<union> ?B) = card G + card ?B"
    by (rule card_Un_disjoint) (use G \<open>finite F\<close> finite_subset in auto)
  moreover have "card (G \<union> ?B) \<le> card F" by (rule card_mono) (use G \<open>finite F\<close> in auto)
  ultimately show ?thesis using len by simp
qed

lemma chain_segment:
  "card ((\<lambda>i. (k, i)) ` {a..<b}) = b - a"
  by (subst card_image) (auto simp: inj_on_def)

text \<open>A message of the current receiving chain.\<close>
lemma party_current:
  assumes p: "party_ok P sec sk sent F M e st" and m: "(k, j) \<in> F" "k + 1 = e" "unat (rs_nr st) \<le> j"
    and cap: "(j - unat (rs_nr st)) + length (rs_skipped st) \<le> MAX_SKIP"
  shows "\<exists>st'. chain_phase P st (fmsg P sec sk sent ad pt (k, j)) ad = (Inr pt, st')
     \<and> party_ok P sec sk sent (F - {(k, j)}) M e st' \<and> rs_dhr st' = rs_dhr st"
proof -
  note inv = p [unfolded party_ok_def party_defs]
  note fl = party_flight [OF p m(1)]
  let ?nr = "unat (rs_nr st)" and ?D = "dkey P sec k" and ?C = "snd (root P sec sk k)"
  let ?st' = "st\<lparr> rs_ckr := Some (ck_at P ?C (Suc j)), rs_nr := of_nat (Suc j),
     rs_skipped := rs_skipped st @ map (sk_entry P ?D ?C) [?nr..<j] \<rparr>"
  have e: "e \<noteq> 0" "\<not> e < 2" "e - 1 = k" using m fl(6) by auto
  have "chain_phase P st (fmsg P sec sk sent ad pt (k, j)) ad = (Inr pt, ?st')"
    using chain_phase_ok [of P st ?C ?D j "of_nat (sent (k - 2))" ad "\<lambda>_. pt"] inv e m(3) fl(5) cap by simp
  moreover have nr: "unat (rs_nr ?st') = Suc j" using fl(5) unat_of_nat32 [of "Suc j"] by (simp del: of_nat_Suc)
  let ?B = "{kj \<in> F. behind e ?nr kj}" and ?S = "(\<lambda>i. (k, i)) ` {?nr..<j}"
  have SF: "?S \<subseteq> F" using inv fl(1) m(2) by (auto simp: ahead_def)
  have B': "{kj \<in> F - {(k, j)}. behind e (Suc j) kj} = ?B \<union> ?S"
    using SF m by (auto simp: behind_def)
  have set': "set (rs_skipped ?st') = ent P sec sk ` (?B \<union> ?S)"
    using inv by (auto simp: image_Un image_image)
  have "sk_key s \<noteq> (?D, of_nat i)" if s: "s \<in> set (rs_skipped st)" and i: "?nr \<le> i" "i < j" for s i
  proof -
    have "(k, i) \<in> F" "\<not> behind e ?nr (k, i)" using SF i m(2) by (auto simp: behind_def)
    then show ?thesis using party_fresh_key [OF p _ _ s] by simp
  qed
  then have "distinct (map sk_key (rs_skipped ?st'))"
    using distinct_append_entries [of "rs_skipped st" j ?nr ?D P ?C] inv fl(5) by simp
  moreover have "{kj. ahead sent e (Suc j) kj} \<subseteq> F - {(k, j)}"
    using inv m by (auto simp: ahead_def)
  ultimately have "cache_inv P sec sk sent (F - {(k, j)}) e ?st'"
    unfolding cache_inv_def nr set' B' using inv by auto
  moreover have "own_inv P sec sk sent e ?st'"
    unfolding own_inv_def nr using inv e fl(1) by (simp del: of_nat_Suc)
  ultimately show ?thesis
    using inv \<open>chain_phase P st _ ad = (Inr pt, ?st')\<close> by (intro exI [of _ ?st']) (auto simp: party_ok_def)
qed


lemma dh_ratchet_root:
  assumes "dh_agree P" "rs_rk st = fst (root P sec sk e)" "rs_dhs_secret st = sec e"
  shows "dh_ratchet_step P (sec (e + 2)) st (dkey P sec (e + 1)) = st\<lparr> rs_pn := rs_ns st, rs_ns := 0,
     rs_nr := 0, rs_dhr := Some (dkey P sec (e + 1)), rs_ckr := Some (snd (root P sec sk (e + 1))),
     rs_dhs_secret := sec (e + 2), rs_dhs_public := dkey P sec (e + 2),
     rs_rk := fst (root P sec sk (e + 2)), rs_cks := Some (snd (root P sec sk (e + 2))) \<rparr>"
  using assms dh_agreeD [OF assms(1), of "sec e" "sec (Suc e)"]
  by (simp add: dh_ratchet_step_def case_prod_unfold Let_def numeral_2_eq_2)

text \<open>The part of \<open>dh_phase\<close> before the key rotation: the old chain is cached to its end.\<close>
lemma party_skip_old:
  assumes p: "party_ok P sec sk sent F M e st"
    and cap: "(sent (e - 1) - unat (rs_nr st)) + length (rs_skipped st) \<le> MAX_SKIP"
  defines "S \<equiv> map (sk_entry P (dkey P sec (e - 1)) (snd (root P sec sk (e - 1)))) [unat (rs_nr st)..<sent (e - 1)]"
  shows "\<exists>ck nr. skip_message_keys P st (of_nat (sent (e - 1))) =
     (Inr (), st\<lparr> rs_ckr := ck, rs_nr := nr, rs_skipped := rs_skipped st @ S \<rparr>)"
proof (cases "e < 2")
  case True
  then have "e - 1 = 0" "rs_ckr st = None" using p by (auto simp: party_ok_def own_inv_def)
  moreover have "sent 0 = 0" using p by (simp add: party_ok_def)
  ultimately show ?thesis
    by (intro exI [of _ "rs_ckr st"] exI [of _ "rs_nr st"]) (simp add: S_def)
next
  case False
  note inv = p [unfolded party_ok_def own_inv_def]
  have "unat (of_nat (sent (e - 1)) :: u32) = sent (e - 1)" using inv by simp
  then show ?thesis
    using skip_message_keys_ok [of st P _ "dkey P sec (e - 1)" "of_nat (sent (e - 1))"] inv False cap
    by (force simp: S_def)
qed

text \<open>The first message of a new sending chain triggers the DH ratchet step.\<close>
lemma party_dh:
  assumes p: "party_ok P sec sk sent F (e + 1) e st" and m: "(e + 1, j) \<in> F" and "dh_agree P"
    and fresh: "dkey P sec (e + 2) \<notin> dkey P sec ` {..e + 1}" and zero: "sent (e + 2) = 0" "sent (e + 3) = 0"
    and cap: "(sent (e - 1) - unat (rs_nr st)) + length (rs_skipped st) \<le> MAX_SKIP"
  shows "\<exists>st'. dh_phase P (sec (e + 2)) st (rm_header (fmsg P sec sk sent ad pt (e + 1, j))) = (Inr (), st')
     \<and> party_ok P sec sk sent F (e + 2) (e + 2) st' \<and> rs_nr st' = 0 \<and> rs_dhr st' \<noteq> rs_dhr st
     \<and> length (rs_skipped st') = length (rs_skipped st) + (sent (e - 1) - unat (rs_nr st))"
proof -
  note inv = p [unfolded party_ok_def party_defs]
  let ?nr = "unat (rs_nr st)"
  let ?S = "map (sk_entry P (dkey P sec (e - 1)) (snd (root P sec sk (e - 1)))) [?nr..<sent (e - 1)]"
  obtain ck nr where sm: "skip_message_keys P st (of_nat (sent (e - 1))) =
     (Inr (), st\<lparr> rs_ckr := ck, rs_nr := nr, rs_skipped := rs_skipped st @ ?S \<rparr>)"
    using party_skip_old [OF p cap] by blast
  let ?st1 = "st\<lparr> rs_ckr := ck, rs_nr := nr, rs_skipped := rs_skipped st @ ?S \<rparr>"
  define st' where "st' = dh_ratchet_step P (sec (e + 2)) ?st1 (dkey P sec (e + 1))"
  have inj: "inj_on (dkey P sec) {..e + 1}" using inv by blast
  have new: "rs_dhr st \<noteq> Some (dkey P sec (e + 1))"
  proof
    assume "rs_dhr st = Some (dkey P sec (e + 1))"
    then have "dkey P sec (e - 1) = dkey P sec (e + 1)" using inv by (simp split: if_splits)
    then have "e - 1 = e + 1" by (rule inj_onD [OF inj]) simp_all
    then show False by simp
  qed
  have dh: "dh_phase P (sec (e + 2)) st (rm_header (fmsg P sec sk sent ad pt (e + 1, j))) = (Inr (), st')"
    using sm new by (simp add: dh_phase_def st'_def)
  have step: "st' = ?st1\<lparr> rs_pn := rs_ns st, rs_ns := 0, rs_nr := 0,
     rs_dhr := Some (dkey P sec (e + 1)), rs_ckr := Some (snd (root P sec sk (e + 1))),
     rs_dhs_secret := sec (e + 2), rs_dhs_public := dkey P sec (e + 2),
     rs_rk := fst (root P sec sk (e + 2)), rs_cks := Some (snd (root P sec sk (e + 2))) \<rparr>"
    unfolding st'_def using dh_ratchet_root [OF \<open>dh_agree P\<close>, of ?st1 sec sk e] inv by simp
  have own: "own_inv P sec sk sent (e + 2) st'"
    using inv zero(1) by (simp add: own_inv_def step)
  let ?T = "(\<lambda>i. (e - 1, i)) ` {?nr..<sent (e - 1)}"
  have T: "?T \<subseteq> F" "\<forall>kj \<in> ?T. \<not> behind e ?nr kj"
    using inv by (cases e; auto simp: ahead_def behind_def)+
  have "{kj \<in> F. behind (e + 2) 0 kj} = {kj \<in> F. behind e ?nr kj} \<union> ?T"
  proof (intro set_eqI iffI)
    fix kj assume a: "kj \<in> {kj \<in> F. behind (e + 2) 0 kj}"
    then have "snd kj < sent (fst kj)" "fst kj < e" using inv by (auto simp: behind_def less_Suc_eq)
    moreover from this have "fst kj + 1 < e \<or> fst kj = e - 1" by linarith
    ultimately show "kj \<in> {kj \<in> F. behind e ?nr kj} \<union> ?T"
      using a by (cases kj) (auto simp: behind_def image_iff)
  qed (use T in \<open>auto simp: behind_def\<close>)
  then have "set (rs_skipped st') = ent P sec sk ` {kj \<in> F. behind (e + 2) (unat (rs_nr st')) kj}"
    using inv by (simp add: step image_Un image_image)
  moreover have "sk_key s \<noteq> (dkey P sec (e - 1), of_nat i)"
    if that': "s \<in> set (rs_skipped st)" "?nr \<le> i" "i < sent (e - 1)" for s i
  proof -
    have "(e - 1, i) \<in> ?T" using that' by simp
    with T have "(e - 1, i) \<in> F" "\<not> behind e ?nr (e - 1, i)" by blast+
    then show ?thesis by (rule party_fresh_key [OF p _ _ that'(1)])
  qed
  then have "distinct (map sk_key (rs_skipped st'))"
    using distinct_append_entries [of "rs_skipped st" "sent (e - 1)" ?nr] inv
    by (simp add: step less_imp_le)
  moreover have "{kj. ahead sent (e + 2) (unat (rs_nr st')) kj} \<subseteq> F"
    using inv zero by (auto simp: ahead_def step numeral_3_eq_3)
  ultimately have "cache_inv P sec sk sent F (e + 2) st'"
    using inv by (auto simp: cache_inv_def)
  moreover have "inj_on (dkey P sec) {..e + 2}"
    using inj fresh by (simp add: atMost_Suc inj_on_insert)
  ultimately have "party_ok P sec sk sent F (e + 2) (e + 2) st'"
    using inv own by (auto simp: party_ok_def)
  moreover have "length (rs_skipped st') = length (rs_skipped st) + (sent (e - 1) - ?nr)"
    by (simp add: step)
  ultimately show ?thesis using dh new by (intro exI [of _ st']) (simp add: step)
qed


text \<open>Outcomes of a phase: the plaintext, or the cap with more than \<open>MAX_SKIP + 1\<close> undelivered.\<close>
definition outcome :: "prims \<Rightarrow> (nat \<Rightarrow> bytes) \<Rightarrow> bytes \<Rightarrow> (nat \<Rightarrow> nat) \<Rightarrow> (nat \<times> nat) set \<Rightarrow> nat \<times> nat \<Rightarrow>
    bytes \<Rightarrow> nat \<Rightarrow> nat \<Rightarrow> (ratchet_error + bytes) \<times> ratchet_state \<Rightarrow> bool" where
  "outcome P sec sk sent F kj pt M e rs \<longleftrightarrow>
     (fst rs = Inr pt \<and> party_ok P sec sk sent (F - {kj}) M e (snd rs))
   \<or> (fst rs = Inl TooManySkipped \<and> MAX_SKIP + 1 < card F \<and> party_ok P sec sk sent F M e (snd rs))"

lemma party_chain:
  assumes p: "party_ok P sec sk sent F M e st" and m: "(k, j) \<in> F" "k + 1 = e" "unat (rs_nr st) \<le> j"
    and "finite F"
  shows "outcome P sec sk sent F (k, j) pt M e (chain_phase P st (fmsg P sec sk sent ad pt (k, j)) ad)
     \<and> rs_dhr (snd (chain_phase P st (fmsg P sec sk sent ad pt (k, j)) ad)) = rs_dhr st"
proof (cases "(j - unat (rs_nr st)) + length (rs_skipped st) \<le> MAX_SKIP")
  case True
  then show ?thesis using party_current [OF p m True, of ad pt] by (auto simp: outcome_def)
next
  case False
  let ?G = "(\<lambda>i. (k, i)) ` {unat (rs_nr st)..<Suc j}"
  have "?G \<subseteq> F" "\<forall>kj \<in> ?G. \<not> behind e (unat (rs_nr st)) kj"
    using p m party_flight(1) [OF p m(1)]
    by (auto simp: party_ok_def cache_inv_def ahead_def behind_def)
  then have "card ?G + length (rs_skipped st) \<le> card F" by (rule party_count [OF p \<open>finite F\<close>])
  then have "MAX_SKIP + 1 < card F" using False m(3) unfolding chain_segment by simp
  moreover obtain ck where "rs_ckr st = Some ck"
    using p m(2) party_flight(6) [OF p m(1)] by (auto simp: party_ok_def own_inv_def)
  then have "chain_phase P st (fmsg P sec sk sent ad pt (k, j)) ad = (Inl TooManySkipped, st)"
    using chain_phase_too_many [of st ck j] False party_flight(5) [OF p m(1)] by simp
  ultimately show ?thesis using p by (simp add: outcome_def)
qed

lemma party_dh_too_many:
  assumes p: "party_ok P sec sk sent F M e st" and m: "(e + 1, j) \<in> F" and "finite F"
    and new: "rs_dhr st \<noteq> Some (dkey P sec (e + 1))"
    and cap: "\<not> (sent (e - 1) - unat (rs_nr st)) + length (rs_skipped st) \<le> MAX_SKIP"
  shows "dh_phase P fresh st (rm_header (fmsg P sec sk sent ad pt (e + 1, j))) = (Inl TooManySkipped, st)
     \<and> MAX_SKIP + 1 < card F"
proof -
  let ?nr = "unat (rs_nr st)"
  let ?T = "(\<lambda>i. (e - 1, i)) ` {?nr..<sent (e - 1)}"
  note inv = p [unfolded party_ok_def party_defs]
  have T: "insert (e + 1, j) ?T \<subseteq> F" "\<forall>kj \<in> insert (e + 1, j) ?T. \<not> behind e ?nr kj"
    using inv m by (cases e; auto simp: ahead_def behind_def)+
  have "card (insert (e + 1, j) ?T) = Suc (sent (e - 1) - ?nr)"
    by (subst card_insert_disjoint) (auto simp: chain_segment)
  then have card: "MAX_SKIP + 1 < card F" using party_count [OF p \<open>finite F\<close> T] cap by simp
  have e2: "\<not> e < 2"
  proof
    assume "e < 2"
    then have "e - 1 = 0" by simp
    then have "set (rs_skipped st) = {}" "sent (e - 1) = 0"
      using inv by (auto simp: behind_def)
    then show False using cap by simp
  qed
  then obtain ck where "rs_ckr st = Some ck" using inv by auto
  then have "skip_message_keys P st (of_nat (sent (e - 1))) = (Inl TooManySkipped, st)"
    using cap inv by (simp add: skip_message_keys_def)
  then show ?thesis using new card by (simp add: dh_phase_def)
qed


lemma outcome_mono:
  "outcome P sec sk sent F kj pt M e rs \<Longrightarrow> fst rs = Inr pt \<or> fst rs = Inl TooManySkipped \<and> MAX_SKIP + 1 < card F"
  by (auto simp: outcome_def)

lemma party_new_dhr:
  assumes p: "party_ok P sec sk sent F M e st" and "e + 1 \<le> M"
  shows "rs_dhr st \<noteq> Some (dkey P sec (e + 1))"
proof
  assume "rs_dhr st = Some (dkey P sec (e + 1))"
  then have "dkey P sec (e - 1) = dkey P sec (e + 1)"
    using p by (simp add: party_ok_def own_inv_def split: if_splits)
  moreover have "inj_on (dkey P sec) {..M}" using p by (simp add: party_ok_def)
  ultimately have "e - 1 = e + 1" using \<open>e + 1 \<le> M\<close> by (auto dest: inj_onD)
  then show False by simp
qed

text \<open>Delivering any undelivered message.\<close>
lemma party_deliver:
  fixes ad pt
  assumes p: "party_ok P sec sk sent F M e st" and m: "(k, j) \<in> F" and "finite F" "dh_agree P"
    and fresh: "dkey P sec (e + 2) \<notin> dkey P sec ` {..e + 1}"
    and top: "k = e + 1 \<Longrightarrow> M = e + 1 \<and> sent (e + 2) = 0 \<and> sent (e + 3) = 0"
  defines "rs \<equiv> ratchet_decrypt P (sec (e + 2)) st (fmsg P sec sk sent ad pt (k, j)) ad"
  defines "e' \<equiv> if rs_dhr (snd rs) = rs_dhr st then e else e + 2"
  shows "outcome P sec sk sent F (k, j) pt (max M e') e' rs \<and> (e' \<noteq> e \<longrightarrow> k = e + 1)"
proof -
  have eM: "e \<le> M" using p by (simp add: party_ok_def)
  let ?m = "fmsg P sec sk sent ad pt (k, j)" and ?nr = "unat (rs_nr st)"
  consider (behind) "behind e ?nr (k, j)" | (current) "k + 1 = e" "?nr \<le> j" | (new) "k = e + 1"
  proof -
    have "k \<noteq> e" "k \<le> e + 1" using party_flight [OF p m] by auto
    then have "k + 1 < e \<or> k + 1 = e \<or> k = e + 1" by linarith
    then show thesis using that by (cases "?nr \<le> j") (auto simp: behind_def)
  qed
  then show ?thesis
  proof cases
    case behind
    from party_behind [OF p m behind, of "sec (e + 2)" ad pt] show ?thesis
      using eM by (auto simp: outcome_def rs_def e'_def max_absorb1)
  next
    case current
    then have nb: "\<not> behind e ?nr (k, j)" by (auto simp: behind_def)
    have "rs_dhr st = Some (hdr_dh (rm_header ?m))"
      using p current by (auto simp: party_ok_def own_inv_def)
    then have "dh_phase P (sec (e + 2)) st (rm_header ?m) = (Inr (), st)" by (simp add: dh_phase_def)
    then have "rs = chain_phase P st ?m ad"
      using party_miss [OF p m nb, of ad pt] by (simp add: rs_def ratchet_decrypt_def)
    then show ?thesis
      using party_chain [OF p m current(1,2) \<open>finite F\<close>, of pt ad] eM by (simp add: e'_def max_absorb1)
  next
    case new
    then have nb: "\<not> behind e ?nr (k, j)" by (auto simp: behind_def)
    note top = top [OF new] and miss = party_miss [OF p m nb, of ad pt]
    have p': "party_ok P sec sk sent F (e + 1) e st" and m': "(e + 1, j) \<in> F" using p top m new by auto
    have nd: "rs_dhr st \<noteq> Some (dkey P sec (e + 1))" using party_new_dhr [OF p'] by simp
    show ?thesis
    proof (cases "(sent (e - 1) - ?nr) + length (rs_skipped st) \<le> MAX_SKIP")
      case True
      obtain st' where d: "dh_phase P (sec (e + 2)) st (rm_header ?m) = (Inr (), st')"
        "party_ok P sec sk sent F (e + 2) (e + 2) st'" "rs_nr st' = 0" "rs_dhr st' \<noteq> rs_dhr st"
        using party_dh [OF p' m' \<open>dh_agree P\<close> fresh _ _ True, of ad pt] top new by auto
      have "rs = chain_phase P st' ?m ad"
        using miss d(1) by (simp add: rs_def ratchet_decrypt_def)
      moreover note party_chain [OF d(2) m, of pt ad] d(3) new \<open>finite F\<close>
      ultimately show ?thesis using d(4) top by (simp add: e'_def max_def)
    next
      case False
      from party_dh_too_many [OF p' m' \<open>finite F\<close> nd False, of "sec (e + 2)" ad pt]
      have "rs = (Inl TooManySkipped, st)" "MAX_SKIP + 1 < card F"
        using miss new by (simp_all add: rs_def ratchet_decrypt_def)
      then show ?thesis using p top by (simp add: e'_def outcome_def max_def)
    qed
  qed
qed


section \<open>The whole network\<close>

definition net_top :: "net \<Rightarrow> nat" where
  "net_top n = max (nt_epoch n True) (nt_epoch n False)"

lemma net_party_ok:
  assumes inv: "net_inv P sec sk ad sent n" and "aead_correct P"
  shows "party_ok P sec sk sent (fly_to n q) (net_top n) (nt_epoch n q) (nt_party n q)"
proof -
  have "k \<le> net_top n" if "(k, j) \<in> fly_to n q" for k j
  proof -
    have "cache_inv P sec sk sent (fly_to n q) (nt_epoch n q) (nt_party n q)"
      using inv unfolding net_inv_def by blast
    then have "j < sent k" using that unfolding cache_inv_def by blast
    moreover have "nt_epoch n (odd k) < k \<longrightarrow> sent k = 0" using inv unfolding net_inv_def by blast
    ultimately have "k \<le> nt_epoch n (odd k)" by (auto simp: not_less [symmetric])
    then show ?thesis by (cases "odd k") (auto simp: net_top_def)
  qed
  then show ?thesis using inv \<open>aead_correct P\<close>
    by (cases q) (auto simp: party_ok_def net_inv_def net_top_def)
qed

lemma fly_to_Cons:
  "fly_to (n\<lparr> nt_party := x, nt_fly := g # nt_fly n \<rparr>) q =
     (if to_party q g then insert (fl_epoch g, fl_idx g) (fly_to n q) else fly_to n q)"
  by (auto simp: fly_to_def)

lemma net_init_inv:
  assumes "dkey P sec 0 \<noteq> dkey P sec 1"
  shows "net_inv P sec sk ad (\<lambda>_. 0) (net_init P sec sk)"
proof -
  have "inj_on (dkey P sec) {..Suc 0}" using assms by (simp add: atMost_Suc inj_on_insert)
  moreover have "fly_to (net_init P sec sk) q = {}" for q by (simp add: fly_to_def net_init_def)
  ultimately show ?thesis
    by (auto simp: net_inv_def net_init_def own_inv_def cache_inv_def ahead_def new_initiator_def
        new_responder_def case_prod_unfold Let_def)
qed

lemma net_send_inv:
  assumes inv: "net_inv P sec sk ad sent n"
    and enc: "ratchet_encrypt P (nt_party n p) pt ad = (Inr m, st)"
    and lim: "unat (rs_ns (nt_party n p)) < 2 ^ 32 - 1"
  defines "e \<equiv> nt_epoch n p"
  shows "net_inv P sec sk ad (sent(e := Suc (sent e))) (n\<lparr> nt_party := (nt_party n)(p := st),
        nt_fly := \<lparr> fl_epoch = e, fl_idx = unat (rs_ns (nt_party n p)), fl_msg = m, fl_pt = pt \<rparr>
          # nt_fly n \<rparr>)" (is "net_inv _ _ _ _ ?sent ?n")
proof -
  note i = inv [unfolded net_inv_def]
  have own: "own_inv P sec sk sent e (nt_party n p)" "odd e = p" using i by (auto simp: e_def)
  have e0: "e \<noteq> 0"
  proof
    assume "e = 0"
    then have "rs_cks (nt_party n p) = None" using own(1) by (simp add: own_inv_def)
    then show False using enc by (simp add: ratchet_encrypt_def)
  qed
  have ns: "unat (rs_ns (nt_party n p)) = sent e" using own(1) i by (simp add: own_inv_def)
  let ?C = "snd (root P sec sk e)"
  have st: "st = (nt_party n p)\<lparr> rs_cks := Some (ck_at P ?C (Suc (sent e))), rs_ns := of_nat (sent e) + 1 \<rparr>"
    and m: "m = wire_msg P (dkey P sec e) (of_nat (sent (e - 2))) ?C ad (\<lambda>_. pt) (sent e)"
    using enc own(1) e0 by (auto simp: ratchet_encrypt_def own_inv_def wire_msg_def Let_def)
  have own': "own_inv P sec sk ?sent (nt_epoch n q) (nt_party ?n q)" for q
  proof (cases "q = p")
    case True
    then show ?thesis using own(1) e0 by (auto simp: st own_inv_def e_def add.commute)
  next
    case False
    then have "odd (nt_epoch n q) \<noteq> odd e" using i own(2) by blast
    then have "nt_epoch n q - 2 \<noteq> e" "nt_epoch n q \<noteq> e"
      using e0 by (cases "nt_epoch n q < 2"; auto)+
    moreover have "own_inv P sec sk sent (nt_epoch n q) (nt_party n q)" using i by blast
    ultimately show ?thesis using False by (auto simp: own_inv_def)
  qed
  have fly: "fly_to ?n q = (if q = p then fly_to n q else insert (e, sent e) (fly_to n q))" for q
    using own(2) ns by (cases p; cases q) (simp_all add: fly_to_Cons, simp_all add: to_party_def)
  have cache: "cache_inv P sec sk ?sent (fly_to ?n q) (nt_epoch n q) (nt_party ?n q)" for q
  proof (cases "q = p")
    case True
    have "cache_inv P sec sk sent (fly_to n p) e (nt_party n p)" using i by (simp add: e_def)
    moreover have "ahead ?sent e nr kj \<longleftrightarrow> ahead sent e nr kj" for nr kj by (auto simp: ahead_def)
    ultimately show ?thesis unfolding fly using True
      by (auto simp: cache_inv_def st e_def split: prod.splits)
  next
    case False
    let ?e = "nt_epoch n q" and ?nr = "unat (rs_nr (nt_party n q))"
    have c: "cache_inv P sec sk sent (fly_to n q) ?e (nt_party n q)"
      and o: "own_inv P sec sk sent ?e (nt_party n q)" "odd ?e = q" using i by auto
    have adj: "?e = e + 1 \<or> e = ?e + 1" using i False by (cases p; cases q; auto simp: e_def)
    have "?nr \<le> sent (?e - 1)" using o(1) unfolding own_inv_def by blast
    then have "?e = e + 1 \<Longrightarrow> ?nr \<le> sent e" by simp
    then have nb: "\<not> behind ?e ?nr (e, sent e)"
      using adj unfolding behind_def fst_conv snd_conv by linarith
    then have B: "{kj \<in> insert (e, sent e) (fly_to n q). behind ?e ?nr kj} = {kj \<in> fly_to n q. behind ?e ?nr kj}"
      by auto
    have "ahead ?sent ?e ?nr kj \<Longrightarrow> kj = (e, sent e) \<or> ahead sent ?e ?nr kj" for kj
      by (cases kj) (auto simp: ahead_def split: if_splits)
    then have A: "{kj. ahead ?sent ?e ?nr kj} \<subseteq> insert (e, sent e) (fly_to n q)"
      using c unfolding cache_inv_def by blast
    have par: "odd e \<noteq> odd ?e" using own(2) o(2) False by blast
    have le: "e \<le> ?e + 1" using adj by linarith
    have fl: "j < sent k \<and> k \<le> ?e + 1 \<and> odd k \<noteq> odd ?e" if "(k, j) \<in> fly_to n q" for k j
      using c that unfolding cache_inv_def by blast
    have "j < ?sent k \<and> k \<le> ?e + 1 \<and> odd k \<noteq> odd ?e"
      if "(k, j) \<in> insert (e, sent e) (fly_to n q)" for k j
    proof (cases "(k, j) = (e, sent e)")
      case True
      then show ?thesis using par le by simp
    next
      case False
      with that have "(k, j) \<in> fly_to n q" by blast
      from fl [OF this] show ?thesis by (cases "k = e") simp_all
    qed
    then have "\<forall>(k, j) \<in> insert (e, sent e) (fly_to n q). j < ?sent k \<and> k \<le> ?e + 1 \<and> odd k \<noteq> odd ?e"
      by blast
    then show ?thesis unfolding fly cache_inv_def using False c A B by (simp add: cache_inv_def)
  qed
  have old: "fl_idx f < sent (fl_epoch f) \<and> fl_epoch f \<le> nt_epoch n (odd (fl_epoch f)) \<and> fl_epoch f \<noteq> 0"
    if "f \<in> set (nt_fly n)" for f
  proof -
    have "(fl_epoch f, fl_idx f) \<in> fly_to n (\<not> odd (fl_epoch f))"
      using that by (auto simp: fly_to_def to_party_def)
    moreover have "cache_inv P sec sk sent (fly_to n q) (nt_epoch n q) (nt_party n q)" for q
      using i by blast
    ultimately have "fl_idx f < sent (fl_epoch f)" unfolding cache_inv_def by blast
    moreover have "nt_epoch n (odd k) < k \<Longrightarrow> sent k = 0" for k using i by blast
    moreover have "sent 0 = 0" using i by blast
    ultimately show ?thesis by (metis not_less not_less_zero)
  qed
  have "fl_epoch f - 2 \<noteq> e" if "f \<in> set (nt_fly n)" for f
  proof
    assume "fl_epoch f - 2 = e"
    then have "fl_epoch f = e + 2" using e0 by linarith
    then show False using old [OF that] own(2) by (auto simp: e_def)
  qed
  moreover have "(e, sent e) \<notin> (\<lambda>f. (fl_epoch f, fl_idx f)) ` set (nt_fly n)" using old by force
  moreover have "?sent k < 2 ^ 32" for k using i lim ns by auto
  ultimately show ?thesis
    unfolding net_inv_def using i own' cache e0 own(2) m ns
    by (auto simp: e_def)
qed


lemma net_recv_outcome:
  assumes inv: "net_inv P sec sk ad sent n" and "aead_correct P" "dh_agree P"
    and f: "f \<in> set (nt_fly n)" "to_party q f"
    and fresh: "dkey P sec (nt_epoch n q + 2) \<notin> dkey P sec ` {..nt_epoch n q + 1}"
  defines "rs \<equiv> net_recv P sec ad n q (fl_msg f)"
  defines "e' \<equiv> nt_epoch (net_update n q (snd rs)) q"
  shows "outcome P sec sk sent (fly_to n q) (fl_epoch f, fl_idx f) (fl_pt f)
      (max (net_top n) e') e' rs
    \<and> (e' = nt_epoch n q \<or> e' = nt_epoch n q + 2 \<and> nt_epoch n (\<not> q) = nt_epoch n q + 1)"
proof -
  let ?e = "nt_epoch n q" and ?k = "fl_epoch f"
  note i = inv [unfolded net_inv_def]
  have m: "(?k, fl_idx f) \<in> fly_to n q" using f by (auto simp: fly_to_def)
  note p = net_party_ok [OF inv \<open>aead_correct P\<close>, of q]
  have zero: "nt_epoch n (odd k) < k \<Longrightarrow> sent k = 0" for k using i by blast
  have par: "odd (nt_epoch n r) = r" for r using i by blast
  have peer: "nt_epoch n (\<not> q) = ?e + 1" if k: "?k = ?e + 1"
  proof -
    have "?k \<le> net_top n" by (rule party_flight(4) [OF p m])
    then show ?thesis using k i by (cases q) (auto simp: net_top_def)
  qed
  have top: "net_top n = ?e + 1 \<and> sent (?e + 2) = 0 \<and> sent (?e + 3) = 0" if k: "?k = ?e + 1"
  proof -
    note peer = peer [OF k]
    then have "net_top n = ?e + 1" by (cases q) (auto simp: net_top_def)
    moreover have "odd (?e + 2) = q" "odd (?e + 3) = (\<not> q)" using par [of q] by auto
    then have "sent (?e + 2) = 0" "sent (?e + 3) = 0" using zero [of "?e + 2"] zero [of "?e + 3"] peer by simp_all
    ultimately show ?thesis by simp
  qed
  have fin: "finite (fly_to n q)" by (simp add: fly_to_def)
  have "fl_msg f = fmsg P sec sk sent ad (fl_pt f) (?k, fl_idx f)" using i f by simp
  then have rs: "rs = ratchet_decrypt P (sec (?e + 2)) (nt_party n q)
      (fmsg P sec sk sent ad (fl_pt f) (?k, fl_idx f)) ad"
    by (simp add: rs_def net_recv_def)
  have e': "e' = (if rs_dhr (snd rs) = rs_dhr (nt_party n q) then ?e else ?e + 2)"
    by (simp add: e'_def net_update_def)
  show ?thesis
    using party_deliver [OF p m fin \<open>dh_agree P\<close> fresh top, of "fl_pt f" ad, folded rs, folded e'] e' peer by metis
qed

text \<open>Replacing one party's state and the flights to it.\<close>
lemma net_update_inv:
  assumes inv: "net_inv P sec sk ad sent n"
    and ok: "party_ok P sec sk sent F (max (net_top n) e') e' st"
    and e': "e' = nt_epoch n q \<or> e' = nt_epoch n q + 2 \<and> nt_epoch n (\<not> q) = nt_epoch n q + 1"
    and n': "nt_party n' = (nt_party n)(q := st)" "nt_epoch n' = (nt_epoch n)(q := e')"
    and sub: "set (nt_fly n') \<subseteq> set (nt_fly n)"
      "distinct (map (\<lambda>f. (fl_epoch f, fl_idx f)) (nt_fly n'))"
    and fly: "fly_to n' q = F" "fly_to n' (\<not> q) = fly_to n (\<not> q)"
  shows "net_inv P sec sk ad sent n'"
proof -
  note i = inv [unfolded net_inv_def]
  have par: "odd (nt_epoch n r) = r" for r using i by blast
  have adj: "nt_epoch n True = nt_epoch n False + 1 \<or> nt_epoch n False = nt_epoch n True + 1"
    using i by blast
  have zero: "nt_epoch n (odd k) < k \<longrightarrow> sent k = 0" for k using i by blast
  have old: "own_inv P sec sk sent (nt_epoch n r) (nt_party n r)"
    "cache_inv P sec sk sent (fly_to n r) (nt_epoch n r) (nt_party n r)" for r
    using i by blast+
  have "odd (nt_epoch n' r) = r \<and> own_inv P sec sk sent (nt_epoch n' r) (nt_party n' r)
      \<and> cache_inv P sec sk sent (fly_to n' r) (nt_epoch n' r) (nt_party n' r)" for r
  proof (cases "r = q")
    case True
    have "odd e' = q" using e' par [of q] by auto
    then show ?thesis using True ok n' fly by (simp add: party_ok_def)
  next
    case False
    then have r: "r = (\<not> q)" by auto
    have eqs: "nt_epoch n' (\<not> q) = nt_epoch n (\<not> q)" "nt_party n' (\<not> q) = nt_party n (\<not> q)"
      by (simp_all add: n')
    show ?thesis unfolding r eqs fly(2) using par [of "\<not> q"] old [of "\<not> q"] by blast
  qed
  moreover have "nt_epoch n' True = nt_epoch n' False + 1 \<or> nt_epoch n' False = nt_epoch n' True + 1"
    unfolding n'(2) using e' adj by (cases q) (simp_all, linarith+)
  moreover have "nt_epoch n' (odd k) < k \<longrightarrow> sent k = 0" for k
    unfolding n'(2) using e' zero [of k] by (cases "odd k = q") (simp_all, linarith+)
  moreover have "inj_on (dkey P sec) {..max (nt_epoch n' True) (nt_epoch n' False)}"
  proof (rule inj_on_subset)
    show "inj_on (dkey P sec) {..max (net_top n) e'}" using ok by (simp add: party_ok_def)
    show "{..max (nt_epoch n' True) (nt_epoch n' False)} \<subseteq> {..max (net_top n) e'}"
      unfolding n' net_top_def by (cases q) auto
  qed
  moreover have "fl_msg f = wire_msg P (dkey P sec (fl_epoch f)) (of_nat (sent (fl_epoch f - 2)))
      (snd (root P sec sk (fl_epoch f))) ad (\<lambda>_. fl_pt f) (fl_idx f)" if "f \<in> set (nt_fly n')" for f
    using i sub(1) that by blast
  moreover have "sent 0 = 0" "\<forall>k. sent k < 2 ^ 32" using i by blast+
  ultimately show ?thesis using sub(2) unfolding net_inv_def by blast
qed


lemma net_reachable_inv:
  assumes "net_reachable P sec sk ad n" "aead_correct P" "dh_agree P" "dkey P sec 0 \<noteq> dkey P sec 1"
  shows "\<exists>sent. net_inv P sec sk ad sent n"
  using assms(1)
proof induction
  case init
  show ?case using net_init_inv [OF assms(4)] by blast
next
  case (step n n')
  obtain sent where inv: "net_inv P sec sk ad sent n" using step.IH by blast
  note dist = inv [unfolded net_inv_def]
  from step.hyps(2) show ?case
  proof cases
    case (send p pt m st)
    then show ?thesis using net_send_inv [OF inv send(2,3)] by blast
  next
    case (deliver_ok us f vs q pt st)
    let ?i = "(fl_epoch f, fl_idx f)"
    have d: "distinct (map (\<lambda>f. (fl_epoch f, fl_idx f)) (us @ f # vs))"
      using dist deliver_ok(2) by simp
    have "\<forall>g \<in> set (us @ vs). (fl_epoch g, fl_idx g) \<noteq> ?i" by (rule ballI, rule distinct_map_others [OF d])
    moreover have "{g \<in> set (nt_fly n). to_party q g} = insert f {g \<in> set (us @ vs). to_party q g}"
      using deliver_ok(2,3) by auto
    ultimately have fq: "fly_to n' q = fly_to n q - {?i}"
      using deliver_ok(1) by (auto simp: fly_to_def simp del: set_append)
    have fo: "fly_to n' (\<not> q) = fly_to n (\<not> q)"
      using deliver_ok(1-3) by (auto simp: fly_to_def to_party_def)
    have f: "f \<in> set (nt_fly n)" using deliver_ok by simp
    have rs: "snd (net_recv P sec ad n q (fl_msg f)) = st" "fst (net_recv P sec ad n q (fl_msg f)) = Inr pt"
      using deliver_ok(5) by simp_all
    note out = net_recv_outcome [OF inv assms(2,3) f deliver_ok(3,4)]
    have "net_inv P sec sk ad sent n'"
      by (rule net_update_inv [OF inv, of "fly_to n q - {?i}" "nt_epoch (net_update n q st) q" st q])
        (use out rs fq fo d deliver_ok(1,2) in \<open>auto simp: outcome_def net_update_def\<close>)
    then show ?thesis by blast
  next
    case (deliver_err f q e st)
    have rs: "snd (net_recv P sec ad n q (fl_msg f)) = st" "fst (net_recv P sec ad n q (fl_msg f)) = Inl e"
      using deliver_err(5) by simp_all
    note out = net_recv_outcome [OF inv assms(2,3) deliver_err(2,3,4)]
    have "fly_to n' r = fly_to n r" for r using deliver_err(1) by (simp add: fly_to_def net_update_def)
    then have "net_inv P sec sk ad sent n'"
      by (intro net_update_inv [OF inv, of "fly_to n q" "nt_epoch (net_update n q st) q" st q])
        (use out rs dist deliver_err(1) in \<open>auto simp: outcome_def net_update_def\<close>)
    then show ?thesis by blast
  qed
qed


section \<open>Properties\<close>

text \<open>C5: In every reachable state of the two-party network, every undelivered message decrypts to
  exactly the plaintext its sender encrypted, in whatever order the messages arrive; the only
  other outcome is \<open>TooManySkipped\<close>, and only while more than \<open>MAX_SKIP + 1\<close> messages to that
  party are undelivered.\<close>
theorem async_delivery:
  assumes "aead_correct P" "dh_agree P" "x25519_pub P (sec 0) \<noteq> x25519_pub P (sec 1)"
    and "net_reachable P sec sk ad n" and "f \<in> set (nt_fly n)" "to_party q f"
    and "x25519_pub P (sec (nt_epoch n q + 2)) \<notin> (\<lambda>k. x25519_pub P (sec k)) ` {..nt_epoch n q + 1}"
  shows "fst (net_recv P sec ad n q (fl_msg f)) = Inr (fl_pt f)
       \<or> fst (net_recv P sec ad n q (fl_msg f)) = Inl TooManySkipped
         \<and> MAX_SKIP + 1 < length (filter (to_party q) (nt_fly n))"
proof -
  obtain sent where "net_inv P sec sk ad sent n" using net_reachable_inv assms by blast
  note outcome_mono [OF conjunct1 [OF net_recv_outcome [OF this assms(1,2,5,6,7)]]]
  moreover have "card (fly_to n q) \<le> length (filter (to_party q) (nt_fly n))"
    unfolding fly_to_def set_filter [symmetric] by (rule le_trans [OF card_image_le card_length]) simp
  ultimately show ?thesis by (meson less_le_trans)
qed

lemma reach_step:
  "net_reachable P sec sk ad n \<Longrightarrow> net_step P sec ad n n' \<Longrightarrow> net_reachable P sec sk ad n'"
  by (rule net_reachable.step)

theorem async_delivery_witness:
  "\<exists>n f. net_reachable toy_prims (\<lambda>k. replicate k 0) [7] [9] n \<and> nt_fly n = [f]
     \<and> fst (net_recv toy_prims (\<lambda>k. replicate k 0) [9] n False (fl_msg f)) = Inr [1, 2, 3]"
proof -
  let ?sec = "\<lambda>k. replicate k 0 :: bytes"
  let ?n = "net_init toy_prims ?sec [7]"
  obtain m st where enc: "ratchet_encrypt toy_prims (nt_party ?n True) [1, 2, 3] [9] = (Inr m, st)"
    by (auto simp: ratchet_encrypt_def net_init_def new_initiator_def case_prod_unfold Let_def)
  have ns: "rs_ns (nt_party ?n True) = 0"
    by (simp add: net_init_def new_initiator_def case_prod_unfold Let_def)
  let ?f = "\<lparr> fl_epoch = nt_epoch ?n True, fl_idx = unat (rs_ns (nt_party ?n True)), fl_msg = m, fl_pt = [1, 2, 3] \<rparr>"
  let ?n' = "?n\<lparr> nt_party := (nt_party ?n)(True := st), nt_fly := ?f # nt_fly ?n \<rparr>"
  obtain n' f where nf: "n' = ?n'" "f = ?f" by blast
  have "net_step toy_prims ?sec [9] ?n n'" unfolding nf by (rule net_step.send [OF enc]) (simp add: ns)
  then have r: "net_reachable toy_prims ?sec [7] [9] n'" by (rule reach_step [OF net_reachable.init])
  have pub: "x25519_pub toy_prims = (\<lambda>s. s)" by (simp add: toy_prims_def)
  have f: "f \<in> set (nt_fly n')" "to_party False f" "nt_fly n' = [f]" "fl_pt f = [1, 2, 3]"
    by (simp_all add: nf to_party_def net_init_def)
  have "fst (net_recv toy_prims ?sec [9] n' False (fl_msg f)) = Inr (fl_pt f)
      \<or> fst (net_recv toy_prims ?sec [9] n' False (fl_msg f)) = Inl TooManySkipped
         \<and> MAX_SKIP + 1 < length (filter (to_party False) (nt_fly n'))"
    by (rule async_delivery [OF _ _ _ r f(1,2)]) (auto simp: pub dest: arg_cong [of _ _ length])
  then have "fst (net_recv toy_prims ?sec [9] n' False (fl_msg f)) = Inr [1, 2, 3]"
    using f(2-4) by (simp add: MAX_SKIP_def)
  then show ?thesis using r f(3) by blast
qed

text \<open>Session identifiers are fixed at construction.\<close>
lemma session_id_encrypt:
  "rs_session_id (snd (ratchet_encrypt P st pt ad)) = rs_session_id st"
  by (auto simp: ratchet_encrypt_def case_prod_unfold Let_def split: option.splits)

lemma session_id_skip:
  "rs_session_id (snd (skip_message_keys P st until)) = rs_session_id st"
  by (auto simp: skip_message_keys_def case_prod_unfold Let_def split: option.splits)

lemma session_id_decrypt:
  "rs_session_id (snd (ratchet_decrypt P fresh st m ad)) = rs_session_id st"
proof -
  have "rs_session_id (snd (dh_phase P fresh st h)) = rs_session_id st" for st h
    using session_id_skip [of P st "hdr_pn h"]
    by (auto simp: dh_phase_def dh_ratchet_step_def case_prod_unfold Let_def split: prod.splits sum.splits)
  moreover have "rs_session_id (snd (chain_phase P st m ad)) = rs_session_id st" for st
    using session_id_skip [of P st "hdr_n (rm_header m)"]
    by (auto simp: chain_phase_def case_prod_unfold Let_def split: prod.splits sum.splits option.splits)
  moreover have "rs_session_id (snd (try_skipped P st m ad)) = rs_session_id st" for st
    by (auto simp: try_skipped_def split: option.splits)
  ultimately show ?thesis
    by (auto simp: ratchet_decrypt_def split: prod.splits sum.splits option.splits) (metis snd_conv)+
qed

text \<open>C32: Both ends of a session hold the same session identifier, the one derived from the X3DH
  secret, in every reachable state; it never changes.\<close>
theorem session_id_shared:
  assumes "net_reachable P sec sk ad n"
  shows "rs_session_id (nt_party n q) = derive_session_id P sk"
  using assms
proof (induction arbitrary: q)
  case init
  then show ?case by (simp add: net_init_def new_initiator_def new_responder_def case_prod_unfold Let_def)
next
  case (step n n')
  from step.hyps(2) show ?case
  proof cases
    case (send p pt m st)
    then show ?thesis using step.IH session_id_encrypt [of P "nt_party n p" pt ad] by auto
  next
    case (deliver_ok us f vs p pt st)
    then show ?thesis using step.IH session_id_decrypt [of P "sec (nt_epoch n p + 2)" "nt_party n p" "fl_msg f" ad]
      by (auto simp: net_recv_def net_update_def)
  next
    case (deliver_err f p e st)
    then show ?thesis using step.IH session_id_decrypt [of P "sec (nt_epoch n p + 2)" "nt_party n p" "fl_msg f" ad]
      by (auto simp: net_recv_def net_update_def)
  qed
qed

theorem session_id_shared_witness:
  "rs_session_id (nt_party (net_init toy_prims (\<lambda>k. replicate k 0) [7]) True)
     = derive_session_id toy_prims [7]"
  by (rule session_id_shared [OF net_reachable.init])

end
