(* ===== verification/Codec.thy ===== *)
theory Codec
  imports Prelude
begin

text \<open>
  The length-prefix convention of the signed byte layouts: \<open>u32\<close> big-endian length, then the
  bytes.  The program has two copies of the writer (\<open>push_bytes\<close> in protocol/message.rs,
  \<open>push_lp\<close> in protocol/group.rs) and one reader (\<open>pop_bytes\<close>).  The locale states the
  writer's contract; its lemmas say that a sequence of length-prefixed fields parses in one way.
\<close>

locale lp_codec =
  fixes push :: "bytes \<Rightarrow> bytes \<Rightarrow> bytes"
  assumes push: "push out b = out @ be32 (len32 b) @ b"
begin

lemma push_append: "push out b = out @ push [] b"
  by (simp add: push)

lemma lp_prefix_free:
  assumes "length a < 2 ^ 32" "length b < 2 ^ 32"
  shows "push [] a @ x = push [] b @ y \<longleftrightarrow> a = b \<and> x = y"
proof
  assume eq: "push [] a @ x = push [] b @ y"
  then have "be32 (len32 a) = be32 (len32 b)" and rest: "a @ x = b @ y"
    by (simp_all add: push append_eq_same_length)
  then have "length a = length b" using len32_inject [OF assms] by simp
  then show "a = b \<and> x = y" using rest by simp
qed simp

lemma lp_inject:
  "length a < 2 ^ 32 \<Longrightarrow> length b < 2 ^ 32 \<Longrightarrow> push [] a = push [] b \<longleftrightarrow> a = b"
  using lp_prefix_free [of a b "[]" "[]"] by simp

lemma lp_fold: "foldl push out xs = out @ concat (map (push []) xs)"
proof (induction xs arbitrary: out)
  case (Cons x xs)
  then show ?case using push_append [of out x] by simp
qed simp

lemma lp_list_prefix_free:
  assumes "length xs = length ys" "\<forall>x \<in> set xs. length x < 2 ^ 32" "\<forall>y \<in> set ys. length y < 2 ^ 32"
  shows "concat (map (push []) xs) @ u = concat (map (push []) ys) @ v \<longleftrightarrow> xs = ys \<and> u = v"
  using assms
proof (induction xs ys rule: list_induct2)
  case (Cons x xs y ys)
  then show ?case using lp_prefix_free [of x y] by auto
qed simp

end

text \<open>\<open>pop_bytes\<close>: the payload and the rest of the input; \<open>None\<close> when the prefix or the payload is
  cut short (the program returns a message text).\<close>
definition pop_bytes :: "bytes \<Rightarrow> (bytes \<times> bytes) option" where
  "pop_bytes cur =
     (if length cur < 4 then None
      else let n = unat (of_be (take 4 cur) :: u32); rest = drop 4 cur in
           if length rest < n then None else Some (take n rest, drop n rest))"

definition push_bytes :: "bytes \<Rightarrow> bytes \<Rightarrow> bytes" where
  "push_bytes out b = (out @ be32 (len32 b)) @ b"

interpretation pb: lp_codec push_bytes
  by unfold_locales (simp add: push_bytes_def)

lemma pop_push [simp]:
  "length b < 2 ^ 32 \<Longrightarrow> pop_bytes (push_bytes [] b @ rest) = Some (b, rest)"
  by (simp add: pop_bytes_def push_bytes_def)

lemma pop_bytes_shorter: "pop_bytes cur = Some (b, rest) \<Longrightarrow> length rest < length cur"
  by (auto simp: pop_bytes_def Let_def split: if_splits)

text \<open>Reading back is exact: what \<open>pop_bytes\<close> accepts is the encoding of what it returns.\<close>
lemma pop_bytes_exact:
  assumes "pop_bytes cur = Some (b, rest)"
  shows "cur = push_bytes [] b @ rest \<and> length b < 2 ^ 32"
proof -
  let ?n = "of_be (take 4 cur) :: u32"
  have len: "4 \<le> length cur" "b = take (unat ?n) (drop 4 cur)" "rest = drop (unat ?n) (drop 4 cur)"
    "unat ?n \<le> length (drop 4 cur)"
    using assms by (auto simp: pop_bytes_def Let_def split: if_splits)
  then have b: "length b = unat ?n" by simp
  then have "len32 b = ?n" by (simp add: len32_def)
  moreover have "be32 ?n = take 4 cur"
    using be_bytes_of_be [of "take 4 cur", where ?'a = 32] len(1) by (simp add: min_absorb2)
  moreover have "cur = take 4 cur @ b @ rest" unfolding len(2,3) append_take_drop_id ..
  ultimately show ?thesis using b unat_bound [of ?n] by (simp add: push_bytes_def)
qed

end
