(* ===== verification/Megolm.thy ===== *)
theory Megolm
  imports Ratchet
begin

text \<open>
  \<open>src/src/crypto/megolm.rs\<close>: the sender chain a group member owns and the receiver chain the
  other members keep of it.  \<open>SenderChain\<close>, \<open>ReceiverChain\<close>, the bundle and the wire message are
  records with the source's fields.  The OS randomness of \<open>SenderChain::new\<close> is two arguments.
\<close>

definition GROUP_MSG_DOMAIN_SEPARATOR :: bytes where
  "GROUP_MSG_DOMAIN_SEPARATOR = ascii ''ME55-group-msg-v1''"

definition MEGOLM_MAX_SKIP :: nat where "MEGOLM_MAX_SKIP = 1000"

datatype megolm_error =
    MegolmBadAead | MegolmBadSignature | MegolmTooManySkipped | MessageKeyMissing u32 | BadVerifyingKey

record sender_key_bundle =
  sb_chain_key :: bytes
  sb_index :: u32
  sb_verify_pub :: bytes

record encrypted_group_message =
  eg_index :: u32
  eg_ciphertext :: bytes
  eg_signature :: bytes

record sender_chain =
  sc_chain_key :: bytes
  sc_index :: u32
  sc_sign_priv :: bytes

record megolm_skipped =
  ms_index :: u32
  ms_key :: bytes

record receiver_chain =
  rc_chain_key :: bytes
  rc_next_index :: u32
  rc_verify_pub :: bytes
  rc_skipped :: "megolm_skipped list"

text \<open>\<open>(next_chain_key, message_key)\<close>.\<close>
definition advance_chain :: "prims \<Rightarrow> bytes \<Rightarrow> bytes \<times> bytes" where
  "advance_chain P ck = (hmac_sha256 P ck [0x02], hmac_sha256 P ck [0x01])"

definition build_aead_aad :: "u32 \<Rightarrow> bytes \<Rightarrow> bytes" where
  "build_aead_aad index ad = be32 index @ be32 (len32 ad) @ ad"

definition canonical_sign_bytes :: "u32 \<Rightarrow> bytes \<Rightarrow> bytes \<Rightarrow> bytes" where
  "canonical_sign_bytes index ad ct =
     GROUP_MSG_DOMAIN_SEPARATOR @ be32 index @ be32 (len32 ad) @ ad @ be32 (len32 ct) @ ct"

definition sender_chain_new :: "bytes \<Rightarrow> bytes \<Rightarrow> sender_chain" where
  "sender_chain_new rnd_key rnd_sign =
     \<lparr> sc_chain_key = rnd_key, sc_index = 0, sc_sign_priv = rnd_sign \<rparr>"

definition current_bundle :: "prims \<Rightarrow> sender_chain \<Rightarrow> sender_key_bundle" where
  "current_bundle P s = \<lparr> sb_chain_key = sc_chain_key s, sb_index = sc_index s,
     sb_verify_pub = ed_pub P (sc_sign_priv s) \<rparr>"

definition megolm_encrypt ::
  "prims \<Rightarrow> sender_chain \<Rightarrow> bytes \<Rightarrow> bytes \<Rightarrow> encrypted_group_message \<times> sender_chain" where
  "megolm_encrypt P s plaintext ad =
     (let (next_ck, message_key) = advance_chain P (sc_chain_key s);
          index = sc_index s;
          ciphertext = aead_seal P message_key ZERO_NONCE (build_aead_aad index ad) plaintext
      in (\<lparr> eg_index = index, eg_ciphertext = ciphertext,
            eg_signature = ed_sign P (sc_sign_priv s) (canonical_sign_bytes index ad ciphertext) \<rparr>,
          s\<lparr> sc_chain_key := next_ck, sc_index := index + 1 \<rparr>))"

definition from_bundle :: "sender_key_bundle \<Rightarrow> receiver_chain" where
  "from_bundle b = \<lparr> rc_chain_key = sb_chain_key b, rc_next_index = sb_index b,
     rc_verify_pub = sb_verify_pub b, rc_skipped = [] \<rparr>"

definition megolm_open :: "prims \<Rightarrow> bytes \<Rightarrow> encrypted_group_message \<Rightarrow> bytes \<Rightarrow> megolm_error + bytes" where
  "megolm_open P mk m ad =
     (case aead_open P mk ZERO_NONCE (build_aead_aad (eg_index m) ad) (eg_ciphertext m) of
        Some pt \<Rightarrow> Inr pt | None \<Rightarrow> Inl MegolmBadAead)"

text \<open>Step 1 of \<open>decrypt\<close>: the Ed25519 check, in the order of the source's early returns.\<close>
definition megolm_verify :: "prims \<Rightarrow> receiver_chain \<Rightarrow> encrypted_group_message \<Rightarrow> bytes \<Rightarrow> megolm_error option" where
  "megolm_verify P c m ad =
     (if \<not> ed_key_ok P (rc_verify_pub c) then Some BadVerifyingKey
      else if length (eg_signature m) \<noteq> 64 then Some MegolmBadSignature
      else if ed_verify P (rc_verify_pub c) (canonical_sign_bytes (eg_index m) ad (eg_ciphertext m)) (eg_signature m)
      then None else Some MegolmBadSignature)"

text \<open>\<open>for _ in 0..n_to_skip\<close>.\<close>
primrec megolm_skip :: "prims \<Rightarrow> nat \<Rightarrow> receiver_chain \<Rightarrow> receiver_chain" where
  "megolm_skip P 0 c = c"
| "megolm_skip P (Suc n) c =
     (let (next_ck, mk) = advance_chain P (rc_chain_key c)
      in megolm_skip P n (c\<lparr> rc_skipped := rc_skipped c @ [\<lparr> ms_index = rc_next_index c, ms_key = mk \<rparr>],
           rc_chain_key := next_ck, rc_next_index := rc_next_index c + 1 \<rparr>))"

text \<open>\<open>while self.skipped.len() > MAX_SKIP { pop_front }\<close>.\<close>
definition megolm_evict :: "receiver_chain \<Rightarrow> receiver_chain" where
  "megolm_evict c = c\<lparr> rc_skipped := drop (length (rc_skipped c) - MEGOLM_MAX_SKIP) (rc_skipped c) \<rparr>"

definition megolm_decrypt ::
  "prims \<Rightarrow> receiver_chain \<Rightarrow> encrypted_group_message \<Rightarrow> bytes \<Rightarrow> (megolm_error + bytes) \<times> receiver_chain" where
  "megolm_decrypt P c m ad =
     (case megolm_verify P c m ad of
        Some e \<Rightarrow> (Inl e, c)
      | None \<Rightarrow>
          if eg_index m < rc_next_index c then
            (case take_first (\<lambda>sk. ms_index sk = eg_index m) (rc_skipped c) of
               None \<Rightarrow> (Inl (MessageKeyMissing (eg_index m)), c)
             | Some (sk, rest) \<Rightarrow> (megolm_open P (ms_key sk) m ad, c\<lparr> rc_skipped := rest \<rparr>))
          else
            (let n_to_skip = unat (eg_index m - rc_next_index c) in
             if n_to_skip + length (rc_skipped c) > MEGOLM_MAX_SKIP then (Inl MegolmTooManySkipped, c)
             else
               (let c1 = megolm_evict (megolm_skip P n_to_skip c);
                    (next_ck, mk) = advance_chain P (rc_chain_key c1)
                in (megolm_open P mk m ad,
                    c1\<lparr> rc_chain_key := next_ck, rc_next_index := rc_next_index c1 + 1 \<rparr>))))"

section \<open>The two chain modules agree\<close>

lemma advance_chain_kdf: "advance_chain P ck = kdf_ck P ck"
  by (simp add: advance_chain_def kdf_ck_def CK_CONST_CHAIN_def CK_CONST_MSG_def)

lemma advance_chain_at [simp]:
  "advance_chain P (ck_at P ck j) = (ck_at P ck (Suc j), mk_at P ck j)"
  by (simp add: advance_chain_kdf)

definition ms_entry :: "prims \<Rightarrow> bytes \<Rightarrow> nat \<Rightarrow> megolm_skipped" where
  "ms_entry P ck j = \<lparr> ms_index = of_nat j, ms_key = mk_at P ck j \<rparr>"

lemma ms_entry_simps [simp]: "ms_index (ms_entry P ck j) = of_nat j" "ms_key (ms_entry P ck j) = mk_at P ck j"
  by (simp_all add: ms_entry_def)

lemma megolm_skip_chain:
  "rc_chain_key c = ck_at P ck (unat (rc_next_index c)) \<Longrightarrow> unat (rc_next_index c) + k < 2 ^ 32 \<Longrightarrow>
     megolm_skip P k c = c\<lparr> rc_chain_key := ck_at P ck (unat (rc_next_index c) + k),
       rc_next_index := of_nat (unat (rc_next_index c) + k),
       rc_skipped := rc_skipped c @ map (ms_entry P ck) [unat (rc_next_index c)..<unat (rc_next_index c) + k] \<rparr>"
proof (induction k arbitrary: c)
  case (Suc k)
  let ?n = "unat (rc_next_index c)"
  let ?c = "c\<lparr> rc_skipped := rc_skipped c @ [\<lparr> ms_index = rc_next_index c, ms_key = mk_at P ck ?n \<rparr>],
      rc_chain_key := ck_at P ck (Suc ?n), rc_next_index := rc_next_index c + 1 \<rparr>"
  have n: "unat (rc_next_index c + 1) = Suc ?n" using Suc.prems by (intro unat_Suc_bound) simp
  have "[?n..<?n + Suc k] = ?n # [Suc ?n..<Suc ?n + k]" by (simp add: upt_conv_Cons)
  then show ?case using Suc.IH [of ?c] Suc.prems n by (simp add: ms_entry_def del: upt_Suc)
qed simp

section \<open>The receiver chain as a replay-safe chain receiver\<close>

definition group_wire :: "prims \<Rightarrow> bytes \<Rightarrow> bytes \<Rightarrow> bytes \<Rightarrow> (nat \<Rightarrow> bytes) \<Rightarrow> nat \<Rightarrow> encrypted_group_message" where
  "group_wire P ck sign ad pt j =
     (let ct = aead_seal P (mk_at P ck j) ZERO_NONCE (build_aead_aad (of_nat j) ad) (pt j)
      in \<lparr> eg_index = of_nat j, eg_ciphertext = ct,
           eg_signature = ed_sign P sign (canonical_sign_bytes (of_nat j) ad ct) \<rparr>)"

definition group_inv :: "prims \<Rightarrow> bytes \<Rightarrow> bytes \<Rightarrow> receiver_chain \<Rightarrow> bool" where
  "group_inv P ck sign c \<longleftrightarrow> aead_correct P \<and> ed_correct P \<and> rc_verify_pub c = ed_pub P sign
     \<and> rc_chain_key c = ck_at P ck (unat (rc_next_index c)) \<and> distinct (map ms_index (rc_skipped c))
     \<and> (\<forall>s \<in> set (rc_skipped c). \<exists>j < unat (rc_next_index c). s = ms_entry P ck j)"

definition group_cached :: "prims \<Rightarrow> bytes \<Rightarrow> receiver_chain \<Rightarrow> nat set" where
  "group_cached P ck c = {j. j < unat (rc_next_index c) \<and> ms_entry P ck j \<in> set (rc_skipped c)}"

lemma group_wire_ok:
  assumes "group_inv P ck sign c"
  shows "megolm_verify P c (group_wire P ck sign ad pt j) ad = None"
    "megolm_open P (mk_at P ck j) (group_wire P ck sign ad pt j) ad = Inr (pt j)"
    "eg_index (group_wire P ck sign ad pt j) = of_nat j"
  using assms by (simp_all add: group_inv_def megolm_verify_def megolm_open_def group_wire_def Let_def)

lemma ms_entry_inject:
  "i < 2 ^ 32 \<Longrightarrow> j < 2 ^ 32 \<Longrightarrow> ms_entry P ck i = ms_entry P ck j \<longleftrightarrow> i = j"
  using of_nat32_inject by (auto simp: ms_entry_def)

lemma group_key:
  assumes "group_inv P ck sign c" "s \<in> set (rc_skipped c)" "ms_index s = of_nat i" "i < 2 ^ 32"
  shows "s = ms_entry P ck i \<and> i < unat (rc_next_index c)"
proof -
  obtain j where j: "j < unat (rc_next_index c)" "s = ms_entry P ck j" using assms by (auto simp: group_inv_def)
  moreover have "j < 2 ^ 32" using j(1) unat_bound [of "rc_next_index c"] by simp
  ultimately show ?thesis using assms(3,4) of_nat32_inject by fastforce
qed

lemma megolm_live:
  assumes inv: "group_inv P ck sign c" and i: "unat (rc_next_index c) \<le> i" "i < 2 ^ 32 - 1"
    and cap: "(i - unat (rc_next_index c)) + length (rc_skipped c) \<le> MEGOLM_MAX_SKIP"
  shows "\<exists>c'. megolm_decrypt P c (group_wire P ck sign ad pt i) ad = (Inr (pt i), c')
     \<and> group_inv P ck sign c' \<and> unat (rc_next_index c') = Suc i
     \<and> group_cached P ck c' = group_cached P ck c \<union> {unat (rc_next_index c)..<i}
     \<and> length (rc_skipped c') = length (rc_skipped c) + (i - unat (rc_next_index c))"
proof -
  let ?n = "unat (rc_next_index c)" and ?m = "group_wire P ck sign ad pt i"
  note g = inv [unfolded group_inv_def] and w = group_wire_ok [OF inv]
  have i32: "unat (of_nat i :: u32) = i" using i by simp
  have sub: "unat (of_nat i - rc_next_index c) = i - ?n"
    using i i32 by (simp add: unat_sub word_le_nat_alt)
  have nl: "\<not> of_nat i < rc_next_index c" using i i32 by (simp add: word_less_nat_alt)
  let ?S = "map (ms_entry P ck) [?n..<i]"
  let ?c' = "c\<lparr> rc_chain_key := ck_at P ck (Suc i), rc_next_index := of_nat (Suc i),
      rc_skipped := rc_skipped c @ ?S \<rparr>"
  have sk: "megolm_skip P (i - ?n) c = c\<lparr> rc_chain_key := ck_at P ck i, rc_next_index := of_nat i,
      rc_skipped := rc_skipped c @ ?S \<rparr>"
    using megolm_skip_chain [of c P ck "i - ?n"] g i by simp
  have ev: "megolm_evict (megolm_skip P (i - ?n) c) = megolm_skip P (i - ?n) c"
    using cap unfolding sk megolm_evict_def by simp
  have dec: "megolm_decrypt P c ?m ad = (Inr (pt i), ?c')"
    using w nl cap by (simp add: megolm_decrypt_def sub ev Let_def) (simp add: sk add.commute)
  have nr: "unat (rc_next_index ?c') = Suc i" using i(2) unat_of_nat32 [of "Suc i"] by (simp del: of_nat_Suc)
  have low: "j < 2 ^ 32" if "j < i" for j using that i(2) by simp
  have "inj_on (\<lambda>j. ms_index (ms_entry P ck j)) {?n..<i}"
    by (rule inj_onI) (use low of_nat32_inject in auto)
  then have "distinct (map ms_index ?S)" by (simp add: distinct_map comp_def inj_on_def)
  moreover have "ms_index ` set (rc_skipped c) \<inter> ms_index ` set ?S = {}"
  proof -
    have "ms_index s \<noteq> of_nat j" if "s \<in> set (rc_skipped c)" "?n \<le> j" "j < i" for s j
      using group_key [OF inv that(1) _ low [OF that(3)]] that(2) by auto
    then show ?thesis by auto
  qed
  ultimately have "distinct (map ms_index (rc_skipped c @ ?S))"
    using g by (simp only: map_append distinct_append set_map)
  then have dist: "distinct (map ms_index (rc_skipped ?c'))" by simp
  have "\<exists>j < Suc i. s = ms_entry P ck j" if "s \<in> set (rc_skipped c) \<union> ms_entry P ck ` {?n..<i}" for s
    using that
  proof
    assume "s \<in> set (rc_skipped c)"
    then obtain j where "j < ?n" "s = ms_entry P ck j" using g by blast
    then show ?thesis using i by (intro exI [of _ j]) simp
  next
    assume "s \<in> ms_entry P ck ` {?n..<i}"
    then obtain j where "j < i" "s = ms_entry P ck j" by auto
    then show ?thesis by (intro exI [of _ j]) simp
  qed
  then have "group_inv P ck sign ?c'"
    using g dist nr unfolding group_inv_def by (simp del: of_nat_Suc)
  moreover have "group_cached P ck ?c' = group_cached P ck c \<union> {?n..<i}"
  proof (rule set_eqI)
    fix j
    have "j < Suc i \<and> ms_entry P ck j \<in> set (rc_skipped c) \<longleftrightarrow>
        j < ?n \<and> ms_entry P ck j \<in> set (rc_skipped c)"
      using group_key [OF inv, of "ms_entry P ck j" j] low i by auto
    moreover have "j < Suc i \<and> ms_entry P ck j \<in> ms_entry P ck ` {?n..<i} \<longleftrightarrow> j \<in> {?n..<i}"
      using low i(2) by (auto simp: image_iff ms_entry_inject)
    ultimately show "j \<in> group_cached P ck ?c' \<longleftrightarrow> j \<in> group_cached P ck c \<union> {?n..<i}"
      using nr by (auto simp: group_cached_def)
  qed
  ultimately show ?thesis using dec nr by (intro exI [of _ ?c']) simp
qed


lemma megolm_late:
  assumes inv: "group_inv P ck sign c" and i: "i < unat (rc_next_index c)" "i \<in> group_cached P ck c"
  shows "\<exists>c'. megolm_decrypt P c (group_wire P ck sign ad pt i) ad = (Inr (pt i), c')
     \<and> group_inv P ck sign c' \<and> unat (rc_next_index c') = unat (rc_next_index c)
     \<and> group_cached P ck c' = group_cached P ck c - {i}
     \<and> length (rc_skipped c) = Suc (length (rc_skipped c'))"
proof -
  let ?m = "group_wire P ck sign ad pt i"
  note g = inv [unfolded group_inv_def] and w = group_wire_ok [OF inv]
  have i32: "i < 2 ^ 32" using i unat_bound [of "rc_next_index c"] by simp
  have lt: "of_nat i < rc_next_index c" using i i32 by (simp add: word_less_nat_alt)
  have mem: "ms_entry P ck i \<in> set (rc_skipped c)" using i by (simp add: group_cached_def)
  have "\<exists>x \<in> set (rc_skipped c). ms_index x = of_nat i" by (rule bexI [OF _ mem]) simp
  then have "take_first (\<lambda>sk. ms_index sk = of_nat i) (rc_skipped c) \<noteq> None"
    by (auto simp: take_first_None_iff)
  then obtain s rest where tf: "take_first (\<lambda>sk. ms_index sk = of_nat i) (rc_skipped c) = Some (s, rest)" by auto
  note tfs = take_first_Some [OF tf]
  have s: "s = ms_entry P ck i" using group_key [OF inv, of s i] tfs i32 by simp
  have rest: "distinct (map ms_index rest)" "set rest = {x \<in> set (rc_skipped c). ms_index x \<noteq> of_nat i}"
    using take_first_distinct [OF tf, of ms_index] g s by simp_all
  let ?c' = "c\<lparr> rc_skipped := rest \<rparr>"
  have "megolm_decrypt P c ?m ad = (Inr (pt i), ?c')" using w lt tf s by (simp add: megolm_decrypt_def)
  moreover have "group_inv P ck sign ?c'" using g rest unfolding group_inv_def by simp
  moreover have "(of_nat j :: u32) = of_nat i \<longleftrightarrow> j = i" if "j < unat (rc_next_index c)" for j
    using that i32 unat_bound [of "rc_next_index c"] by (intro of_nat32_inject) simp_all
  then have "group_cached P ck ?c' = group_cached P ck c - {i}"
    using rest(2) by (auto simp: group_cached_def)
  ultimately show ?thesis using tfs by (intro exI [of _ ?c']) simp
qed

lemma megolm_stale:
  assumes inv: "group_inv P ck sign c" and i: "i < unat (rc_next_index c)" "i \<notin> group_cached P ck c"
  shows "megolm_decrypt P c (group_wire P ck sign ad pt i) ad = (Inl (MessageKeyMissing (of_nat i)), c)"
proof -
  have i32: "i < 2 ^ 32" using i unat_bound [of "rc_next_index c"] by simp
  have "ms_index s \<noteq> of_nat i" if "s \<in> set (rc_skipped c)" for s
    using group_key [OF inv that _ i32] i that by (auto simp: group_cached_def)
  then have "take_first (\<lambda>sk. ms_index sk = of_nat i) (rc_skipped c) = None"
    by (auto simp: take_first_None_iff)
  moreover have "of_nat i < rc_next_index c" using i i32 by (simp add: word_less_nat_alt)
  ultimately show ?thesis using group_wire_ok [OF inv] by (simp add: megolm_decrypt_def)
qed

interpretation gx: replay_safe_receiver
  "\<lambda>c m. megolm_decrypt P c m ad" "group_wire P ck sign ad pt" pt "group_inv P ck sign"
  "\<lambda>c. unat (rc_next_index c)" "group_cached P ck" "\<lambda>c. length (rc_skipped c)" MEGOLM_MAX_SKIP "2 ^ 32 - 1"
  for P ad ck sign pt
proof
  show "group_inv P ck sign c \<Longrightarrow> group_cached P ck c \<subseteq> {..<unat (rc_next_index c)}" for c
    by (auto simp: group_cached_def)
  show "\<exists>e. megolm_decrypt P c (group_wire P ck sign ad pt i) ad = (Inl e, c)"
    if "group_inv P ck sign c" "i < unat (rc_next_index c)" "i \<notin> group_cached P ck c" for c i
    using megolm_stale [OF that] by blast
qed (use megolm_live megolm_late in blast)+

section \<open>Properties\<close>

lemma from_bundle_inv:
  "aead_correct P \<Longrightarrow> ed_correct P \<Longrightarrow> sc_chain_key s = ck_at P ck (unat (sc_index s)) \<Longrightarrow>
     group_inv P ck (sc_sign_priv s) (from_bundle (current_bundle P s))"
  by (simp add: group_inv_def from_bundle_def current_bundle_def)

lemma megolm_send_chain:
  assumes "sc_chain_key s = ck_at P ck (unat (sc_index s))" "unat (sc_index s) + length pts < 2 ^ 32"
  shows "fst (deliver (\<lambda>s pt. megolm_encrypt P s pt ad) s pts) =
     map (\<lambda>i. group_wire P ck (sc_sign_priv s) ad (\<lambda>_. pts ! i) (unat (sc_index s) + i)) [0..<length pts]"
  using assms
proof (induction pts arbitrary: s)
  case (Cons pt pts)
  let ?n = "unat (sc_index s)"
  let ?s = "s\<lparr> sc_chain_key := ck_at P ck (Suc ?n), sc_index := sc_index s + 1 \<rparr>"
  have n: "unat (sc_index s + 1) = Suc ?n" using Cons.prems by (intro unat_Suc_bound) simp
  have "megolm_encrypt P s pt ad = (group_wire P ck (sc_sign_priv s) ad (\<lambda>_. pt) ?n, ?s)"
    using Cons.prems by (simp add: megolm_encrypt_def group_wire_def Let_def)
  moreover have "[0..<length (pt # pts)] = 0 # map Suc [0..<length pts]"
    by (simp add: map_Suc_upt upt_conv_Cons del: upt_Suc)
  ultimately show ?case using Cons.IH [of ?s] Cons.prems n
    by (simp add: comp_def case_prod_unfold Let_def)
qed simp

text \<open>C10: A member who installs the sender's current bundle decrypts the sender's following
  messages (up to \<open>MAX_SKIP + 1\<close> of them) in any order of arrival and with any duplicates: every
  message is delivered at its first arrival, exactly once, and no other plaintext is.\<close>
theorem group_delivery:
  assumes "aead_correct P" "ed_correct P" "sc_chain_key s = ck_at P ck (unat (sc_index s))"
    and "unat (sc_index s) + length pts < 2 ^ 32" "length pts \<le> Suc MEGOLM_MAX_SKIP"
    and "\<forall>i \<in> set order. i < length pts"
  shows "rights (fst (deliver (\<lambda>c m. megolm_decrypt P c m ad) (from_bundle (current_bundle P s))
       (map ((!) (fst (deliver (\<lambda>s pt. megolm_encrypt P s pt ad) s pts))) order)))
     = map ((!) pts) (first_arrivals {} order)"
proof -
  let ?n = "unat (sc_index s)" and ?pt = "\<lambda>j. pts ! (j - unat (sc_index s))"
  let ?w = "group_wire P ck (sc_sign_priv s) ad ?pt" and ?c = "from_bundle (current_bundle P s)"
  have inv: "group_inv P ck (sc_sign_priv s) ?c" by (rule from_bundle_inv [OF assms(1-3)])
  have nx: "unat (rc_next_index ?c) = ?n" "rc_skipped ?c = []"
    by (simp_all add: from_bundle_def current_bundle_def)
  have msgs: "map ((!) (fst (deliver (\<lambda>s pt. megolm_encrypt P s pt ad) s pts))) order
      = map ?w (map (\<lambda>i. ?n + i) order)"
    using assms(6) unfolding megolm_send_chain [OF assms(3,4)] by (simp add: group_wire_def)
  have fa: "first_arrivals ((\<lambda>i. ?n + i) ` S) (map (\<lambda>i. ?n + i) is) = map (\<lambda>i. ?n + i) (first_arrivals S is)" for S "is"
    by (induction "is" arbitrary: S) (auto simp: image_iff simp flip: image_insert)
  have "rights (fst (deliver (\<lambda>c m. megolm_decrypt P c m ad) ?c (map ?w (map (\<lambda>i. ?n + i) order))))
      = map ?pt (first_arrivals {} (map (\<lambda>i. ?n + i) order))"
    by (rule conjunct1 [OF gx.with_duplicates [OF inv, of _ _ "?n + length pts"]])
      (use assms(4-6) nx in \<open>auto simp: gx.pending_def\<close>)
  then show ?thesis using fa [of "{}" order] unfolding msgs by simp
qed


theorem group_delivery_witness:
  "rights (fst (deliver (\<lambda>c m. megolm_decrypt toy_prims c m [9])
      (from_bundle (current_bundle toy_prims (sender_chain_new [1] [2])))
      (map ((!) (fst (deliver (\<lambda>s pt. megolm_encrypt toy_prims s pt [9]) (sender_chain_new [1] [2]) [[5], [6], [7]])))
         [2, 0, 2, 1, 0]))) = [[7], [5], [6]]"
  using group_delivery [of toy_prims "sender_chain_new [1] [2]" "[1]" "[[5], [6], [7]]" "[2, 0, 2, 1, 0]" "[9]"]
  by (simp add: sender_chain_new_def MEGOLM_MAX_SKIP_def)

text \<open>A message whose signature does not verify under the chain's key is refused before
  anything else: the receiver chain is left exactly as it was.\<close>
lemma group_forgery_no_effect:
  assumes "length (eg_signature m) \<noteq> 64
     \<or> \<not> ed_verify P (rc_verify_pub c) (canonical_sign_bytes (eg_index m) ad (eg_ciphertext m)) (eg_signature m)"
  shows "\<exists>e. megolm_decrypt P c m ad = (Inl e, c) \<and> e \<in> {BadVerifyingKey, MegolmBadSignature}"
  using assms by (auto simp: megolm_decrypt_def megolm_verify_def)

text \<open>The cache's own invariant: indices are distinct and behind the chain.\<close>
definition cache_behind :: "receiver_chain \<Rightarrow> bool" where
  "cache_behind c \<longleftrightarrow> distinct (map ms_index (rc_skipped c))
     \<and> list_all (\<lambda>s. ms_index s < rc_next_index c) (rc_skipped c)"

lemma megolm_skip_index:
  "unat (rc_next_index c) + k < 2 ^ 32 \<Longrightarrow>
     unat (rc_next_index (megolm_skip P k c)) = unat (rc_next_index c) + k
   \<and> map ms_index (rc_skipped (megolm_skip P k c))
     = map ms_index (rc_skipped c) @ map of_nat [unat (rc_next_index c)..<unat (rc_next_index c) + k]"
proof (induction k arbitrary: c)
  case (Suc k)
  let ?n = "unat (rc_next_index c)"
  let ?c = "c\<lparr> rc_skipped := rc_skipped c @ [\<lparr> ms_index = rc_next_index c, ms_key = snd (advance_chain P (rc_chain_key c)) \<rparr>],
      rc_chain_key := fst (advance_chain P (rc_chain_key c)), rc_next_index := rc_next_index c + 1 \<rparr>"
  have n: "unat (rc_next_index c + 1) = Suc ?n" using Suc.prems by (intro unat_Suc_bound) simp
  have "[?n..<?n + Suc k] = ?n # [Suc ?n..<Suc ?n + k]" by (simp add: upt_conv_Cons)
  then show ?case using Suc.IH [of ?c] Suc.prems n by (simp add: case_prod_unfold Let_def del: upt_Suc)
qed simp

lemma megolm_skip_pub: "rc_verify_pub (megolm_skip P k c) = rc_verify_pub c"
  by (induction k arbitrary: c) (simp_all add: case_prod_unfold Let_def)

lemma behind_step:
  assumes "cache_behind c" "unat (rc_next_index c) + 1 < 2 ^ 32" "ms_index e = rc_next_index c"
    and "rc_skipped c' = rc_skipped c @ [e]" "rc_next_index c' = rc_next_index c + 1"
  shows "cache_behind c'"
proof -
  have n: "unat (rc_next_index c + 1) = Suc (unat (rc_next_index c))" using assms(2) by (intro unat_Suc_bound) simp
  then show ?thesis using assms by (force simp: cache_behind_def list_all_iff word_less_nat_alt)
qed

lemma megolm_skip_behind:
  "cache_behind c \<Longrightarrow> unat (rc_next_index c) + k < 2 ^ 32 \<Longrightarrow> cache_behind (megolm_skip P k c)"
proof (induction k arbitrary: c)
  case (Suc k)
  let ?e = "\<lparr> ms_index = rc_next_index c, ms_key = snd (advance_chain P (rc_chain_key c)) \<rparr>"
  let ?c = "c\<lparr> rc_skipped := rc_skipped c @ [?e], rc_chain_key := fst (advance_chain P (rc_chain_key c)),
      rc_next_index := rc_next_index c + 1 \<rparr>"
  have n: "unat (rc_next_index c + 1) = Suc (unat (rc_next_index c))" using Suc.prems(2) by (intro unat_Suc_bound) simp
  have "cache_behind ?c" by (rule behind_step [OF Suc.prems(1), of ?e]) (use Suc.prems(2) in simp_all)
  then show ?case using Suc.IH [of ?c] Suc.prems(2) n by (simp add: case_prod_unfold Let_def)
qed simp

text \<open>What accepting a message does to the chain: a late one takes its entry out of the cache, a live
  one moves the chain past its index.\<close>
lemma megolm_accept_late:
  assumes "megolm_decrypt P c m ad = (Inr pt, c')" "eg_index m < rc_next_index c"
  shows "\<exists>sk rest. take_first (\<lambda>s. ms_index s = eg_index m) (rc_skipped c) = Some (sk, rest) \<and> c' = c\<lparr> rc_skipped := rest \<rparr>"
  using assms by (auto simp: megolm_decrypt_def split: option.splits)

lemma megolm_accept_live:
  assumes acc: "megolm_decrypt P c m ad = (Inr pt, c')" and new: "\<not> eg_index m < rc_next_index c"
  shows "\<exists>c1. c1 = megolm_skip P (unat (eg_index m) - unat (rc_next_index c)) c
     \<and> length (rc_skipped c1) \<le> MEGOLM_MAX_SKIP \<and> rc_next_index c1 = eg_index m \<and> rc_skipped c' = rc_skipped c1
     \<and> rc_next_index c' = eg_index m + 1 \<and> rc_verify_pub c' = rc_verify_pub c"
proof -
  let ?i = "unat (eg_index m)" and ?n = "unat (rc_next_index c)"
  let ?c1 = "megolm_skip P (?i - ?n) c"
  have le: "?n \<le> ?i" using new by (simp add: word_less_nat_alt not_less)
  then have sub: "unat (eg_index m - rc_next_index c) = ?i - ?n" by (simp add: unat_sub word_le_nat_alt)
  have v: "megolm_verify P c m ad = None" using acc by (auto simp: megolm_decrypt_def split: option.splits)
  have cap: "?i - ?n + length (rc_skipped c) \<le> MEGOLM_MAX_SKIP"
    using acc v new by (auto simp: megolm_decrypt_def sub Let_def split: if_splits)
  have i32: "?i < 2 ^ 32" by (rule order.strict_trans2 [OF unat_bound]) simp
  note sk = megolm_skip_index [of c "?i - ?n" P]
  have nx: "rc_next_index ?c1 = eg_index m" using sk le i32 by (simp add: word_unat_eq_iff)
  have "map ms_index (rc_skipped ?c1) = map ms_index (rc_skipped c) @ map of_nat [?n..<?i]" using sk le i32 by simp
  from arg_cong [OF this, of length] have len: "length (rc_skipped ?c1) = length (rc_skipped c) + (?i - ?n)" by simp
  have ev: "megolm_evict ?c1 = ?c1" using cap len by (simp add: megolm_evict_def)
  show ?thesis using acc v new cap len nx by (auto simp: megolm_decrypt_def sub ev Let_def case_prod_unfold megolm_skip_pub)
qed

lemma megolm_verify_pub: "rc_verify_pub c' = rc_verify_pub c \<Longrightarrow> megolm_verify P c' m ad = megolm_verify P c m ad"
  by (simp add: megolm_verify_def)

text \<open>A message behind the chain whose key is not cached is refused without effect.\<close>
lemma megolm_refuse_spent:
  assumes "megolm_verify P c m ad = None" "eg_index m < rc_next_index c" "\<forall>s \<in> set (rc_skipped c). ms_index s \<noteq> eg_index m"
  shows "megolm_decrypt P c m ad = (Inl (MessageKeyMissing (eg_index m)), c)"
proof -
  have "take_first (\<lambda>s. ms_index s = eg_index m) (rc_skipped c) = None" using assms(3) by (auto simp: take_first_None_iff)
  then show ?thesis using assms by (simp add: megolm_decrypt_def)
qed

text \<open>Whatever message a receiver accepts, a second arrival of it is refused with
  \<open>MessageKeyMissing\<close> and changes nothing; acceptance keeps the cache bounded and behind the chain.\<close>
lemma group_replay_rejected:
  assumes "cache_behind c" "length (rc_skipped c) \<le> MEGOLM_MAX_SKIP" "unat (eg_index m) < 2 ^ 32 - 1"
    and acc: "megolm_decrypt P c m ad = (Inr pt, c')"
  shows "megolm_decrypt P c' m ad = (Inl (MessageKeyMissing (eg_index m)), c')
     \<and> cache_behind c' \<and> length (rc_skipped c') \<le> MEGOLM_MAX_SKIP"
proof -
  have v: "megolm_verify P c m ad = None" using acc by (auto simp: megolm_decrypt_def split: option.splits)
  show ?thesis
  proof (cases "eg_index m < rc_next_index c")
    case True
    then obtain sk rest where tf: "take_first (\<lambda>s. ms_index s = eg_index m) (rc_skipped c) = Some (sk, rest)"
      and c': "c' = c\<lparr> rc_skipped := rest \<rparr>" using megolm_accept_late [OF acc] by blast
    note d = take_first_Some [OF tf] take_first_distinct [OF tf, of ms_index]
    have "megolm_verify P c' m ad = None" using v megolm_verify_pub [of c' c] by (simp add: c')
    then show ?thesis using megolm_refuse_spent [of P c' m ad] d assms(1,2) True
      by (auto simp: c' cache_behind_def list_all_iff)
  next
    case False
    obtain c1 where c1: "c1 = megolm_skip P (unat (eg_index m) - unat (rc_next_index c)) c"
      "length (rc_skipped c1) \<le> MEGOLM_MAX_SKIP" "rc_next_index c1 = eg_index m" "rc_skipped c' = rc_skipped c1"
      "rc_next_index c' = eg_index m + 1" "rc_verify_pub c' = rc_verify_pub c"
      using megolm_accept_live [OF acc False] by blast
    have "cache_behind c1" unfolding c1(1)
      by (rule megolm_skip_behind [OF assms(1)]) (use False assms(3) in \<open>simp add: word_less_nat_alt\<close>)
    moreover have "eg_index m < eg_index m + 1" using assms(3) unat_Suc_bound [of "eg_index m"] by (simp add: word_less_nat_alt)
    moreover have "megolm_verify P c' m ad = None" using v megolm_verify_pub [OF c1(6)] by simp
    ultimately show ?thesis using megolm_refuse_spent [of P c' m ad] c1
      by (fastforce simp: cache_behind_def list_all_iff)
  qed
qed

end
