(* ===== verification/X3dh.thy ===== *)
theory X3dh
  imports Primitives
begin

text \<open>
  \<open>src/src/crypto/x3dh.rs\<close>: the four variants of the initial key agreement (two or three DH
  outputs, with or without an ML-KEM secret).  The initiator's ephemeral secret, drawn from
  \<open>OsRng\<close> in the source, is the argument \<open>eph\<close>; the encapsulation randomness is \<open>rnd\<close>.
\<close>

definition X3DH_INFO :: bytes where "X3DH_INFO = ascii ''ME55-x3dh-v1''"
definition X3DH_INFO_OTPK :: bytes where "X3DH_INFO_OTPK = ascii ''ME55-x3dh-otpk-v1''"
definition X3DH_INFO_PQ :: bytes where "X3DH_INFO_PQ = ascii ''ME55-x3dh-pq-v1''"
definition X3DH_INFO_OTPK_PQ :: bytes where "X3DH_INFO_OTPK_PQ = ascii ''ME55-x3dh-otpk-pq-v1''"
definition SHARED_SECRET_LEN :: nat where "SHARED_SECRET_LEN = 32"

definition derive_shared_secret :: "prims \<Rightarrow> bytes \<Rightarrow> bytes \<Rightarrow> bytes" where
  "derive_shared_secret P dh1 dh2 =
     hkdf_sha256 P (replicate 32 0) (dh1 @ dh2) X3DH_INFO SHARED_SECRET_LEN"

definition derive_shared_secret_3 :: "prims \<Rightarrow> bytes \<Rightarrow> bytes \<Rightarrow> bytes \<Rightarrow> bytes" where
  "derive_shared_secret_3 P dh1 dh2 dh3 =
     hkdf_sha256 P (replicate 32 0) (dh1 @ dh2 @ dh3) X3DH_INFO_OTPK SHARED_SECRET_LEN"

definition derive_shared_secret_pq :: "prims \<Rightarrow> bytes \<Rightarrow> bytes \<Rightarrow> bytes \<Rightarrow> bytes" where
  "derive_shared_secret_pq P dh1 dh2 pq_ss =
     hkdf_sha256 P (replicate 32 0) (dh1 @ dh2 @ pq_ss) X3DH_INFO_PQ SHARED_SECRET_LEN"

definition derive_shared_secret_3_pq :: "prims \<Rightarrow> bytes \<Rightarrow> bytes \<Rightarrow> bytes \<Rightarrow> bytes \<Rightarrow> bytes" where
  "derive_shared_secret_3_pq P dh1 dh2 dh3 pq_ss =
     hkdf_sha256 P (replicate 32 0) (dh1 @ dh2 @ dh3 @ pq_ss) X3DH_INFO_OTPK_PQ SHARED_SECRET_LEN"

section \<open>Classical variants\<close>

definition initiator_derive :: "prims \<Rightarrow> bytes \<Rightarrow> bytes \<Rightarrow> bytes \<Rightarrow> bytes \<times> bytes" where
  "initiator_derive P eph my_identity responder_prekey =
     (let dh1 = x25519_dh P eph responder_prekey;
          dh2 = x25519_dh P my_identity responder_prekey
      in (x25519_pub P eph, derive_shared_secret P dh1 dh2))"

definition responder_derive :: "prims \<Rightarrow> bytes \<Rightarrow> bytes \<Rightarrow> bytes \<Rightarrow> bytes" where
  "responder_derive P my_prekey initiator_eph initiator_identity =
     (let dh1 = x25519_dh P my_prekey initiator_eph;
          dh2 = x25519_dh P my_prekey initiator_identity
      in derive_shared_secret P dh1 dh2)"

definition initiator_derive_with_otpk :: "prims \<Rightarrow> bytes \<Rightarrow> bytes \<Rightarrow> bytes \<Rightarrow> bytes \<Rightarrow> bytes \<times> bytes" where
  "initiator_derive_with_otpk P eph my_identity responder_prekey responder_otpk =
     (let dh1 = x25519_dh P eph responder_prekey;
          dh2 = x25519_dh P my_identity responder_prekey;
          dh3 = x25519_dh P eph responder_otpk
      in (x25519_pub P eph, derive_shared_secret_3 P dh1 dh2 dh3))"

definition responder_derive_with_otpk :: "prims \<Rightarrow> bytes \<Rightarrow> bytes \<Rightarrow> bytes \<Rightarrow> bytes \<Rightarrow> bytes" where
  "responder_derive_with_otpk P my_prekey my_otpk initiator_eph initiator_identity =
     (let dh1 = x25519_dh P my_prekey initiator_eph;
          dh2 = x25519_dh P my_prekey initiator_identity;
          dh3 = x25519_dh P my_otpk initiator_eph
      in derive_shared_secret_3 P dh1 dh2 dh3)"

section \<open>ML-KEM and the hybrid variants\<close>

text \<open>The length checks of \<open>Array::try_from\<close> are part of the crate operations.\<close>
definition pq_encapsulate :: "prims \<Rightarrow> bytes \<Rightarrow> bytes \<Rightarrow> (bytes \<times> bytes) option" where
  "pq_encapsulate P rnd responder_ek = kem_encap P responder_ek rnd"

definition pq_decapsulate :: "prims \<Rightarrow> bytes \<Rightarrow> bytes \<Rightarrow> bytes option" where
  "pq_decapsulate P my_dk ct = kem_decap P my_dk ct"

definition initiator_derive_hybrid :: "prims \<Rightarrow> bytes \<Rightarrow> bytes \<Rightarrow> bytes \<Rightarrow> bytes \<Rightarrow> bytes \<times> bytes" where
  "initiator_derive_hybrid P eph my_identity responder_prekey pq_ss =
     (let dh1 = x25519_dh P eph responder_prekey;
          dh2 = x25519_dh P my_identity responder_prekey
      in (x25519_pub P eph, derive_shared_secret_pq P dh1 dh2 pq_ss))"

definition responder_derive_hybrid :: "prims \<Rightarrow> bytes \<Rightarrow> bytes \<Rightarrow> bytes \<Rightarrow> bytes \<Rightarrow> bytes" where
  "responder_derive_hybrid P my_prekey initiator_eph initiator_identity pq_ss =
     (let dh1 = x25519_dh P my_prekey initiator_eph;
          dh2 = x25519_dh P my_prekey initiator_identity
      in derive_shared_secret_pq P dh1 dh2 pq_ss)"

definition initiator_derive_with_otpk_hybrid ::
  "prims \<Rightarrow> bytes \<Rightarrow> bytes \<Rightarrow> bytes \<Rightarrow> bytes \<Rightarrow> bytes \<Rightarrow> bytes \<times> bytes" where
  "initiator_derive_with_otpk_hybrid P eph my_identity responder_prekey responder_otpk pq_ss =
     (let dh1 = x25519_dh P eph responder_prekey;
          dh2 = x25519_dh P my_identity responder_prekey;
          dh3 = x25519_dh P eph responder_otpk
      in (x25519_pub P eph, derive_shared_secret_3_pq P dh1 dh2 dh3 pq_ss))"

definition responder_derive_with_otpk_hybrid ::
  "prims \<Rightarrow> bytes \<Rightarrow> bytes \<Rightarrow> bytes \<Rightarrow> bytes \<Rightarrow> bytes \<Rightarrow> bytes" where
  "responder_derive_with_otpk_hybrid P my_prekey my_otpk initiator_eph initiator_identity pq_ss =
     (let dh1 = x25519_dh P my_prekey initiator_eph;
          dh2 = x25519_dh P my_prekey initiator_identity;
          dh3 = x25519_dh P my_otpk initiator_eph
      in derive_shared_secret_3_pq P dh1 dh2 dh3 pq_ss)"

lemmas x3dh_defs =
  initiator_derive_def responder_derive_def initiator_derive_with_otpk_def
  responder_derive_with_otpk_def initiator_derive_hybrid_def responder_derive_hybrid_def
  initiator_derive_with_otpk_hybrid_def responder_derive_with_otpk_hybrid_def

section \<open>Agreement\<close>

text \<open>One lemma per variant, for the callers.\<close>
lemma x3dh_agree:
  assumes "dh_agree P"
  shows "initiator_derive P e i (x25519_pub P s) = (E, sk) \<Longrightarrow> responder_derive P s E (x25519_pub P i) = sk"
    "initiator_derive_with_otpk P e i (x25519_pub P s) (x25519_pub P opk) = (E, sk) \<Longrightarrow>
       responder_derive_with_otpk P s opk E (x25519_pub P i) = sk"
    "initiator_derive_hybrid P e i (x25519_pub P s) ss = (E, sk) \<Longrightarrow>
       responder_derive_hybrid P s E (x25519_pub P i) ss = sk"
    "initiator_derive_with_otpk_hybrid P e i (x25519_pub P s) (x25519_pub P opk) ss = (E, sk) \<Longrightarrow>
       responder_derive_with_otpk_hybrid P s opk E (x25519_pub P i) ss = sk"
  using dh_agreeD [OF assms] by (auto simp: x3dh_defs Let_def)

text \<open>C13: In each of the four variants (with or without one-time prekey, with or without ML-KEM) initiator and
  responder derive the same session secret: the initiator from its two secrets and the responder's public keys,
  the responder from its own secrets, the ephemeral key sent and the initiator's public key; with ML-KEM
  the shared secret is what the responder decapsulates from the initiator's ciphertext.\<close>
theorem x3dh_agreement:
  assumes "dh_agree P" "kem_correct P" "pq_encapsulate P rnd (kem_ek P dk) = Some (ct, ss)"
  shows "(let (E, sk) = initiator_derive P eph ident (x25519_pub P spk)
          in responder_derive P spk E (x25519_pub P ident) = sk)
     \<and> (let (E, sk) = initiator_derive_with_otpk P eph ident (x25519_pub P spk) (x25519_pub P opk)
          in responder_derive_with_otpk P spk opk E (x25519_pub P ident) = sk)
     \<and> (\<exists>ss'. pq_decapsulate P dk ct = Some ss'
          \<and> (let (E, sk) = initiator_derive_hybrid P eph ident (x25519_pub P spk) ss
             in responder_derive_hybrid P spk E (x25519_pub P ident) ss' = sk)
          \<and> (let (E, sk) = initiator_derive_with_otpk_hybrid P eph ident (x25519_pub P spk) (x25519_pub P opk) ss
             in responder_derive_with_otpk_hybrid P spk opk E (x25519_pub P ident) ss' = sk))"
proof -
  have "pq_decapsulate P dk ct = Some ss"
    using assms(2,3) by (auto simp: pq_encapsulate_def pq_decapsulate_def kem_correct_def)
  then show ?thesis using x3dh_agree [OF assms(1) surjective_pairing] by (simp add: case_prod_unfold Let_def)
qed

theorem x3dh_agreement_witness:
  "responder_derive toy_prims [3] [5] [6] = snd (initiator_derive toy_prims [5] [6] [3])
   \<and> responder_derive_with_otpk toy_prims [3] [4] [5] [6] = snd (initiator_derive_with_otpk toy_prims [5] [6] [3] [4])
   \<and> (\<exists>ss'. pq_decapsulate toy_prims [1] [1, 2] = Some ss'
        \<and> responder_derive_hybrid toy_prims [3] [5] [6] ss' = snd (initiator_derive_hybrid toy_prims [5] [6] [3] (toy_hash [1, 2]))
        \<and> responder_derive_with_otpk_hybrid toy_prims [3] [4] [5] [6] ss'
            = snd (initiator_derive_with_otpk_hybrid toy_prims [5] [6] [3] [4] (toy_hash [1, 2])))"
proof -
  have "pq_encapsulate toy_prims [2] (kem_ek toy_prims [1]) = Some ([1, 2], toy_hash [1, 2])" by (simp add: pq_encapsulate_def)
  moreover have "fst (initiator_derive toy_prims [5] [6] [3]) = [5]" "fst (initiator_derive_with_otpk toy_prims [5] [6] [3] [4]) = [5]"
    "fst (initiator_derive_hybrid toy_prims [5] [6] [3] ss) = [5]" "fst (initiator_derive_with_otpk_hybrid toy_prims [5] [6] [3] [4] ss) = [5]" for ss
    by (simp_all add: x3dh_defs Let_def)
  ultimately show ?thesis
    using x3dh_agreement [of toy_prims "[2]" "[1]" "[1, 2]" "toy_hash [1, 2]" "[5]" "[6]" "[3]" "[4]"]
    by (simp add: case_prod_unfold Let_def)
qed

text \<open>Dropping the ML-KEM ciphertext (or the one-time prekey) of a first message cannot lead to
  the same key: the variants separate their HKDF calls by the info tag, so when HKDF has no
  collision between two of the four tags, a downgraded responder derives a different secret.\<close>
lemma x3dh_downgrade_differs:
  assumes "\<And>ikm info ikm' info'. {info, info'} \<subseteq> {X3DH_INFO, X3DH_INFO_OTPK, X3DH_INFO_PQ, X3DH_INFO_OTPK_PQ} \<Longrightarrow>
      hkdf_sha256 P (replicate 32 0) ikm info 32 = hkdf_sha256 P (replicate 32 0) ikm' info' 32 \<Longrightarrow> info = info'"
  shows "responder_derive P s E I \<noteq> responder_derive_hybrid P s E I ss
     \<and> responder_derive P s E I \<noteq> responder_derive_with_otpk P s opk E I
     \<and> responder_derive_with_otpk P s opk E I \<noteq> responder_derive_with_otpk_hybrid P s opk E I ss
     \<and> responder_derive_hybrid P s E I ss \<noteq> responder_derive_with_otpk_hybrid P s opk E I ss"
proof -
  have "X3DH_INFO \<noteq> X3DH_INFO_PQ" "X3DH_INFO \<noteq> X3DH_INFO_OTPK" "X3DH_INFO_OTPK \<noteq> X3DH_INFO_OTPK_PQ"
    "X3DH_INFO_PQ \<noteq> X3DH_INFO_OTPK_PQ"
    by (auto simp: X3DH_INFO_def X3DH_INFO_PQ_def X3DH_INFO_OTPK_def X3DH_INFO_OTPK_PQ_def ascii_def
        dest: arg_cong [of _ _ length])
  then show ?thesis
    by (auto simp: x3dh_defs Let_def derive_shared_secret_def derive_shared_secret_3_def
        derive_shared_secret_pq_def derive_shared_secret_3_pq_def SHARED_SECRET_LEN_def
        dest!: assms [rotated])
qed

end
