(* ===== verification/Sealed.thy ===== *)
theory Sealed
  imports Primitives
begin

text \<open>
  \<open>src/src/crypto/sealed.rs\<close>: encryption of a sender certificate to the recipient's X25519
  prekey, \<open>ephemeral_pub (32) || ciphertext\<close>.  The ephemeral secret is the argument \<open>eph\<close>; the
  \<open>anyhow\<close> errors are constructors without their texts.
\<close>

definition HKDF_SALT :: bytes where "HKDF_SALT = ascii ''ME55-sealed-sender-v1''"
definition HKDF_INFO :: bytes where "HKDF_INFO = ascii ''chacha-key-nonce''"

datatype seal_error = SealLowOrder | SealTooShort | SealAead

definition hkdf_derive :: "prims \<Rightarrow> bytes \<Rightarrow> bytes \<times> bytes" where
  "hkdf_derive P shared = (let okm = hkdf_sha256 P HKDF_SALT shared HKDF_INFO 44 in (take 32 okm, drop 32 okm))"

definition seal_sender_cert :: "prims \<Rightarrow> bytes \<Rightarrow> bytes \<Rightarrow> bytes \<Rightarrow> seal_error + bytes" where
  "seal_sender_cert P eph recipient_pub cert =
     (let shared = x25519_dh P eph recipient_pub in
      if shared = replicate 32 0 then Inl SealLowOrder
      else let (key, nonce) = hkdf_derive P shared
           in Inr (x25519_pub P eph @ aead_seal P key nonce [] cert))"

definition unseal_sender_cert :: "prims \<Rightarrow> bytes \<Rightarrow> bytes \<Rightarrow> seal_error + bytes" where
  "unseal_sender_cert P recipient_priv sealed =
     (if length sealed < 32 + 16 then Inl SealTooShort
      else let shared = x25519_dh P recipient_priv (take 32 sealed) in
        if shared = replicate 32 0 then Inl SealLowOrder
        else let (key, nonce) = hkdf_derive P shared in
          case aead_open P key nonce [] (drop 32 sealed) of None \<Rightarrow> Inl SealAead | Some pt \<Rightarrow> Inr pt)"

text \<open>What is sealed to a recipient's public key is recovered with the private key.\<close>
lemma seal_roundtrip:
  assumes "aead_correct P" "aead_tagged P" "dh_agree P" "length (x25519_pub P eph) = 32"
    and "seal_sender_cert P eph (x25519_pub P priv) cert = Inr sealed"
  shows "unseal_sender_cert P priv sealed = Inr cert \<and> sealed \<noteq> []"
proof -
  let ?sh = "x25519_dh P eph (x25519_pub P priv)"
  have sh: "x25519_dh P priv (x25519_pub P eph) = ?sh" "?sh \<noteq> replicate 32 0"
    using assms(5) dh_agreeD [OF assms(3)] by (auto simp: seal_sender_cert_def split: if_splits)
  obtain key nonce where kn: "hkdf_derive P ?sh = (key, nonce)" by (cases "hkdf_derive P ?sh") auto
  then have "sealed = x25519_pub P eph @ aead_seal P key nonce [] cert"
    using assms(5) sh by (simp add: seal_sender_cert_def)
  then show ?thesis using sh kn assms(1-4) by (auto simp: unseal_sender_cert_def)
qed

end
