(* ===== verification/Message.thy ===== *)
theory Message
  imports Codec Sealed
begin

text \<open>
  \<open>src/src/protocol/message.rs\<close>: the message envelope, its two authentication paths (direct and
  sealed), their deniable variants and the signed byte layouts.  A PeerId is its byte encoding;
  parsing it, extracting its inline public key and verifying with it are crate operations of \<open>P\<close>.
  \<open>current_timestamp()\<close> is the argument \<open>now\<close> (seconds as an \<open>i64\<close>, i.e. a 64-bit word read as
  signed); the texts carried by the errors are dropped.  The serde codecs of the envelope are
  parameters of the theories that use them.
\<close>

definition DOMAIN_SEPARATOR :: bytes where "DOMAIN_SEPARATOR = ascii ''ME55-dm-v1''"
definition SEALED_DOMAIN_SEPARATOR :: bytes where "SEALED_DOMAIN_SEPARATOR = ascii ''ME55-sealed-dm-v1''"

record encrypted_payload =
  ep_dh :: bytes
  ep_pn :: u32
  ep_n :: u32
  ep_ct :: bytes
  ep_x3dh_eph :: "bytes option"
  ep_otpk_id :: "int option"
  ep_kind :: byte
  ep_ml_kem_ct :: "bytes option"

datatype protocol_error =
    Serde | MissingSignature | InvalidSender | NoInlinePublicKey | BadSignature
  | EnvelopeIsSealed | EnvelopeNotSealed | SealDecryptFailed | MalformedSealedCert

datatype message_type = Direct | MTGroup | File | Voice | Control

fun msg_type_byte :: "message_type \<Rightarrow> byte" where
  "msg_type_byte Direct = 0"
| "msg_type_byte MTGroup = 1"
| "msg_type_byte File = 2"
| "msg_type_byte Voice = 3"
| "msg_type_byte Control = 4"

record protocol_message =
  pm_to :: bytes
  pm_from :: bytes
  pm_sealed_sender :: bytes
  pm_payload :: bytes
  pm_timestamp :: u64
  pm_ttl :: u64
  pm_msg_type :: message_type
  pm_signature :: bytes

section \<open>Signed bytes\<close>

definition signing_layout :: "bytes \<Rightarrow> bytes \<Rightarrow> protocol_message \<Rightarrow> bytes" where
  "signing_layout tag sender m =
     push_bytes (push_bytes (push_bytes tag (pm_to m)) sender) (pm_payload m)
       @ be64 (pm_timestamp m) @ be64 (pm_ttl m) @ [msg_type_byte (pm_msg_type m)]"

definition direct_signing_bytes :: "protocol_message \<Rightarrow> bytes" where
  "direct_signing_bytes m =
     push_bytes (push_bytes (push_bytes DOMAIN_SEPARATOR (pm_to m)) (pm_from m)) (pm_payload m)
       @ be64 (pm_timestamp m) @ be64 (pm_ttl m) @ [msg_type_byte (pm_msg_type m)]"

definition sealed_signing_bytes :: "protocol_message \<Rightarrow> bytes \<Rightarrow> bytes" where
  "sealed_signing_bytes m sender_pid =
     push_bytes (push_bytes (push_bytes SEALED_DOMAIN_SEPARATOR (pm_to m)) sender_pid) (pm_payload m)
       @ be64 (pm_timestamp m) @ be64 (pm_ttl m) @ [msg_type_byte (pm_msg_type m)]"

definition extract_inline_pubkey :: "prims \<Rightarrow> bytes \<Rightarrow> protocol_error + bytes" where
  "extract_inline_pubkey P peer_id =
     (case peer_inline P peer_id of
        None \<Rightarrow> Inl NoInlinePublicKey
      | Some digest \<Rightarrow> (case pk_decode P digest of None \<Rightarrow> Inl InvalidSender | Some pk \<Rightarrow> Inr pk))"

section \<open>Building envelopes\<close>

definition SEVEN_DAYS :: u64 where "SEVEN_DAYS = 7 * 24 * 60 * 60"

definition fresh_message :: "u64 \<Rightarrow> bytes \<Rightarrow> bytes \<Rightarrow> bytes \<Rightarrow> protocol_message" where
  "fresh_message now to from payload = \<lparr> pm_to = to, pm_from = from, pm_sealed_sender = [],
     pm_payload = payload, pm_timestamp = now, pm_ttl = SEVEN_DAYS, pm_msg_type = Direct, pm_signature = [] \<rparr>"

definition new_direct_signed ::
  "prims \<Rightarrow> u64 \<Rightarrow> bytes \<Rightarrow> bytes \<Rightarrow> bytes \<Rightarrow> bytes \<Rightarrow> protocol_error + protocol_message" where
  "new_direct_signed P now to from payload keypair =
     (let m = fresh_message now to from payload in
      case kp_sign P keypair (direct_signing_bytes m) of
        None \<Rightarrow> Inl InvalidSender
      | Some sig \<Rightarrow> Inr (m\<lparr> pm_signature := sig \<rparr>))"

definition new_direct_deniable :: "u64 \<Rightarrow> bytes \<Rightarrow> bytes \<Rightarrow> bytes \<Rightarrow> protocol_message" where
  "new_direct_deniable now to from payload = fresh_message now to from payload"

definition new_sealed ::
  "prims \<Rightarrow> u64 \<Rightarrow> bytes \<Rightarrow> bytes \<Rightarrow> bytes \<Rightarrow> bytes \<Rightarrow> bytes \<Rightarrow> bytes \<Rightarrow> protocol_error + protocol_message" where
  "new_sealed P now eph to sender_pid payload keypair recipient_pub =
     (let m = fresh_message now to [] payload in
      case kp_sign P keypair (sealed_signing_bytes m sender_pid) of
        None \<Rightarrow> Inl InvalidSender
      | Some sig \<Rightarrow>
          (case seal_sender_cert P eph recipient_pub (push_bytes (push_bytes [] sender_pid) sig) of
             Inl _ \<Rightarrow> Inl SealDecryptFailed
           | Inr sealed \<Rightarrow> Inr (m\<lparr> pm_sealed_sender := sealed \<rparr>)))"

definition new_sealed_deniable ::
  "prims \<Rightarrow> u64 \<Rightarrow> bytes \<Rightarrow> bytes \<Rightarrow> bytes \<Rightarrow> bytes \<Rightarrow> bytes \<Rightarrow> protocol_error + protocol_message" where
  "new_sealed_deniable P now eph to sender_pid payload recipient_pub =
     (case seal_sender_cert P eph recipient_pub (push_bytes (push_bytes [] sender_pid) []) of
        Inl _ \<Rightarrow> Inl SealDecryptFailed
      | Inr sealed \<Rightarrow> Inr ((fresh_message now to [] payload)\<lparr> pm_sealed_sender := sealed \<rparr>))"

section \<open>Checking envelopes\<close>

definition is_sealed :: "protocol_message \<Rightarrow> bool" where
  "is_sealed m \<longleftrightarrow> pm_sealed_sender m \<noteq> []"

definition is_deniable_direct :: "protocol_message \<Rightarrow> bool" where
  "is_deniable_direct m \<longleftrightarrow> \<not> is_sealed m \<and> pm_signature m = [] \<and> pm_from m \<noteq> []"

definition verify :: "prims \<Rightarrow> protocol_message \<Rightarrow> protocol_error + bytes" where
  "verify P m =
     (if is_sealed m then Inl EnvelopeIsSealed
      else if \<not> peer_valid P (pm_from m) then Inl InvalidSender
      else if pm_signature m = [] then Inr (pm_from m)
      else case extract_inline_pubkey P (pm_from m) of
             Inl e \<Rightarrow> Inl e
           | Inr pk \<Rightarrow>
               if pk_verify P pk (direct_signing_bytes m) (pm_signature m) then Inr (pm_from m)
               else Inl BadSignature)"

definition parse_sender_cert :: "bytes \<Rightarrow> (bytes \<times> bytes) option" where
  "parse_sender_cert cert =
     (case pop_bytes cert of
        None \<Rightarrow> None
      | Some (pid, cur) \<Rightarrow>
          (case pop_bytes cur of
             None \<Rightarrow> None
           | Some (sig, rest) \<Rightarrow> if rest \<noteq> [] then None else Some (pid, sig)))"

definition verify_sealed :: "prims \<Rightarrow> bytes \<Rightarrow> protocol_message \<Rightarrow> protocol_error + bytes" where
  "verify_sealed P recipient_priv m =
     (if \<not> is_sealed m then Inl EnvelopeNotSealed
      else case unseal_sender_cert P recipient_priv (pm_sealed_sender m) of
        Inl _ \<Rightarrow> Inl SealDecryptFailed
      | Inr cert \<Rightarrow>
          (case parse_sender_cert cert of
             None \<Rightarrow> Inl MalformedSealedCert
           | Some (pid, sig) \<Rightarrow>
               if \<not> peer_valid P pid then Inl InvalidSender
               else if sig = [] then Inr pid
               else case extract_inline_pubkey P pid of
                 Inl e \<Rightarrow> Inl e
               | Inr pk \<Rightarrow>
                   if pk_verify P pk (sealed_signing_bytes m pid) sig then Inr pid else Inl BadSignature))"

text \<open>\<open>current_timestamp() > self.timestamp + self.ttl\<close> on \<open>i64\<close>.\<close>
definition is_expired :: "u64 \<Rightarrow> protocol_message \<Rightarrow> bool" where
  "is_expired now m \<longleftrightarrow> sint (pm_timestamp m + pm_ttl m) < sint now"


section \<open>Facts about the layouts\<close>

definition short_fields :: "protocol_message \<Rightarrow> bytes \<Rightarrow> bool" where
  "short_fields m sender \<longleftrightarrow>
     length (pm_to m) < 2 ^ 32 \<and> length sender < 2 ^ 32 \<and> length (pm_payload m) < 2 ^ 32"

lemma msg_type_byte_inject: "msg_type_byte a = msg_type_byte b \<longleftrightarrow> a = b"
  by (cases a; cases b) auto

lemma signing_layout_eq:
  "signing_layout tag s m = tag @ push_bytes [] (pm_to m) @ push_bytes [] s @ push_bytes [] (pm_payload m)
     @ be64 (pm_timestamp m) @ be64 (pm_ttl m) @ [msg_type_byte (pm_msg_type m)]"
  by (simp add: signing_layout_def push_bytes_def)

lemma signing_layouts:
  "direct_signing_bytes m = signing_layout DOMAIN_SEPARATOR (pm_from m) m"
  "sealed_signing_bytes m s = signing_layout SEALED_DOMAIN_SEPARATOR s m"
  by (simp_all add: direct_signing_bytes_def sealed_signing_bytes_def signing_layout_def)

lemma signing_layout_inject:
  assumes "short_fields m s" "short_fields m' s'"
  shows "signing_layout tag s m = signing_layout tag s' m' \<longleftrightarrow>
     s = s' \<and> pm_to m = pm_to m' \<and> pm_payload m = pm_payload m' \<and> pm_timestamp m = pm_timestamp m'
     \<and> pm_ttl m = pm_ttl m' \<and> pm_msg_type m = pm_msg_type m'"
  using assms by (auto simp: signing_layout_eq pb.lp_prefix_free pb.lp_inject short_fields_def append_eq_same_length msg_type_byte_inject)

text \<open>C27: A direct signature covers every field of the envelope that routes or dates it: two
  envelopes have the same signed bytes only if recipient, sender, payload, timestamp, TTL and
  type all agree.\<close>
theorem direct_signing_inject:
  assumes "short_fields m (pm_from m)" "short_fields m' (pm_from m')"
    and "direct_signing_bytes m = direct_signing_bytes m'"
  shows "m'\<lparr> pm_sealed_sender := pm_sealed_sender m, pm_signature := pm_signature m \<rparr> = m"
  using assms signing_layout_inject [OF assms(1,2), of DOMAIN_SEPARATOR]
  by (cases m; cases m') (simp add: signing_layouts)

theorem direct_signing_inject_witness:
  "direct_signing_bytes (fresh_message 1 [2, 3] [4] []) \<noteq> direct_signing_bytes (fresh_message 1 [2] [3, 4] [])"
  using direct_signing_inject [of "fresh_message 1 [2, 3] [4] []" "fresh_message 1 [2] [3, 4] []"]
  by (auto simp: fresh_message_def short_fields_def)

text \<open>No byte string is both a direct and a sealed signing input, so a signature made on one path
  never verifies on the other.\<close>
lemma direct_sealed_disjoint:
  "direct_signing_bytes m \<noteq> sealed_signing_bytes m' s"
proof
  assume "direct_signing_bytes m = sealed_signing_bytes m' s"
  then have "take 6 (direct_signing_bytes m) = take 6 (sealed_signing_bytes m' s)" by simp
  moreover have "take 6 (direct_signing_bytes m) = ascii ''ME55-d''"
    by (simp add: signing_layouts signing_layout_eq DOMAIN_SEPARATOR_def ascii_def)
  moreover have "take 6 (sealed_signing_bytes m' s) = ascii ''ME55-s''"
    by (simp add: signing_layouts signing_layout_eq SEALED_DOMAIN_SEPARATOR_def ascii_def)
  ultimately show False by (simp add: ascii_def)
qed

lemma peer_key_signD:
  assumes "peer_key_correct P kp" "kp_sign P kp b = Some s"
  shows "s \<noteq> []" "length s < 2 ^ 32" "peer_valid P (kp_peer P kp)"
    "\<exists>pk. extract_inline_pubkey P (kp_peer P kp) = Inr pk \<and> pk_verify P pk b s"
proof -
  obtain d pk where k: "peer_valid P (kp_peer P kp)" "peer_inline P (kp_peer P kp) = Some d"
    "pk_decode P d = Some pk"
    "\<And>m. \<exists>s. kp_sign P kp m = Some s \<and> s \<noteq> [] \<and> length s < 2 ^ 32 \<and> pk_verify P pk m s"
    using assms(1) by (auto simp: peer_key_correct_def)
  then show "s \<noteq> []" "length s < 2 ^ 32" "peer_valid P (kp_peer P kp)"
    "\<exists>pk. extract_inline_pubkey P (kp_peer P kp) = Inr pk \<and> pk_verify P pk b s"
    using k(4) [of b] assms(2) by (auto simp: extract_inline_pubkey_def)
qed

text \<open>An envelope built by \<open>new_direct_signed\<close> with the sender's own key verifies and names
  that sender.\<close>
lemma direct_roundtrip:
  assumes "peer_key_correct P kp" and "new_direct_signed P now to (kp_peer P kp) payload kp = Inr m"
  shows "verify P m = Inr (kp_peer P kp) \<and> pm_to m = to \<and> pm_payload m = payload"
proof -
  let ?m0 = "fresh_message now to (kp_peer P kp) payload"
  obtain sig where sig: "kp_sign P kp (direct_signing_bytes ?m0) = Some sig" "m = ?m0\<lparr> pm_signature := sig \<rparr>"
    using assms(2) by (auto simp: new_direct_signed_def Let_def split: option.splits)
  have "direct_signing_bytes m = direct_signing_bytes ?m0" by (simp add: sig(2) direct_signing_bytes_def)
  then show ?thesis using peer_key_signD [OF assms(1) sig(1)]
    by (auto simp: verify_def is_sealed_def sig(2) fresh_message_def)
qed

lemma parse_sender_cert_push [simp]:
  "length pid < 2 ^ 32 \<Longrightarrow> length sig < 2 ^ 32 \<Longrightarrow>
     parse_sender_cert (push_bytes (push_bytes [] pid) sig) = Some (pid, sig)"
proof -
  assume "length pid < 2 ^ 32" "length sig < 2 ^ 32"
  moreover have "push_bytes (push_bytes [] pid) sig = push_bytes [] pid @ push_bytes [] sig @ []"
    using pb.push_append [of "push_bytes [] pid"] by simp
  ultimately show ?thesis by (simp only: parse_sender_cert_def pop_push option.case prod.case) simp
qed

lemma sealed_opens:
  assumes "aead_correct P" "aead_tagged P" "dh_agree P" "length (x25519_pub P eph) = 32"
    and "peer_key_correct P kp" "length (kp_peer P kp) < 2 ^ 32"
    and "new_sealed P now eph to (kp_peer P kp) payload kp (x25519_pub P priv) = Inr m
       \<or> new_sealed_deniable P now eph to (kp_peer P kp) payload (x25519_pub P priv) = Inr m"
  shows "verify_sealed P priv m = Inr (kp_peer P kp) \<and> is_sealed m \<and> pm_from m = [] \<and> pm_signature m = []
     \<and> pm_payload m = payload \<and> pm_timestamp m = now \<and> pm_ttl m = SEVEN_DAYS"
proof -
  let ?pid = "kp_peer P kp" and ?m0 = "fresh_message now to [] payload"
  have "\<exists>sig sealed. (sig = [] \<or> kp_sign P kp (sealed_signing_bytes ?m0 ?pid) = Some sig)
     \<and> seal_sender_cert P eph (x25519_pub P priv) (push_bytes (push_bytes [] ?pid) sig) = Inr sealed
     \<and> m = ?m0\<lparr> pm_sealed_sender := sealed \<rparr>"
    using assms(7)
  proof
    assume "new_sealed P now eph to ?pid payload kp (x25519_pub P priv) = Inr m"
    then show ?thesis by (force simp: new_sealed_def Let_def split: option.splits sum.splits)
  next
    assume "new_sealed_deniable P now eph to ?pid payload (x25519_pub P priv) = Inr m"
    then obtain sealed where
      "seal_sender_cert P eph (x25519_pub P priv) (push_bytes (push_bytes [] ?pid) []) = Inr sealed"
      "m = ?m0\<lparr> pm_sealed_sender := sealed \<rparr>"
      by (auto simp: new_sealed_deniable_def split: sum.splits)
    then show ?thesis by blast
  qed
  then obtain sig sealed where sig: "sig = [] \<or> kp_sign P kp (sealed_signing_bytes ?m0 ?pid) = Some sig"
    and seal: "seal_sender_cert P eph (x25519_pub P priv) (push_bytes (push_bytes [] ?pid) sig) = Inr sealed"
    and m: "m = ?m0\<lparr> pm_sealed_sender := sealed \<rparr>" by blast
  note rt = seal_roundtrip [OF assms(1-4) seal]
  have signed: "sealed_signing_bytes m ?pid = sealed_signing_bytes ?m0 ?pid"
    by (simp add: m sealed_signing_bytes_def)
  have len: "length sig < 2 ^ 32" using sig peer_key_signD(2) [OF assms(5)] by auto
  have valid: "peer_valid P ?pid" using assms(5) by (simp add: peer_key_correct_def)
  have chk: "sig \<noteq> [] \<Longrightarrow> \<exists>pk. extract_inline_pubkey P ?pid = Inr pk \<and> pk_verify P pk (sealed_signing_bytes m ?pid) sig"
    using sig peer_key_signD(4) [OF assms(5)] by (auto simp: signed)
  have seal_m: "pm_sealed_sender m = sealed" "pm_from m = []" "pm_signature m = []"
    by (simp_all add: m fresh_message_def)
  have "verify_sealed P priv m = Inr ?pid"
    using rt chk valid by (auto simp: verify_sealed_def is_sealed_def seal_m parse_sender_cert_push [OF assms(6) len])
  then show ?thesis using rt by (simp add: is_sealed_def seal_m) (simp add: m fresh_message_def)
qed

text \<open>C15: A sealed envelope, signed or deniable, opened with the recipient's private key names the
  sender that sealed it; the clear part of the envelope carries neither sender nor signature.\<close>
theorem sealed_roundtrip:
  assumes "aead_correct P" "aead_tagged P" "dh_agree P" "length (x25519_pub P eph) = 32"
    and "peer_key_correct P kp" "length (kp_peer P kp) < 2 ^ 32"
    and "new_sealed P now eph to (kp_peer P kp) payload kp (x25519_pub P priv) = Inr m
       \<or> new_sealed_deniable P now eph to (kp_peer P kp) payload (x25519_pub P priv) = Inr m"
  shows "verify_sealed P priv m = Inr (kp_peer P kp) \<and> is_sealed m \<and> pm_from m = [] \<and> pm_signature m = []"
  using sealed_opens [OF assms] by simp

theorem sealed_roundtrip_witness:
  "\<exists>m. new_sealed toy_prims 5 (replicate 32 1) [1] [6] [3] [6] (replicate 32 2) = Inr m
     \<and> verify_sealed toy_prims (replicate 32 2) m = Inr [6]"
proof -
  have "x25519_dh toy_prims (replicate 32 1) (replicate 32 2) = replicate 32 3" by code_simp
  moreover have "replicate 32 (3 :: byte) \<noteq> replicate 32 0" by simp
  ultimately obtain m where m: "new_sealed toy_prims 5 (replicate 32 1) [1] [6] [3] [6] (replicate 32 2) = Inr m"
    by (simp add: new_sealed_def seal_sender_cert_def case_prod_unfold Let_def)
  then show ?thesis
    using sealed_roundtrip [of toy_prims "replicate 32 1" "[6]" 5 "[1]" "[3]" "replicate 32 2" m] by simp
qed

text \<open>The checks prove nothing about an unsigned envelope: any byte string that parses as a PeerId
  is accepted as the sender of a direct envelope with an empty signature, and anyone who knows a
  recipient's public prekey can seal an envelope that verifies as coming from any sender.\<close>
lemma unsigned_accepted:
  assumes "aead_correct P" "aead_tagged P" "dh_agree P" "length (x25519_pub P eph) = 32"
    and "peer_valid P victim" "length victim < 2 ^ 32"
    and "new_sealed_deniable P now eph to victim payload (x25519_pub P priv) = Inr m"
  shows "verify P (new_direct_deniable now to victim payload) = Inr victim
     \<and> verify_sealed P priv m = Inr victim"
proof
  show "verify P (new_direct_deniable now to victim payload) = Inr victim"
    using assms(5) by (simp add: verify_def is_sealed_def new_direct_deniable_def fresh_message_def)
  note assms(7)
  then obtain sealed where
    seal: "seal_sender_cert P eph (x25519_pub P priv) (push_bytes (push_bytes [] victim) []) = Inr sealed"
    and m: "pm_sealed_sender m = sealed" by (auto simp: new_sealed_deniable_def split: sum.splits)
  then show "verify_sealed P priv m = Inr victim"
    using seal_roundtrip [OF assms(1-4) seal] assms(5,6) by (auto simp: verify_sealed_def is_sealed_def)
qed

end
