(* ===== verification/Group.thy ===== *)
theory Group
  imports Megolm Message "HOL-Library.List_Lexorder" "HOL-Library.Multiset"
begin

text \<open>
  \<open>src/src/protocol/group.rs\<close>: group rows, group messages, the \<open>GroupControl\<close> wire type, its
  canonical signed bytes, builders and verifiers.  Member lists are sorted with the
  lexicographic order on byte strings, which is Rust's \<open>Ord\<close> on \<open>&[u8]\<close>.  A group name is its
  UTF-8 bytes.
\<close>

definition GROUP_CTRL_DOMAIN_SEPARATOR :: bytes where
  "GROUP_CTRL_DOMAIN_SEPARATOR = ascii ''ME55-group-ctrl-v1''"

record group_row =
  gr_group_id :: bytes
  gr_name :: bytes
  gr_founder_pid :: bytes
  gr_epoch :: u64
  gr_created_at :: int

record group_stored_message =
  gm_id :: int
  gm_group_id :: bytes
  gm_sender :: bytes
  gm_plaintext :: bytes
  gm_timestamp :: int
  gm_ttl :: int

record group_message_envelope =
  ge_group_id :: bytes
  ge_msg :: encrypted_group_message

datatype group_control_error = GSerde | BadPeerId | NoInlinePubkey | GBadSignature | SignFailed

fun from_protocol_error :: "protocol_error \<Rightarrow> group_control_error" where
  "from_protocol_error InvalidSender = BadPeerId"
| "from_protocol_error NoInlinePublicKey = NoInlinePubkey"
| "from_protocol_error _ = BadPeerId"

datatype group_control =
    CreateGroup (gc_group_id: bytes) (gc_name: bytes) (gc_founder_pid: bytes)
      (gc_members: "bytes list") (gc_epoch: u64) (gc_sig: bytes)
  | MembershipUpdate (gc_group_id: bytes) (gc_added: "bytes list") (gc_removed: "bytes list")
      (gc_epoch: u64) (gc_sig: bytes)
  | SenderKeyDistribution (gc_group_id: bytes) (gc_bundle: sender_key_bundle) (gc_epoch: u64)
  | Leave (gc_group_id: bytes) (gc_leaver_pid: bytes) (gc_epoch: u64) (gc_sig: bytes)

definition build_group_ad :: "bytes \<Rightarrow> bytes \<Rightarrow> bytes" where
  "build_group_ad group_id sender_pid = group_id @ be32 (len32 sender_pid) @ sender_pid"

section \<open>Canonical bytes\<close>

definition push_lp :: "bytes \<Rightarrow> bytes \<Rightarrow> bytes" where
  "push_lp out b = (out @ be32 (len32 b)) @ b"

interpretation lp: lp_codec push_lp
  by unfold_locales (simp add: push_lp_def)

text \<open>The two loops over a sorted copy: the count, then every element with its length.\<close>
definition push_sorted :: "bytes \<Rightarrow> bytes list \<Rightarrow> bytes" where
  "push_sorted out xs = (let sorted = sort xs in foldl push_lp (out @ be32 (len32 sorted)) sorted)"

definition canonical_create_bytes :: "bytes \<Rightarrow> bytes \<Rightarrow> bytes \<Rightarrow> bytes list \<Rightarrow> u64 \<Rightarrow> bytes" where
  "canonical_create_bytes group_id name founder_pid members epoch =
     push_sorted (push_lp (push_lp (GROUP_CTRL_DOMAIN_SEPARATOR @ ascii ''create'' @ group_id) name) founder_pid
       @ be64 epoch) members"

definition canonical_update_bytes :: "bytes \<Rightarrow> bytes list \<Rightarrow> bytes list \<Rightarrow> u64 \<Rightarrow> bytes" where
  "canonical_update_bytes group_id added removed epoch =
     push_sorted (push_sorted (GROUP_CTRL_DOMAIN_SEPARATOR @ ascii ''update'' @ group_id @ be64 epoch) added) removed"

definition canonical_leave_bytes :: "bytes \<Rightarrow> bytes \<Rightarrow> u64 \<Rightarrow> bytes" where
  "canonical_leave_bytes group_id leaver_pid epoch =
     push_lp (GROUP_CTRL_DOMAIN_SEPARATOR @ ascii ''leave'' @ group_id) leaver_pid @ be64 epoch"

section \<open>Builders and verifiers\<close>

definition new_create_group ::
  "prims \<Rightarrow> bytes \<Rightarrow> bytes \<Rightarrow> bytes \<Rightarrow> bytes list \<Rightarrow> u64 \<Rightarrow> bytes \<Rightarrow> group_control_error + group_control" where
  "new_create_group P group_id name founder_pid members epoch kp =
     (case kp_sign P kp (canonical_create_bytes group_id name founder_pid members epoch) of
        None \<Rightarrow> Inl SignFailed
      | Some sig \<Rightarrow> Inr (CreateGroup group_id name founder_pid members epoch sig))"

definition new_membership_update ::
  "prims \<Rightarrow> bytes \<Rightarrow> bytes list \<Rightarrow> bytes list \<Rightarrow> u64 \<Rightarrow> bytes \<Rightarrow> group_control_error + group_control" where
  "new_membership_update P group_id added removed epoch kp =
     (case kp_sign P kp (canonical_update_bytes group_id added removed epoch) of
        None \<Rightarrow> Inl SignFailed
      | Some sig \<Rightarrow> Inr (MembershipUpdate group_id added removed epoch sig))"

definition new_sender_key_distribution :: "bytes \<Rightarrow> sender_key_bundle \<Rightarrow> u64 \<Rightarrow> group_control" where
  "new_sender_key_distribution group_id bundle epoch = SenderKeyDistribution group_id bundle epoch"

definition new_leave :: "prims \<Rightarrow> bytes \<Rightarrow> bytes \<Rightarrow> u64 \<Rightarrow> bytes \<Rightarrow> group_control_error + group_control" where
  "new_leave P group_id leaver_pid epoch kp =
     (case kp_sign P kp (canonical_leave_bytes group_id leaver_pid epoch) of
        None \<Rightarrow> Inl SignFailed
      | Some sig \<Rightarrow> Inr (Leave group_id leaver_pid epoch sig))"

definition verify_pid_sig :: "prims \<Rightarrow> bytes \<Rightarrow> bytes \<Rightarrow> bytes \<Rightarrow> group_control_error + unit" where
  "verify_pid_sig P pid bytes sig =
     (if \<not> peer_valid P pid then Inl BadPeerId
      else case extract_inline_pubkey P pid of
             Inl e \<Rightarrow> Inl (from_protocol_error e)
           | Inr pk \<Rightarrow> if pk_verify P pk bytes sig then Inr () else Inl GBadSignature)"

fun verify_signature :: "prims \<Rightarrow> group_control \<Rightarrow> group_control_error + unit" where
  "verify_signature P (CreateGroup gid name founder members epoch sig) =
     verify_pid_sig P founder (canonical_create_bytes gid name founder members epoch) sig"
| "verify_signature P (MembershipUpdate gid added removed epoch sig) = Inl GBadSignature"
| "verify_signature P (SenderKeyDistribution gid bundle epoch) = Inr ()"
| "verify_signature P (Leave gid leaver epoch sig) =
     verify_pid_sig P leaver (canonical_leave_bytes gid leaver epoch) sig"

fun verify_membership_update :: "prims \<Rightarrow> group_control \<Rightarrow> bytes \<Rightarrow> group_control_error + bytes" where
  "verify_membership_update P (MembershipUpdate gid added removed epoch sig) founder =
     (case verify_pid_sig P founder (canonical_update_bytes gid added removed epoch) sig of
        Inl e \<Rightarrow> Inl e
      | Inr _ \<Rightarrow> if peer_valid P founder then Inr founder else Inl BadPeerId)"
| "verify_membership_update P _ founder = Inl GBadSignature"


section \<open>Facts about the canonical bytes\<close>

abbreviation short32 :: "bytes \<Rightarrow> bool" where
  "short32 b \<equiv> length b < 2 ^ 32"

text \<open>The limits under which the \<open>as u32\<close> length casts are exact.\<close>
definition short_list :: "bytes list \<Rightarrow> bool" where
  "short_list xs \<longleftrightarrow> length xs < 2 ^ 32 \<and> list_all short32 xs"

lemma sort_eq_iff_mset: "sort xs = sort ys \<longleftrightarrow> mset xs = mset (ys :: 'a::linorder list)"
  by (metis mset_sort properties_for_sort sorted_sort)

lemma push_sorted_append: "push_sorted out xs = out @ push_sorted [] xs"
  by (simp add: push_sorted_def lp.lp_fold Let_def)

lemma push_sorted_free:
  assumes "short_list xs" "short_list ys"
  shows "push_sorted [] xs @ u = push_sorted [] ys @ v \<longleftrightarrow> mset xs = mset ys \<and> u = v"
proof -
  have "push_sorted [] zs @ w = be32 (len32 (sort zs)) @ concat (map (push_lp []) (sort zs)) @ w" for zs w
    by (simp add: push_sorted_def lp.lp_fold Let_def)
  moreover have "len32 (sort xs) = len32 (sort ys) \<longleftrightarrow> length xs = length ys"
    using assms by (simp add: len32_inject short_list_def)
  moreover have "concat (map (push_lp []) (sort xs)) @ u = concat (map (push_lp []) (sort ys)) @ v \<longleftrightarrow>
      sort xs = sort ys \<and> u = v" if "length xs = length ys"
    by (rule lp.lp_list_prefix_free) (use assms that in \<open>auto simp: short_list_def list_all_iff\<close>)
  ultimately show ?thesis using sort_eq_iff_mset [of xs ys]
    by (auto simp: append_eq_same_length dest: mset_eq_length)
qed

lemma canonical_create_eq:
  "canonical_create_bytes gid name founder members epoch =
     GROUP_CTRL_DOMAIN_SEPARATOR @ ascii ''create'' @ gid @ push_lp [] name @ push_lp [] founder @ be64 epoch
       @ push_sorted [] members"
  by (simp add: canonical_create_bytes_def push_sorted_append [of "_ @ _"] push_lp_def)

lemma canonical_update_eq:
  "canonical_update_bytes gid added removed epoch =
     GROUP_CTRL_DOMAIN_SEPARATOR @ ascii ''update'' @ gid @ be64 epoch @ push_sorted [] added @ push_sorted [] removed"
  unfolding canonical_update_bytes_def
  by (subst push_sorted_append, subst push_sorted_append) simp

lemma canonical_leave_eq:
  "canonical_leave_bytes gid leaver epoch =
     GROUP_CTRL_DOMAIN_SEPARATOR @ ascii ''leave'' @ gid @ push_lp [] leaver @ be64 epoch"
  by (simp add: canonical_leave_bytes_def push_lp_def)

section \<open>Properties\<close>

lemma ascii_ne: "ascii ''ME55-group-m'' \<noteq> ascii ''ME55-group-c''"
  by (simp add: ascii_def)

text \<open>C28: The founder's signature on a group creation covers the group id, name, founder, epoch and
  the member multiset, and its signature on a membership update covers the group id, the epoch and both
  member multisets, and nothing else: two control messages have the same signed bytes exactly when these
  agree, so the order of members is free and no field or member can be moved into another.\<close>
theorem group_bytes_inject:
  assumes "length gid = 32" "length gid' = 32" "short32 name" "short32 name'" "short32 founder" "short32 founder'"
    and "short_list members" "short_list members'" "short_list removed" "short_list removed'"
  shows "(canonical_create_bytes gid name founder members epoch = canonical_create_bytes gid' name' founder' members' epoch'
       \<longleftrightarrow> gid = gid' \<and> name = name' \<and> founder = founder' \<and> epoch = epoch' \<and> mset members = mset members')
     \<and> (canonical_update_bytes gid members removed epoch = canonical_update_bytes gid' members' removed' epoch'
       \<longleftrightarrow> gid = gid' \<and> epoch = epoch' \<and> mset members = mset members' \<and> mset removed = mset removed')"
proof
  show "canonical_create_bytes gid name founder members epoch = canonical_create_bytes gid' name' founder' members' epoch'
     \<longleftrightarrow> gid = gid' \<and> name = name' \<and> founder = founder' \<and> epoch = epoch' \<and> mset members = mset members'"
    using assms push_sorted_free [OF assms(7,8), of "[]" "[]"]
    by (auto simp: canonical_create_eq append_eq_same_length lp.lp_prefix_free)
  show "canonical_update_bytes gid members removed epoch = canonical_update_bytes gid' members' removed' epoch'
     \<longleftrightarrow> gid = gid' \<and> epoch = epoch' \<and> mset members = mset members' \<and> mset removed = mset removed'"
    using assms push_sorted_free [OF assms(9,10), of "[]" "[]"]
    by (auto simp: canonical_update_eq append_eq_same_length push_sorted_free)
qed

theorem group_bytes_inject_witness:
  "canonical_create_bytes (replicate 32 1) [2] [3] [[4], [5, 6]] 7
     = canonical_create_bytes (replicate 32 1) [2] [3] [[5, 6], [4]] 7
   \<and> canonical_create_bytes (replicate 32 1) [2, 3] [4] [[4], [5, 6]] 7
     \<noteq> canonical_create_bytes (replicate 32 1) [2] [3, 4] [[4], [5, 6]] 7
   \<and> canonical_update_bytes (replicate 32 1) [[4]] [] 7 \<noteq> canonical_update_bytes (replicate 32 1) [] [[4]] 7"
  using group_bytes_inject [of "replicate 32 1" "replicate 32 1" "[2]" "[2]" "[3]" "[3]" "[[4], [5, 6]]" "[[5, 6], [4]]" "[]" "[]" 7 7]
    group_bytes_inject [of "replicate 32 1" "replicate 32 1" "[2, 3]" "[2]" "[4]" "[3, 4]" "[[4], [5, 6]]" "[[4], [5, 6]]" "[]" "[]" 7 7]
    group_bytes_inject [of "replicate 32 1" "replicate 32 1" "[2]" "[2]" "[3]" "[3]" "[[4]]" "[]" "[]" "[[4]]" 7 7]
  by (simp add: short_list_def)

text \<open>The signed bytes of creations, updates and leaves never coincide, nor do they coincide
  with the signed bytes of a group message: a signature of one kind authorises no other kind.\<close>
lemma group_signatures_disjoint:
  "canonical_create_bytes g1 name founder members e1 \<noteq> canonical_update_bytes g2 added removed e2
   \<and> canonical_create_bytes g1 name founder members e1 \<noteq> canonical_leave_bytes g3 leaver e3
   \<and> canonical_update_bytes g2 added removed e2 \<noteq> canonical_leave_bytes g3 leaver e3
   \<and> canonical_sign_bytes i ad ct \<noteq> canonical_create_bytes g1 name founder members e1
   \<and> canonical_sign_bytes i ad ct \<noteq> canonical_update_bytes g2 added removed e2
   \<and> canonical_sign_bytes i ad ct \<noteq> canonical_leave_bytes g3 leaver e3"
proof -
  have t: "take 19 (canonical_create_bytes g1 name founder members e1) = ascii ''ME55-group-ctrl-v1c''"
    "take 19 (canonical_update_bytes g2 added removed e2) = ascii ''ME55-group-ctrl-v1u''"
    "take 19 (canonical_leave_bytes g3 leaver e3) = ascii ''ME55-group-ctrl-v1l''"
    by (simp_all add: canonical_create_eq canonical_update_eq canonical_leave_eq GROUP_CTRL_DOMAIN_SEPARATOR_def ascii_def)
  have "take 12 (canonical_sign_bytes i ad ct) = ascii ''ME55-group-m''"
    by (simp add: canonical_sign_bytes_def GROUP_MSG_DOMAIN_SEPARATOR_def ascii_def)
  moreover have "take 12 b = ascii ''ME55-group-c''"
    if "take 19 b \<in> {ascii ''ME55-group-ctrl-v1c'', ascii ''ME55-group-ctrl-v1u'', ascii ''ME55-group-ctrl-v1l''}" for b
  proof -
    obtain x where x: "take 19 b = x" by blast
    then have "take 12 b = take 12 x" by (auto simp: min_def)
    then show ?thesis using that unfolding x by (auto simp: ascii_def)
  qed
  ultimately have d: "canonical_sign_bytes i ad ct \<noteq> b"
    if "take 19 b \<in> {ascii ''ME55-group-ctrl-v1c'', ascii ''ME55-group-ctrl-v1u'', ascii ''ME55-group-ctrl-v1l''}" for b
    using that by (metis (no_types, lifting) ascii_ne)
  have "ascii ''ME55-group-ctrl-v1c'' \<noteq> ascii ''ME55-group-ctrl-v1u''"
    "ascii ''ME55-group-ctrl-v1c'' \<noteq> ascii ''ME55-group-ctrl-v1l''"
    "ascii ''ME55-group-ctrl-v1u'' \<noteq> ascii ''ME55-group-ctrl-v1l''"
    by (simp_all add: ascii_def)
  then show ?thesis using t d by (auto dest: arg_cong [of _ _ "take 19"])
qed


lemma verify_own_sig:
  "peer_key_correct P kp \<Longrightarrow> kp_sign P kp b = Some sig \<Longrightarrow> verify_pid_sig P (kp_peer P kp) b sig = Inr ()"
  using peer_key_signD [of P kp b sig] by (auto simp: verify_pid_sig_def)



end
