(* ===== verification/Mailbox.thy ===== *)
theory Mailbox
  imports Primitives
begin

text \<open>
  \<open>src/src/network/mailbox.rs\<close>: the hour slots of the DHT mailbox and the record keys derived
  from them.  A slot id is an \<open>i64\<close>; \<open>div_euclid\<close> by a positive constant is HOL's \<open>div\<close> on
  integers, and the big-endian bytes are those of the 64-bit word.
\<close>

definition SLOT_SECONDS :: int where "SLOT_SECONDS = 3600"
definition DEFAULT_DROP_TTL_SECS :: int where "DEFAULT_DROP_TTL_SECS = 7 * 24 * 3600"
definition REPUBLISH_AFTER_SECS :: int where "REPUBLISH_AFTER_SECS = 1800"

definition SLOT_KEY_DOMAIN :: bytes where "SLOT_KEY_DOMAIN = ascii ''ME55-mailbox-v1''"
definition DROP_KEY_DOMAIN :: bytes where "DROP_KEY_DOMAIN = ascii ''ME55-mailbox-drop-v1''"
definition ACK_KEY_DOMAIN :: bytes where "ACK_KEY_DOMAIN = ascii ''ME55-mailbox-ack-v1''"
definition SESSION_DROP_KEY_DOMAIN :: bytes where "SESSION_DROP_KEY_DOMAIN = ascii ''ME55-session-mailbox-drop-v1''"
definition SESSION_ACK_KEY_DOMAIN :: bytes where "SESSION_ACK_KEY_DOMAIN = ascii ''ME55-session-mailbox-ack-v1''"

definition slot_id_for :: "int \<Rightarrow> int" where
  "slot_id_for unix_seconds = unix_seconds div SLOT_SECONDS"

definition slot_be :: "int \<Rightarrow> bytes" where
  "slot_be slot = be64 (word_of_int slot)"

definition slot_kad_key :: "prims \<Rightarrow> bytes \<Rightarrow> int \<Rightarrow> bytes" where
  "slot_kad_key P recipient slot = sha256 P (SLOT_KEY_DOMAIN @ recipient @ slot_be slot)"

definition drop_kad_key :: "prims \<Rightarrow> bytes \<Rightarrow> bytes \<Rightarrow> int \<Rightarrow> bytes" where
  "drop_kad_key P recipient sender slot = sha256 P (DROP_KEY_DOMAIN @ recipient @ sender @ slot_be slot)"

definition ack_kad_key :: "prims \<Rightarrow> bytes \<Rightarrow> bytes \<Rightarrow> int \<Rightarrow> bytes" where
  "ack_kad_key P recipient sender slot = sha256 P (ACK_KEY_DOMAIN @ recipient @ sender @ slot_be slot)"

definition session_drop_kad_key :: "prims \<Rightarrow> bytes \<Rightarrow> int \<Rightarrow> bytes" where
  "session_drop_kad_key P session_id slot = sha256 P (SESSION_DROP_KEY_DOMAIN @ session_id @ slot_be slot)"

definition session_ack_kad_key :: "prims \<Rightarrow> bytes \<Rightarrow> int \<Rightarrow> bytes" where
  "session_ack_kad_key P session_id slot = sha256 P (SESSION_ACK_KEY_DOMAIN @ session_id @ slot_be slot)"

text \<open>\<open>x\<close> and \<open>y\<close> do not collide under the digest.\<close>
definition no_collision :: "prims \<Rightarrow> bytes \<Rightarrow> bytes \<Rightarrow> bool" where
  "no_collision P x y \<longleftrightarrow> (sha256 P x = sha256 P y \<longrightarrow> x = y)"

definition i64_range :: "int \<Rightarrow> bool" where
  "i64_range s \<longleftrightarrow> - (2 ^ 63) \<le> s \<and> s < 2 ^ 63"

lemma slot_be_inject: "i64_range s \<Longrightarrow> i64_range t \<Longrightarrow> slot_be s = slot_be t \<longleftrightarrow> s = t"
proof -
  assume r: "i64_range s" "i64_range t"
  have "sint (word_of_int x :: u64) = x" if "i64_range x" for x
    using that by (simp add: signed_of_int signed_take_bit_int_eq_self i64_range_def)
  then have "(word_of_int s :: u64) = word_of_int t \<longleftrightarrow> s = t" using r by metis
  then show ?thesis by (simp add: slot_be_def)
qed

text \<open>Slots tile time: a timestamp lies in the hour of its slot, later timestamps are never in an
  earlier slot, and consecutive hours are consecutive slots, also before 1970.\<close>
lemma slot_tiling:
  "slot_id_for t * 3600 \<le> t \<and> t < (slot_id_for t + 1) * 3600
   \<and> (t \<le> u \<longrightarrow> slot_id_for t \<le> slot_id_for u) \<and> slot_id_for (t + 3600) = slot_id_for t + 1"
  by (auto simp: slot_id_for_def SLOT_SECONDS_def zdiv_mono1)

text \<open>Unless SHA-256 collides on the two preimages, session-keyed drops of different sessions or
  different hours are at different keys, and never at a session ACK key; but the key of a session
  does not depend on the direction of the message: both peers drop at the same key in one hour.\<close>
lemma session_drop_key_inject:
  assumes "length a = 32" "length b = 32" "i64_range s" "i64_range t"
    and "no_collision P (SESSION_DROP_KEY_DOMAIN @ a @ slot_be s) (SESSION_DROP_KEY_DOMAIN @ b @ slot_be t)"
      "no_collision P (SESSION_DROP_KEY_DOMAIN @ a @ slot_be s) (SESSION_ACK_KEY_DOMAIN @ b @ slot_be t)"
  shows "(session_drop_kad_key P a s = session_drop_kad_key P b t \<longleftrightarrow> a = b \<and> s = t)
     \<and> session_drop_kad_key P a s \<noteq> session_ack_kad_key P b t"
proof -
  have "take 22 (SESSION_DROP_KEY_DOMAIN @ x) \<noteq> take 22 (SESSION_ACK_KEY_DOMAIN @ y)" for x y
    by (simp add: SESSION_DROP_KEY_DOMAIN_def SESSION_ACK_KEY_DOMAIN_def ascii_def)
  then have "SESSION_DROP_KEY_DOMAIN @ x \<noteq> SESSION_ACK_KEY_DOMAIN @ y" for x y by metis
  then show ?thesis using assms
    by (auto simp: session_drop_kad_key_def session_ack_kad_key_def no_collision_def
        append_eq_same_length slot_be_inject)
qed

end
