(* ===== verification/Store.thy ===== *)
theory Store
  imports Group "HOL-Library.Option_ord"
begin

text \<open>
  \<open>src/src/storage/store.rs\<close>: the SQLite message store.  A table is the list of its rows in
  rowid order; an \<open>INSERT\<close> appends, \<open>INSERT OR REPLACE\<close> removes the conflicting row and appends,
  \<open>ON CONFLICT DO UPDATE\<close> changes the row in place, \<open>ORDER BY\<close> is a stable sort.  The
  AUTOINCREMENT counters are part of the state.  \<open>chrono_time()\<close> is the argument \<open>now\<close> and the
  nonce that \<open>encrypt_at_rest\<close> draws is the argument \<open>nonce\<close>.  Failures of SQLite itself (disk,
  locking) are outside the model: the operations that can only fail that way return no error.
\<close>

definition AT_REST_VERSION :: byte where "AT_REST_VERSION = 1"
definition NONCE_LEN :: nat where "NONCE_LEN = 12"
definition OUTBOX_PEER_DOMAIN :: bytes where "OUTBOX_PEER_DOMAIN = ascii ''ME55-outbox-peer-v1''"

datatype store_error = EmptyBlob | UnknownVersion byte | BlobTooShort | AtRestAead | MalformedRow

section \<open>Rows and tables\<close>

record stored_message =
  sm_id :: int
  sm_sender :: bytes
  sm_recipient :: bytes
  sm_ciphertext :: bytes
  sm_timestamp :: int
  sm_ttl :: int

record contact_row =
  ct_peer :: bytes
  ct_public_key :: bytes
  ct_alias :: "bytes option"
  ct_created :: int

record prekey_row =
  pk_peer :: bytes
  pk_x25519 :: bytes
  pk_signature :: bytes
  pk_fetched :: int
  pk_ml_kem_ek :: "bytes option"

record blob_row =
  br_key :: "bytes \<times> bytes"     \<comment> \<open>\<open>(peer_id, [])\<close>, \<open>(group_id, [])\<close> or \<open>(group_id, peer_id)\<close>\<close>
  br_blob :: bytes
  br_updated :: int

record otpk_row =
  ok_id :: int
  ok_priv :: bytes
  ok_pub :: bytes
  ok_sig :: bytes
  ok_created :: int
  ok_served :: "int option"
  ok_consumed :: "int option"

record outbox_row =
  ob_id :: int
  ob_peer_tag :: bytes
  ob_ciphertext :: bytes
  ob_created :: int
  ob_ttl :: int
  ob_is_wire :: bool

record drop_row =
  dr_id :: int
  dr_recipient :: bytes
  dr_slot :: int
  dr_ciphertext :: bytes
  dr_created :: int
  dr_last_published :: int
  dr_expires :: int
  dr_acked :: "int option"

record cache_row =
  pc_peer :: bytes
  pc_multiaddr :: bytes
  pc_last_good :: int

record member_row =
  mb_group :: bytes
  mb_peer :: bytes
  mb_joined :: int

record store =
  st_dek :: bytes
  st_messages :: "stored_message list"
  st_message_seq :: int
  st_contacts :: "contact_row list"
  st_prekeys :: "prekey_row list"
  st_sessions :: "blob_row list"
  st_otpks :: "otpk_row list"
  st_otpk_seq :: int
  st_outbox :: "outbox_row list"
  st_outbox_seq :: int
  st_drops :: "drop_row list"
  st_drop_seq :: int
  st_last_polled :: "int option"
  st_peer_cache :: "cache_row list"
  st_groups :: "group_row list"
  st_members :: "member_row list"
  st_my_keys :: "blob_row list"
  st_their_keys :: "blob_row list"
  st_group_messages :: "stored_message list"
  st_group_message_seq :: int

text \<open>A store just created by \<open>open\<close> on an empty database.\<close>
definition empty_store :: "bytes \<Rightarrow> store" where
  "empty_store dek = \<lparr> st_dek = dek, st_messages = [], st_message_seq = 0, st_contacts = [], st_prekeys = [],
     st_sessions = [], st_otpks = [], st_otpk_seq = 0, st_outbox = [], st_outbox_seq = 0, st_drops = [],
     st_drop_seq = 0, st_last_polled = None, st_peer_cache = [], st_groups = [], st_members = [],
     st_my_keys = [], st_their_keys = [], st_group_messages = [], st_group_message_seq = 0 \<rparr>"

text \<open>\<open>INSERT OR REPLACE\<close>, \<open>ON CONFLICT DO UPDATE\<close> and a lookup by unique key.\<close>
definition replace_by :: "('r \<Rightarrow> 'k) \<Rightarrow> 'r \<Rightarrow> 'r list \<Rightarrow> 'r list" where
  "replace_by key r rows = filter (\<lambda>x. key x \<noteq> key r) rows @ [r]"

definition upsert_by :: "('r \<Rightarrow> 'k) \<Rightarrow> ('r \<Rightarrow> 'r) \<Rightarrow> 'r \<Rightarrow> 'r list \<Rightarrow> 'r list" where
  "upsert_by key merge r rows =
     (if list_ex (\<lambda>x. key x = key r) rows then map (\<lambda>x. if key x = key r then merge x else x) rows
      else rows @ [r])"

definition find_by :: "('r \<Rightarrow> 'k) \<Rightarrow> 'k \<Rightarrow> 'r list \<Rightarrow> 'r option" where
  "find_by key k rows = List.find (\<lambda>r. key r = k) rows"

lemma find_filter_None: "List.find P (filter (\<lambda>x. \<not> P x) xs) = None"
  by (simp add: find_None_iff)

lemma find_append: "List.find P (xs @ ys) = (case List.find P xs of None \<Rightarrow> List.find P ys | Some x \<Rightarrow> Some x)"
  by (induction xs) auto

lemma find_by_replace [simp]: "key r = k \<Longrightarrow> find_by key k (replace_by key r rows) = Some r"
  using find_filter_None [of "\<lambda>x. key x = k" rows]
  by (auto simp: find_by_def replace_by_def find_append)

lemma find_by_replace_other [simp]: "k \<noteq> key r \<Longrightarrow> find_by key k (replace_by key r rows) = find_by key k rows"
proof -
  assume "k \<noteq> key r"
  then have "List.find (\<lambda>x. key x = k) (filter (\<lambda>x. key x \<noteq> key r) rows) = List.find (\<lambda>x. key x = k) rows"
    by (induction rows) auto
  then show ?thesis using \<open>k \<noteq> key r\<close>
    by (simp add: find_by_def replace_by_def find_append split: option.splits)
qed

section \<open>Encryption at rest\<close>

definition encrypt_at_rest :: "prims \<Rightarrow> store \<Rightarrow> bytes \<Rightarrow> bytes \<Rightarrow> bytes" where
  "encrypt_at_rest P s nonce plaintext = AT_REST_VERSION # nonce @ aead_seal P (st_dek s) nonce [] plaintext"

definition decrypt_at_rest :: "prims \<Rightarrow> store \<Rightarrow> bytes \<Rightarrow> store_error + bytes" where
  "decrypt_at_rest P s blob =
     (case blob of
        [] \<Rightarrow> Inl EmptyBlob
      | version # rest \<Rightarrow>
          if version \<noteq> AT_REST_VERSION then Inl (UnknownVersion version)
          else if length rest < NONCE_LEN + 16 then Inl BlobTooShort
          else case aead_open P (st_dek s) (take NONCE_LEN rest) [] (drop NONCE_LEN rest) of
                 None \<Rightarrow> Inl AtRestAead | Some pt \<Rightarrow> Inr pt)"

lemma decrypt_at_rest_dek: "st_dek s' = st_dek s \<Longrightarrow> decrypt_at_rest P s' = decrypt_at_rest P s"
  by (auto simp: decrypt_at_rest_def fun_eq_iff split: list.splits)

lemma at_rest_roundtrip:
  "aead_correct P \<Longrightarrow> aead_tagged P \<Longrightarrow> length nonce = NONCE_LEN \<Longrightarrow> st_dek s' = st_dek s \<Longrightarrow>
     decrypt_at_rest P s' (encrypt_at_rest P s nonce pt) = Inr pt"
  by (simp add: decrypt_at_rest_def encrypt_at_rest_def)

section \<open>Messages and contacts\<close>

definition store_message :: "prims \<Rightarrow> bytes \<Rightarrow> int \<Rightarrow> store \<Rightarrow> bytes \<Rightarrow> bytes \<Rightarrow> bytes \<Rightarrow> int \<Rightarrow> int \<times> store" where
  "store_message P nonce now s sender recipient content ttl =
     (let i = st_message_seq s + 1 in
      (i, s\<lparr> st_message_seq := i, st_messages := st_messages s @ [\<lparr> sm_id = i, sm_sender = sender,
            sm_recipient = recipient, sm_ciphertext = encrypt_at_rest P s nonce content,
            sm_timestamp = now, sm_ttl = ttl \<rparr>] \<rparr>))"

definition decrypt_message_row :: "prims \<Rightarrow> store \<Rightarrow> stored_message \<Rightarrow> stored_message option" where
  "decrypt_message_row P s m =
     (case decrypt_at_rest P s (sm_ciphertext m) of
        Inl _ \<Rightarrow> None | Inr pt \<Rightarrow> Some (m\<lparr> sm_ciphertext := pt \<rparr>))"

definition get_messages :: "prims \<Rightarrow> store \<Rightarrow> bytes \<Rightarrow> stored_message list" where
  "get_messages P s recipient =
     List.map_filter (decrypt_message_row P s)
       (sort_key sm_timestamp (filter (\<lambda>m. sm_recipient m = recipient) (st_messages s)))"

definition get_recent_messages :: "prims \<Rightarrow> store \<Rightarrow> nat \<Rightarrow> stored_message list" where
  "get_recent_messages P s limit =
     List.map_filter (decrypt_message_row P s) (take limit (sort_key (\<lambda>m. - sm_timestamp m) (st_messages s)))"

definition in_conversation :: "bytes \<Rightarrow> bytes \<Rightarrow> stored_message \<Rightarrow> bool" where
  "in_conversation a b m \<longleftrightarrow> (sm_sender m = a \<and> sm_recipient m = b) \<or> (sm_sender m = b \<and> sm_recipient m = a)"

definition get_conversation :: "prims \<Rightarrow> store \<Rightarrow> bytes \<Rightarrow> bytes \<Rightarrow> nat \<Rightarrow> stored_message list" where
  "get_conversation P s peer1 peer2 limit =
     List.map_filter (decrypt_message_row P s)
       (take limit (sort_key sm_timestamp (filter (in_conversation peer1 peer2) (st_messages s))))"

definition cleanup_expired :: "int \<Rightarrow> store \<Rightarrow> nat \<times> store" where
  "cleanup_expired now s =
     (length (filter (\<lambda>m. sm_timestamp m + sm_ttl m < now) (st_messages s)),
      s\<lparr> st_messages := filter (\<lambda>m. \<not> sm_timestamp m + sm_ttl m < now) (st_messages s) \<rparr>)"

definition add_contact :: "int \<Rightarrow> store \<Rightarrow> bytes \<Rightarrow> bytes \<Rightarrow> bytes option \<Rightarrow> store" where
  "add_contact now s peer public_key alias =
     s\<lparr> st_contacts := replace_by ct_peer
          \<lparr> ct_peer = peer, ct_public_key = public_key, ct_alias = alias, ct_created = now \<rparr> (st_contacts s) \<rparr>"

definition get_contacts :: "store \<Rightarrow> (bytes \<times> bytes \<times> bytes option) list" where
  "get_contacts s = map (\<lambda>c. (ct_peer c, ct_public_key c, ct_alias c)) (sort_key ct_alias (st_contacts s))"

section \<open>Prekeys\<close>

definition save_prekey :: "int \<Rightarrow> store \<Rightarrow> bytes \<Rightarrow> bytes \<Rightarrow> bytes \<Rightarrow> store" where
  "save_prekey now s peer x25519 sig =
     s\<lparr> st_prekeys := upsert_by pk_peer (\<lambda>r. r\<lparr> pk_x25519 := x25519, pk_signature := sig, pk_fetched := now \<rparr>)
          \<lparr> pk_peer = peer, pk_x25519 = x25519, pk_signature = sig, pk_fetched = now, pk_ml_kem_ek = None \<rparr>
          (st_prekeys s) \<rparr>"

definition save_pq_prekey :: "store \<Rightarrow> bytes \<Rightarrow> bytes \<Rightarrow> store" where
  "save_pq_prekey s peer ek =
     s\<lparr> st_prekeys := map (\<lambda>r. if pk_peer r = peer then r\<lparr> pk_ml_kem_ek := Some ek \<rparr> else r) (st_prekeys s) \<rparr>"

definition load_pq_prekey :: "store \<Rightarrow> bytes \<Rightarrow> bytes option" where
  "load_pq_prekey s peer =
     (case find_by pk_peer peer (st_prekeys s) of None \<Rightarrow> None | Some r \<Rightarrow> pk_ml_kem_ek r)"

definition load_prekey :: "store \<Rightarrow> bytes \<Rightarrow> (bytes \<times> bytes) option" where
  "load_prekey s peer =
     (case find_by pk_peer peer (st_prekeys s) of
        None \<Rightarrow> None
      | Some r \<Rightarrow> if length (pk_x25519 r) \<noteq> 32 then None
                 else if length (pk_signature r) \<noteq> 64 then None
                 else Some (pk_x25519 r, pk_signature r))"


section \<open>Encrypted state blobs: sessions and group chains\<close>

definition save_session :: "prims \<Rightarrow> bytes \<Rightarrow> int \<Rightarrow> store \<Rightarrow> bytes \<Rightarrow> bytes \<Rightarrow> store" where
  "save_session P nonce now s peer state =
     s\<lparr> st_sessions := replace_by br_key
          \<lparr> br_key = (peer, []), br_blob = encrypt_at_rest P s nonce state, br_updated = now \<rparr> (st_sessions s) \<rparr>"

text \<open>\<open>Ok(None)\<close> for an unknown peer, an error when the row does not decrypt.\<close>
definition load_session :: "prims \<Rightarrow> store \<Rightarrow> bytes \<Rightarrow> store_error + bytes option" where
  "load_session P s peer =
     (case find_by br_key (peer, []) (st_sessions s) of
        None \<Rightarrow> Inr None
      | Some r \<Rightarrow> (case decrypt_at_rest P s (br_blob r) of Inl e \<Rightarrow> Inl e | Inr pt \<Rightarrow> Inr (Some pt)))"

definition my_sender_key_save :: "prims \<Rightarrow> bytes \<Rightarrow> int \<Rightarrow> store \<Rightarrow> bytes \<Rightarrow> bytes \<Rightarrow> store" where
  "my_sender_key_save P nonce now s gid state =
     s\<lparr> st_my_keys := replace_by br_key
          \<lparr> br_key = (gid, []), br_blob = encrypt_at_rest P s nonce state, br_updated = now \<rparr> (st_my_keys s) \<rparr>"

text \<open>A row that does not decrypt is skipped like a missing one.\<close>
definition my_sender_key_load :: "prims \<Rightarrow> store \<Rightarrow> bytes \<Rightarrow> bytes option" where
  "my_sender_key_load P s gid =
     (case find_by br_key (gid, []) (st_my_keys s) of
        None \<Rightarrow> None
      | Some r \<Rightarrow> (case decrypt_at_rest P s (br_blob r) of Inl _ \<Rightarrow> None | Inr pt \<Rightarrow> Some pt))"

definition their_sender_key_save :: "prims \<Rightarrow> bytes \<Rightarrow> int \<Rightarrow> store \<Rightarrow> bytes \<Rightarrow> bytes \<Rightarrow> bytes \<Rightarrow> store" where
  "their_sender_key_save P nonce now s gid peer state =
     s\<lparr> st_their_keys := replace_by br_key
          \<lparr> br_key = (gid, peer), br_blob = encrypt_at_rest P s nonce state, br_updated = now \<rparr> (st_their_keys s) \<rparr>"

definition their_sender_key_load :: "prims \<Rightarrow> store \<Rightarrow> bytes \<Rightarrow> bytes \<Rightarrow> bytes option" where
  "their_sender_key_load P s gid peer =
     (case find_by br_key (gid, peer) (st_their_keys s) of
        None \<Rightarrow> None
      | Some r \<Rightarrow> (case decrypt_at_rest P s (br_blob r) of Inl _ \<Rightarrow> None | Inr pt \<Rightarrow> Some pt))"

definition their_sender_key_delete :: "store \<Rightarrow> bytes \<Rightarrow> bytes \<Rightarrow> store" where
  "their_sender_key_delete s gid peer =
     s\<lparr> st_their_keys := filter (\<lambda>r. br_key r \<noteq> (gid, peer)) (st_their_keys s) \<rparr>"

text \<open>The contract of these tables: the last value saved under a key is the one loaded.\<close>
locale keyed_store =
  fixes save :: "'k \<Rightarrow> 'v \<Rightarrow> 's \<Rightarrow> 's" and load :: "'k \<Rightarrow> 's \<Rightarrow> 'r"
    and loaded :: "'v \<Rightarrow> 'r" and valid :: "'v \<Rightarrow> bool"
  assumes load_save: "valid v \<Longrightarrow> load k (save k v s) = loaded v"
    and load_save_other: "k \<noteq> k' \<Longrightarrow> load k (save k' v s) = load k s"
begin

definition save_all :: "('k \<times> 'v) list \<Rightarrow> 's \<Rightarrow> 's" where
  "save_all kvs s = foldl (\<lambda>s kv. save (fst kv) (snd kv) s) s kvs"

lemma last_save_wins:
  assumes "\<forall>kv \<in> set kvs. valid (snd kv)"
  shows "load k (save_all kvs s) = (case map_of (rev kvs) k of None \<Rightarrow> load k s | Some v \<Rightarrow> loaded v)"
  using assms
proof (induction kvs rule: rev_induct)
  case (snoc kv kvs)
  then show ?case by (cases "fst kv = k") (auto simp: save_all_def load_save load_save_other)
qed (simp add: save_all_def)

end

text \<open>What is saved: nonce, time and plaintext.\<close>
definition valid_save :: "prims \<Rightarrow> bytes \<times> int \<times> bytes \<Rightarrow> bool" where
  "valid_save P v \<longleftrightarrow> aead_correct P \<and> aead_tagged P \<and> length (fst v) = NONCE_LEN"

lemma decrypt_at_rest_tables [simp]:
  "decrypt_at_rest P (s\<lparr> st_sessions := x \<rparr>) = decrypt_at_rest P s"
  "decrypt_at_rest P (s\<lparr> st_my_keys := x \<rparr>) = decrypt_at_rest P s"
  "decrypt_at_rest P (s\<lparr> st_their_keys := x \<rparr>) = decrypt_at_rest P s"
  by (auto simp: decrypt_at_rest_def fun_eq_iff split: list.splits)

interpretation sess: keyed_store
  "\<lambda>k v s. save_session P (fst v) (fst (snd v)) s k (snd (snd v))" "\<lambda>k s. load_session P s k"
  "\<lambda>v. Inr (Some (snd (snd v)))" "valid_save P" for P
proof
  fix v k and s :: store
  assume "valid_save P v"
  then show "load_session P (save_session P (fst v) (fst (snd v)) s k (snd (snd v))) k = Inr (Some (snd (snd v)))"
    using at_rest_roundtrip [of P "fst v" s s]
    by (simp add: load_session_def save_session_def valid_save_def)
qed (simp add: load_session_def save_session_def split: option.split)

interpretation mykey: keyed_store
  "\<lambda>k v s. my_sender_key_save P (fst v) (fst (snd v)) s k (snd (snd v))" "\<lambda>k s. my_sender_key_load P s k"
  "\<lambda>v. Some (snd (snd v))" "valid_save P" for P
proof
  fix v k and s :: store
  assume "valid_save P v"
  then show "my_sender_key_load P (my_sender_key_save P (fst v) (fst (snd v)) s k (snd (snd v))) k = Some (snd (snd v))"
    using at_rest_roundtrip [of P "fst v" s s]
    by (simp add: my_sender_key_load_def my_sender_key_save_def valid_save_def)
qed (simp add: my_sender_key_load_def my_sender_key_save_def split: option.split)

interpretation theirkey: keyed_store
  "\<lambda>k v s. their_sender_key_save P (fst v) (fst (snd v)) s (fst k) (snd k) (snd (snd v))"
  "\<lambda>k s. their_sender_key_load P s (fst k) (snd k)" "\<lambda>v. Some (snd (snd v))" "valid_save P" for P
proof
  fix v and k :: "bytes \<times> bytes" and s :: store
  assume "valid_save P v"
  then show "their_sender_key_load P (their_sender_key_save P (fst v) (fst (snd v)) s (fst k) (snd k) (snd (snd v)))
      (fst k) (snd k) = Some (snd (snd v))"
    using at_rest_roundtrip [of P "fst v" s s]
    by (simp add: their_sender_key_load_def their_sender_key_save_def valid_save_def)
qed (simp add: their_sender_key_load_def their_sender_key_save_def prod_eq_iff split: option.split)

section \<open>One-time prekeys\<close>

definition add_my_otpk :: "prims \<Rightarrow> bytes \<Rightarrow> int \<Rightarrow> store \<Rightarrow> bytes \<Rightarrow> bytes \<Rightarrow> bytes \<Rightarrow> int \<times> store" where
  "add_my_otpk P nonce now s priv pub sig =
     (let i = st_otpk_seq s + 1 in
      (i, s\<lparr> st_otpk_seq := i, st_otpks := st_otpks s @ [\<lparr> ok_id = i, ok_priv = encrypt_at_rest P s nonce priv,
            ok_pub = pub, ok_sig = sig, ok_created = now, ok_served = None, ok_consumed = None \<rparr>] \<rparr>))"

definition unused_otpk_count :: "store \<Rightarrow> nat" where
  "unused_otpk_count s = length (filter (\<lambda>r. ok_served r = None) (st_otpks s))"

text \<open>\<open>UPDATE ... WHERE id = (SELECT ... ORDER BY id ASC LIMIT 1) RETURNING ...\<close>: the row is marked
  before its widths are checked.\<close>
definition pop_unused_otpk :: "int \<Rightarrow> store \<Rightarrow> (store_error + (int \<times> bytes \<times> bytes) option) \<times> store" where
  "pop_unused_otpk now s =
     (case sort_key ok_id (filter (\<lambda>r. ok_served r = None) (st_otpks s)) of
        [] \<Rightarrow> (Inr None, s)
      | r # _ \<Rightarrow>
          (if length (ok_pub r) \<noteq> 32 then Inl MalformedRow
           else if length (ok_sig r) \<noteq> 64 then Inl MalformedRow
           else Inr (Some (ok_id r, ok_pub r, ok_sig r)),
           s\<lparr> st_otpks := map (\<lambda>x. if ok_id x = ok_id r then x\<lparr> ok_served := Some now \<rparr> else x) (st_otpks s) \<rparr>))"

definition load_otpk_private :: "prims \<Rightarrow> store \<Rightarrow> int \<Rightarrow> store_error + bytes option" where
  "load_otpk_private P s i =
     (case List.find (\<lambda>r. ok_id r = i \<and> ok_consumed r = None) (st_otpks s) of
        None \<Rightarrow> Inr None
      | Some r \<Rightarrow>
          (case decrypt_at_rest P s (ok_priv r) of
             Inl e \<Rightarrow> Inl e
           | Inr plain \<Rightarrow> if length plain \<noteq> 32 then Inl MalformedRow else Inr (Some plain)))"

definition mark_otpk_consumed :: "int \<Rightarrow> store \<Rightarrow> int \<Rightarrow> store" where
  "mark_otpk_consumed now s i =
     s\<lparr> st_otpks := map (\<lambda>x. if ok_id x = i then x\<lparr> ok_consumed := Some now \<rparr> else x) (st_otpks s) \<rparr>"

definition delete_otpk :: "store \<Rightarrow> int \<Rightarrow> store" where
  "delete_otpk s i = s\<lparr> st_otpks := filter (\<lambda>x. ok_id x \<noteq> i) (st_otpks s) \<rparr>"

section \<open>Outbox\<close>

definition outbox_peer_tag :: "prims \<Rightarrow> bytes \<Rightarrow> bytes \<Rightarrow> bytes" where
  "outbox_peer_tag P dek peer = hmac_sha256 P dek (OUTBOX_PEER_DOMAIN @ peer)"

definition outbox_insert :: "prims \<Rightarrow> bytes \<Rightarrow> int \<Rightarrow> bool \<Rightarrow> store \<Rightarrow> bytes \<Rightarrow> bytes \<Rightarrow> int \<Rightarrow> int \<times> store" where
  "outbox_insert P nonce now wire s peer content ttl =
     (let i = st_outbox_seq s + 1 in
      (i, s\<lparr> st_outbox_seq := i, st_outbox := st_outbox s @ [\<lparr> ob_id = i,
            ob_peer_tag = outbox_peer_tag P (st_dek s) peer, ob_ciphertext = encrypt_at_rest P s nonce content,
            ob_created = now, ob_ttl = ttl, ob_is_wire = wire \<rparr>] \<rparr>))"

definition outbox_add :: "prims \<Rightarrow> bytes \<Rightarrow> int \<Rightarrow> store \<Rightarrow> bytes \<Rightarrow> bytes \<Rightarrow> int \<Rightarrow> int \<times> store" where
  "outbox_add P nonce now s peer plaintext ttl = outbox_insert P nonce now False s peer plaintext ttl"

definition outbox_add_wire :: "prims \<Rightarrow> bytes \<Rightarrow> int \<Rightarrow> store \<Rightarrow> bytes \<Rightarrow> bytes \<Rightarrow> int \<Rightarrow> int \<times> store" where
  "outbox_add_wire P nonce now s peer wire_bytes ttl = outbox_insert P nonce now True s peer wire_bytes ttl"

definition outbox_get_for :: "prims \<Rightarrow> store \<Rightarrow> bytes \<Rightarrow> (int \<times> bytes \<times> bool) list" where
  "outbox_get_for P s peer =
     List.map_filter (\<lambda>r. case decrypt_at_rest P s (ob_ciphertext r) of
                            Inl _ \<Rightarrow> None | Inr content \<Rightarrow> Some (ob_id r, content, ob_is_wire r))
       (sort_key ob_id (filter (\<lambda>r. ob_peer_tag r = outbox_peer_tag P (st_dek s) peer) (st_outbox s)))"

definition outbox_delete :: "store \<Rightarrow> int \<Rightarrow> store" where
  "outbox_delete s i = s\<lparr> st_outbox := filter (\<lambda>r. ob_id r \<noteq> i) (st_outbox s) \<rparr>"

definition outbox_cleanup_expired :: "int \<Rightarrow> store \<Rightarrow> nat \<times> store" where
  "outbox_cleanup_expired now s =
     (length (filter (\<lambda>r. ob_created r + ob_ttl r < now) (st_outbox s)),
      s\<lparr> st_outbox := filter (\<lambda>r. \<not> ob_created r + ob_ttl r < now) (st_outbox s) \<rparr>)"

section \<open>Mailbox drops\<close>

definition mailbox_drop_record :: "prims \<Rightarrow> bytes \<Rightarrow> int \<Rightarrow> store \<Rightarrow> bytes \<Rightarrow> int \<Rightarrow> bytes \<Rightarrow> int \<Rightarrow> int \<times> store" where
  "mailbox_drop_record P nonce now s recipient slot wire expires_at =
     (let i = st_drop_seq s + 1 in
      (i, s\<lparr> st_drop_seq := i, st_drops := st_drops s @ [\<lparr> dr_id = i, dr_recipient = recipient, dr_slot = slot,
            dr_ciphertext = encrypt_at_rest P s nonce wire, dr_created = now, dr_last_published = now,
            dr_expires = expires_at, dr_acked = None \<rparr>] \<rparr>))"

definition mailbox_drop_touch :: "int \<Rightarrow> store \<Rightarrow> int \<Rightarrow> store" where
  "mailbox_drop_touch now s i =
     s\<lparr> st_drops := map (\<lambda>r. if dr_id r = i then r\<lparr> dr_last_published := now \<rparr> else r) (st_drops s) \<rparr>"

definition mailbox_drop_ack :: "int \<Rightarrow> store \<Rightarrow> int \<Rightarrow> store" where
  "mailbox_drop_ack now s i =
     s\<lparr> st_drops := map (\<lambda>r. if dr_id r = i then r\<lparr> dr_acked := Some now \<rparr> else r) (st_drops s) \<rparr>"

definition drop_due :: "int \<Rightarrow> int \<Rightarrow> drop_row \<Rightarrow> bool" where
  "drop_due now republish_after r \<longleftrightarrow>
     dr_acked r = None \<and> dr_last_published r < now - republish_after \<and> now < dr_expires r"

definition mailbox_drops_due_for_republish :: "prims \<Rightarrow> int \<Rightarrow> store \<Rightarrow> int \<Rightarrow> (int \<times> bytes \<times> int \<times> bytes) list" where
  "mailbox_drops_due_for_republish P now s republish_after =
     List.map_filter (\<lambda>r. case decrypt_at_rest P s (dr_ciphertext r) of
                            Inl _ \<Rightarrow> None | Inr plain \<Rightarrow> Some (dr_id r, dr_recipient r, dr_slot r, plain))
       (sort_key dr_last_published (filter (drop_due now republish_after) (st_drops s)))"

definition mailbox_drops_cleanup :: "int \<Rightarrow> store \<Rightarrow> nat \<times> store" where
  "mailbox_drops_cleanup now s =
     (let gone = (\<lambda>r. dr_expires r < now \<or> (case dr_acked r of None \<Rightarrow> False | Some t \<Rightarrow> t < now - 86400)) in
      (length (filter gone (st_drops s)), s\<lparr> st_drops := filter (\<lambda>r. \<not> gone r) (st_drops s) \<rparr>))"

definition mailbox_last_polled_slot :: "store \<Rightarrow> int" where
  "mailbox_last_polled_slot s = (case st_last_polled s of None \<Rightarrow> 0 | Some v \<Rightarrow> v)"

definition mailbox_set_last_polled_slot :: "store \<Rightarrow> int \<Rightarrow> store" where
  "mailbox_set_last_polled_slot s slot = s\<lparr> st_last_polled := Some slot \<rparr>"

section \<open>Groups\<close>

text \<open>\<open>epoch as i64\<close> on the way in and \<open>as u64\<close> on the way out are inverse, so the row keeps the
  \<open>u64\<close> itself.\<close>
definition group_upsert :: "int \<Rightarrow> store \<Rightarrow> bytes \<Rightarrow> bytes \<Rightarrow> bytes \<Rightarrow> u64 \<Rightarrow> store" where
  "group_upsert now s gid name founder epoch =
     s\<lparr> st_groups := upsert_by gr_group_id
          (\<lambda>r. r\<lparr> gr_name := name, gr_founder_pid := founder, gr_epoch := epoch \<rparr>)
          \<lparr> gr_group_id = gid, gr_name = name, gr_founder_pid = founder, gr_epoch = epoch, gr_created_at = now \<rparr>
          (st_groups s) \<rparr>"

text \<open>\<open>group_row_from_db\<close> drops a row whose id is not 32 bytes.\<close>
definition group_row_ok :: "group_row \<Rightarrow> bool" where
  "group_row_ok r \<longleftrightarrow> length (gr_group_id r) = 32"

definition group_get :: "store \<Rightarrow> bytes \<Rightarrow> group_row option" where
  "group_get s gid =
     (case find_by gr_group_id gid (st_groups s) of
        None \<Rightarrow> None | Some r \<Rightarrow> if group_row_ok r then Some r else None)"

definition group_list :: "store \<Rightarrow> group_row list" where
  "group_list s = filter group_row_ok (sort_key gr_created_at (st_groups s))"

definition group_bump_epoch :: "store \<Rightarrow> bytes \<Rightarrow> u64 \<Rightarrow> store" where
  "group_bump_epoch s gid new_epoch =
     s\<lparr> st_groups := map (\<lambda>r. if gr_group_id r = gid then r\<lparr> gr_epoch := new_epoch \<rparr> else r) (st_groups s) \<rparr>"

definition group_member_add :: "int \<Rightarrow> store \<Rightarrow> bytes \<Rightarrow> bytes \<Rightarrow> store" where
  "group_member_add now s gid peer =
     s\<lparr> st_members := upsert_by (\<lambda>r. (mb_group r, mb_peer r)) (\<lambda>r. r)
          \<lparr> mb_group = gid, mb_peer = peer, mb_joined = now \<rparr> (st_members s) \<rparr>"

definition group_member_remove :: "store \<Rightarrow> bytes \<Rightarrow> bytes \<Rightarrow> store" where
  "group_member_remove s gid peer =
     s\<lparr> st_members := filter (\<lambda>r. \<not> (mb_group r = gid \<and> mb_peer r = peer)) (st_members s) \<rparr>"

definition group_members :: "store \<Rightarrow> bytes \<Rightarrow> bytes list" where
  "group_members s gid = map mb_peer (sort_key mb_joined (filter (\<lambda>r. mb_group r = gid) (st_members s)))"

definition group_forget :: "store \<Rightarrow> bytes \<Rightarrow> store" where
  "group_forget s gid =
     s\<lparr> st_their_keys := filter (\<lambda>r. fst (br_key r) \<noteq> gid) (st_their_keys s),
        st_my_keys := filter (\<lambda>r. fst (br_key r) \<noteq> gid) (st_my_keys s),
        st_members := filter (\<lambda>r. mb_group r \<noteq> gid) (st_members s),
        st_groups := filter (\<lambda>r. gr_group_id r \<noteq> gid) (st_groups s) \<rparr>"

text \<open>Rows of \<open>group_messages\<close> use \<open>sm_recipient\<close> for the group id.\<close>
definition group_message_store :: "prims \<Rightarrow> bytes \<Rightarrow> int \<Rightarrow> store \<Rightarrow> bytes \<Rightarrow> bytes \<Rightarrow> bytes \<Rightarrow> int \<Rightarrow> int \<times> store" where
  "group_message_store P nonce now s gid sender plaintext ttl =
     (let i = st_group_message_seq s + 1 in
      (i, s\<lparr> st_group_message_seq := i, st_group_messages := st_group_messages s @ [\<lparr> sm_id = i,
            sm_sender = sender, sm_recipient = gid, sm_ciphertext = encrypt_at_rest P s nonce plaintext,
            sm_timestamp = now, sm_ttl = ttl \<rparr>] \<rparr>))"

definition group_messages_get :: "prims \<Rightarrow> store \<Rightarrow> bytes \<Rightarrow> group_stored_message list" where
  "group_messages_get P s gid =
     List.map_filter (\<lambda>m. case decrypt_at_rest P s (sm_ciphertext m) of
         Inl _ \<Rightarrow> None
       | Inr pt \<Rightarrow> if length (sm_recipient m) \<noteq> 32 then None
                  else Some \<lparr> gm_id = sm_id m, gm_group_id = sm_recipient m, gm_sender = sm_sender m,
                              gm_plaintext = pt, gm_timestamp = sm_timestamp m, gm_ttl = sm_ttl m \<rparr>)
       (sort_key sm_timestamp (filter (\<lambda>m. sm_recipient m = gid) (st_group_messages s)))"

section \<open>Peer cache\<close>

definition peer_cache_upsert :: "store \<Rightarrow> bytes \<Rightarrow> bytes \<Rightarrow> int \<Rightarrow> store" where
  "peer_cache_upsert s peer multiaddr now =
     s\<lparr> st_peer_cache := upsert_by pc_peer (\<lambda>r. r\<lparr> pc_multiaddr := multiaddr, pc_last_good := now \<rparr>)
          \<lparr> pc_peer = peer, pc_multiaddr = multiaddr, pc_last_good = now \<rparr> (st_peer_cache s) \<rparr>"

definition peer_cache_recent_good :: "store \<Rightarrow> nat \<Rightarrow> (bytes \<times> bytes) list" where
  "peer_cache_recent_good s limit =
     map (\<lambda>r. (pc_peer r, pc_multiaddr r)) (take limit (sort_key (\<lambda>r. - pc_last_good r) (st_peer_cache s)))"

definition peer_cache_trim :: "store \<Rightarrow> nat \<Rightarrow> nat \<times> store" where
  "peer_cache_trim s max_rows =
     (let gone = set (map pc_peer (drop max_rows (sort_key (\<lambda>r. - pc_last_good r) (st_peer_cache s)))) in
      (length (filter (\<lambda>r. pc_peer r \<in> gone) (st_peer_cache s)),
       s\<lparr> st_peer_cache := filter (\<lambda>r. pc_peer r \<notin> gone) (st_peer_cache s) \<rparr>))"

end
