(* ===== verification/Identity.thy ===== *)
theory Identity
  imports Primitives
begin

text \<open>
  \<open>src/src/core/identity.rs\<close>: the long-term identity, its signed prekeys, the file it is kept in
  and the migration of old files.  Reading, parsing and writing the file are outside the model: \<open>load_or_create\<close>
  takes the parsed file (\<open>None\<close> when there is none) and returns the identity together with the
  file it writes back.  \<open>OsRng\<close> is the three arguments \<open>r_sign\<close>, \<open>r_x25519\<close>, \<open>r_kem\<close>.
\<close>

definition PREKEY_SIG_DOMAIN :: bytes where "PREKEY_SIG_DOMAIN = ascii ''ME55-prekey-v1''"
definition ML_KEM_PREKEY_SIG_DOMAIN :: bytes where "ML_KEM_PREKEY_SIG_DOMAIN = ascii ''ME55-ml-kem-prekey-v1''"
definition ML_KEM_EK_LEN :: nat where "ML_KEM_EK_LEN = 1184"
definition ML_KEM_DK_LEN :: nat where "ML_KEM_DK_LEN = 2400"

record identity =
  id_signing_key :: bytes
  id_verifying_key :: bytes
  id_x25519_secret :: bytes
  id_x25519_public :: bytes
  id_x25519_signature :: bytes
  id_ml_kem_dk :: bytes
  id_ml_kem_ek :: bytes
  id_ml_kem_signature :: bytes
  id_peer_id :: bytes
  id_keypair :: bytes

record identity_file =
  if_private_key :: bytes
  if_public_key :: bytes
  if_x25519_private :: "bytes option"
  if_x25519_public :: "bytes option"
  if_x25519_signature :: "bytes option"
  if_ml_kem_dk :: "bytes option"
  if_ml_kem_ek :: "bytes option"
  if_ml_kem_signature :: "bytes option"

definition prekey_signing_bytes :: "bytes \<Rightarrow> bytes" where
  "prekey_signing_bytes x25519 = PREKEY_SIG_DOMAIN @ x25519"

definition ml_kem_prekey_signing_bytes :: "bytes \<Rightarrow> bytes" where
  "ml_kem_prekey_signing_bytes ek = ML_KEM_PREKEY_SIG_DOMAIN @ ek"

definition generate_signed_prekey :: "prims \<Rightarrow> bytes \<Rightarrow> bytes \<Rightarrow> bytes \<times> bytes \<times> bytes" where
  "generate_signed_prekey P signing_key r =
     (r, x25519_pub P r, ed_sign P signing_key (prekey_signing_bytes (x25519_pub P r)))"

definition generate_signed_ml_kem_prekey :: "prims \<Rightarrow> bytes \<Rightarrow> bytes \<Rightarrow> bytes \<times> bytes \<times> bytes" where
  "generate_signed_ml_kem_prekey P signing_key r =
     (let dk = kem_gen P r; ek = kem_ek P dk in
      (dk, ek, ed_sign P signing_key (ml_kem_prekey_signing_bytes ek)))"

definition assemble_identity :: "prims \<Rightarrow> bytes \<Rightarrow> bytes \<times> bytes \<times> bytes \<Rightarrow> bytes \<times> bytes \<times> bytes \<Rightarrow> identity" where
  "assemble_identity P sk x kem =
     \<lparr> id_signing_key = sk, id_verifying_key = ed_pub P sk, id_x25519_secret = fst x, id_x25519_public = fst (snd x),
       id_x25519_signature = snd (snd x), id_ml_kem_dk = fst kem, id_ml_kem_ek = fst (snd kem),
       id_ml_kem_signature = snd (snd kem), id_peer_id = kp_peer P (kp_of_ed P sk), id_keypair = kp_of_ed P sk \<rparr>"

definition generate_identity :: "prims \<Rightarrow> bytes \<Rightarrow> bytes \<Rightarrow> bytes \<Rightarrow> identity" where
  "generate_identity P r_sign r_x25519 r_kem =
     assemble_identity P r_sign (generate_signed_prekey P r_sign r_x25519) (generate_signed_ml_kem_prekey P r_sign r_kem)"

definition save_identity :: "identity \<Rightarrow> identity_file" where
  "save_identity i = \<lparr> if_private_key = id_signing_key i, if_public_key = id_verifying_key i,
     if_x25519_private = Some (id_x25519_secret i), if_x25519_public = Some (id_x25519_public i),
     if_x25519_signature = Some (id_x25519_signature i), if_ml_kem_dk = Some (id_ml_kem_dk i),
     if_ml_kem_ek = Some (id_ml_kem_ek i), if_ml_kem_signature = Some (id_ml_kem_signature i) \<rparr>"

text \<open>The two migration matches of \<open>load_or_create\<close>.\<close>
definition migrate_x25519 :: "prims \<Rightarrow> bytes \<Rightarrow> identity_file \<Rightarrow> bytes \<times> bytes \<times> bytes" where
  "migrate_x25519 P r f =
     (let sk = if_private_key f in
      case (if_x25519_private f, if_x25519_public f, if_x25519_signature f) of
        (Some secret, Some public, Some sig) \<Rightarrow>
          if x25519_pub P secret \<noteq> public then generate_signed_prekey P sk r
          else if \<not> ed_verify P (ed_pub P sk) (prekey_signing_bytes public) sig then generate_signed_prekey P sk r
          else (secret, public, sig)
      | _ \<Rightarrow> generate_signed_prekey P sk r)"

definition migrate_ml_kem :: "prims \<Rightarrow> bytes \<Rightarrow> identity_file \<Rightarrow> bytes \<times> bytes \<times> bytes" where
  "migrate_ml_kem P r f =
     (let sk = if_private_key f in
      case (if_ml_kem_dk f, if_ml_kem_ek f, if_ml_kem_signature f) of
        (Some dk, Some ek, Some sig) \<Rightarrow>
          if length dk = ML_KEM_DK_LEN \<and> length ek = ML_KEM_EK_LEN
             \<and> ed_verify P (ed_pub P sk) (ml_kem_prekey_signing_bytes ek) sig
          then (dk, ek, sig) else generate_signed_ml_kem_prekey P sk r
      | _ \<Rightarrow> generate_signed_ml_kem_prekey P sk r)"

definition load_or_create :: "prims \<Rightarrow> bytes \<Rightarrow> bytes \<Rightarrow> bytes \<Rightarrow> identity_file option \<Rightarrow> identity \<times> identity_file" where
  "load_or_create P r_sign r_x25519 r_kem stored =
     (case stored of
        None \<Rightarrow> (let i = generate_identity P r_sign r_x25519 r_kem in (i, save_identity i))
      | Some f \<Rightarrow>
          (let i = assemble_identity P (if_private_key f) (migrate_x25519 P r_x25519 f) (migrate_ml_kem P r_kem f)
           in (i, save_identity i)))"

section \<open>Loaded identities are consistent\<close>

text \<open>What every other component relies on: the derived fields follow from the two secrets, and
  both prekey signatures verify under the identity key.\<close>
definition identity_ok :: "prims \<Rightarrow> identity \<Rightarrow> bool" where
  "identity_ok P i \<longleftrightarrow> id_verifying_key i = ed_pub P (id_signing_key i)
     \<and> id_keypair i = kp_of_ed P (id_signing_key i) \<and> id_peer_id i = kp_peer P (id_keypair i)
     \<and> id_x25519_public i = x25519_pub P (id_x25519_secret i)
     \<and> ed_verify P (id_verifying_key i) (prekey_signing_bytes (id_x25519_public i)) (id_x25519_signature i)
     \<and> ed_verify P (id_verifying_key i) (ml_kem_prekey_signing_bytes (id_ml_kem_ek i)) (id_ml_kem_signature i)"

lemma assemble_ok:
  "identity_ok P (assemble_identity P sk x kem) \<longleftrightarrow> fst (snd x) = x25519_pub P (fst x)
     \<and> ed_verify P (ed_pub P sk) (prekey_signing_bytes (fst (snd x))) (snd (snd x))
     \<and> ed_verify P (ed_pub P sk) (ml_kem_prekey_signing_bytes (fst (snd kem))) (snd (snd kem))"
  by (simp add: identity_ok_def assemble_identity_def)

lemma load_or_create_ok:
  assumes "ed_correct P"
  shows "identity_ok P (fst (load_or_create P r_sign r_x25519 r_kem stored))"
proof (cases stored)
  case None
  then show ?thesis using assms
    by (simp add: load_or_create_def generate_identity_def assemble_ok generate_signed_prekey_def
        generate_signed_ml_kem_prekey_def Let_def)
next
  case (Some f)
  have "fst (snd (migrate_x25519 P r_x25519 f)) = x25519_pub P (fst (migrate_x25519 P r_x25519 f))
      \<and> ed_verify P (ed_pub P (if_private_key f)) (prekey_signing_bytes (fst (snd (migrate_x25519 P r_x25519 f))))
          (snd (snd (migrate_x25519 P r_x25519 f)))"
    using assms by (auto simp: migrate_x25519_def generate_signed_prekey_def Let_def split: option.splits)
  moreover have "ed_verify P (ed_pub P (if_private_key f))
      (ml_kem_prekey_signing_bytes (fst (snd (migrate_ml_kem P r_kem f)))) (snd (snd (migrate_ml_kem P r_kem f)))"
    using assms by (auto simp: migrate_ml_kem_def generate_signed_ml_kem_prekey_def Let_def split: option.splits)
  ultimately show ?thesis using Some by (elim conjE) (simp add: load_or_create_def assemble_ok Let_def)
qed

text \<open>A consistent identity is read back from the file it was saved to.\<close>
lemma reload_identity:
  assumes "identity_ok P i" "length (id_ml_kem_dk i) = ML_KEM_DK_LEN" "length (id_ml_kem_ek i) = ML_KEM_EK_LEN"
  shows "load_or_create P r_sign r_x25519 r_kem (Some (save_identity i)) = (i, save_identity i)"
  using assms
  by (cases i) (simp add: load_or_create_def save_identity_def migrate_x25519_def migrate_ml_kem_def identity_ok_def
      assemble_identity_def Let_def)

text \<open>ML-KEM-768 keys have fixed lengths.\<close>
definition kem_sized :: "prims \<Rightarrow> bool" where
  "kem_sized P \<longleftrightarrow> (\<forall>r. length (kem_gen P r) = ML_KEM_DK_LEN) \<and> (\<forall>dk. length (kem_ek P dk) = ML_KEM_EK_LEN)"

lemma load_or_create_stable:
  assumes "ed_correct P" "kem_sized P" "load_or_create P r1 r2 r3 stored = (i, f)"
  shows "load_or_create P r1' r2' r3' (Some f) = (i, f)"
proof -
  have i: "i = fst (load_or_create P r1 r2 r3 stored)" and f: "f = save_identity i"
    using assms(3) by (auto simp: load_or_create_def Let_def split: option.splits)
  have "length (id_ml_kem_dk i) = ML_KEM_DK_LEN \<and> length (id_ml_kem_ek i) = ML_KEM_EK_LEN"
    using assms(2) unfolding i
    by (auto simp: kem_sized_def load_or_create_def generate_identity_def assemble_identity_def migrate_ml_kem_def
        generate_signed_ml_kem_prekey_def Let_def split: option.splits)
  then show ?thesis unfolding f using load_or_create_ok [OF assms(1)] by (intro reload_identity) (simp_all add: i)
qed

text \<open>C20: With no identity file, and with any file that can be read (complete, partial, from an older version, or with corrupted
  prekeys), \<open>load_or_create\<close> returns an identity whose prekey signatures verify under its own key
  and whose public prekey belongs to its secret, and the file it leaves is that identity's.  The signing key of a file that was found is
  kept, and with it the PeerId.  A file that cannot be read stops the start and is not an argument here.\<close>
theorem load_or_create_sound:
  assumes "ed_correct P"
  shows "let (i, saved) = load_or_create P r_sign r_x25519 r_kem stored
    in identity_ok P i \<and> saved = save_identity i
      \<and> (\<forall>f. stored = Some f \<longrightarrow> id_signing_key i = if_private_key f \<and> id_peer_id i = kp_peer P (kp_of_ed P (if_private_key f)))"
  using load_or_create_ok [OF assms, of r_sign r_x25519 r_kem stored]
  by (auto simp: load_or_create_def assemble_identity_def Let_def split: option.splits)

theorem load_or_create_sound_witness:
  "let (i, saved) = load_or_create toy_prims [1] [2] [3]
     (Some \<lparr> if_private_key = [7], if_public_key = [7], if_x25519_private = Some [8], if_x25519_public = Some [9],
        if_x25519_signature = Some [], if_ml_kem_dk = None, if_ml_kem_ek = None, if_ml_kem_signature = None \<rparr>)
   in identity_ok toy_prims i \<and> saved = save_identity i \<and> id_signing_key i = [7] \<and> id_peer_id i = [7]"
  using load_or_create_sound [of toy_prims "[1]" "[2]" "[3]" "Some \<lparr> if_private_key = [7], if_public_key = [7], if_x25519_private = Some [8],
      if_x25519_public = Some [9], if_x25519_signature = Some [], if_ml_kem_dk = None, if_ml_kem_ek = None, if_ml_kem_signature = None \<rparr>"]
  by (simp add: case_prod_unfold Let_def)

text \<open>The two prekey signature inputs never coincide, so one signature cannot serve the other slot.\<close>
lemma prekey_domains_disjoint: "prekey_signing_bytes x \<noteq> ml_kem_prekey_signing_bytes ek"
  by (simp add: prekey_signing_bytes_def ml_kem_prekey_signing_bytes_def PREKEY_SIG_DOMAIN_def
      ML_KEM_PREKEY_SIG_DOMAIN_def ascii_def)

section \<open>Checking the signed prekeys of a peer\<close>

text \<open>The common prefix of \<open>verify_and_store_prekey\<close>, \<open>verify_pq_prekey\<close> and \<open>verify_otpk\<close> in
  \<open>node.rs\<close>: the Ed25519 key inside the PeerId, then \<open>verify_strict\<close>.\<close>
definition peer_ed_key :: "prims \<Rightarrow> bytes \<Rightarrow> bytes option" where
  "peer_ed_key P peer =
     (case peer_inline P peer of
        None \<Rightarrow> None
      | Some digest \<Rightarrow>
          (case pk_decode P digest of
             None \<Rightarrow> None
           | Some pk \<Rightarrow>
               (case pk_ed25519 P pk of
                  None \<Rightarrow> None | Some ed \<Rightarrow> if ed_key_ok P ed then Some ed else None)))"

definition peer_signed :: "prims \<Rightarrow> bytes \<Rightarrow> bytes \<Rightarrow> bytes \<Rightarrow> bool" where
  "peer_signed P peer bytes sig \<longleftrightarrow>
     (case peer_ed_key P peer of None \<Rightarrow> False | Some ed \<Rightarrow> ed_verify P ed bytes sig)"

lemma peer_ed_key_identity:
  assumes "ed_correct P" "identity_ok P i" "identity_key_correct P (id_signing_key i)"
  shows "peer_ed_key P (id_peer_id i) = Some (id_verifying_key i)"
  using assms by (auto simp: peer_ed_key_def identity_ok_def identity_key_correct_def)

end
