(* ===== verification/NodeState.thy ===== *)
theory NodeState
  imports Store Identity X3dh Mailbox "HOL-Library.AList"
begin

text \<open>
  The state of \<open>P2PNode\<close> (\<open>src/src/core/node.rs\<close>) and the primitives every handler uses.
  A handler is a function from the node to the node (with its result), in the order of the
  source's statements.  What the handlers call outside this repository is the argument \<open>E\<close>: the
  crypto primitives, the serde codecs, \<open>OsRng\<close> (the value of the \<open>i\<close>-th draw of a given length),
  the answer of Kademlia's local record store to a put, and the text of a multiaddr with a \<open>/p2p\<close> suffix.  Whatever leaves the node (requests,
  DHT queries, GUI events) is appended to \<open>nd_out\<close>.  \<open>message_store\<close> is \<open>Some\<close> from \<open>new\<close> on and
  is the store itself here; a PeerId is its byte string; logging and terminal output are dropped.
\<close>

record codecs =
  enc_payload :: "encrypted_payload \<Rightarrow> bytes option"
  dec_payload :: "bytes \<Rightarrow> encrypted_payload option"
  enc_message :: "protocol_message \<Rightarrow> bytes option"
  dec_message :: "bytes \<Rightarrow> protocol_message option"
  enc_control :: "group_control \<Rightarrow> bytes option"
  dec_control :: "bytes \<Rightarrow> group_control option"
  enc_envelope :: "group_message_envelope \<Rightarrow> bytes option"
  dec_envelope :: "bytes \<Rightarrow> group_message_envelope option"
  enc_session :: "ratchet_state \<Rightarrow> bytes option"
  dec_session :: "bytes \<Rightarrow> ratchet_state option"
  enc_sender :: "sender_chain \<Rightarrow> bytes option"
  dec_sender :: "bytes \<Rightarrow> sender_chain option"
  enc_receiver :: "receiver_chain \<Rightarrow> bytes option"
  dec_receiver :: "bytes \<Rightarrow> receiver_chain option"

text \<open>What was serialized is read back.\<close>
definition codecs_ok :: "codecs \<Rightarrow> bool" where
  "codecs_ok C \<longleftrightarrow> (\<forall>x b. enc_payload C x = Some b \<longrightarrow> dec_payload C b = Some x)
     \<and> (\<forall>x b. enc_message C x = Some b \<longrightarrow> dec_message C b = Some x)
     \<and> (\<forall>x b. enc_control C x = Some b \<longrightarrow> dec_control C b = Some x)
     \<and> (\<forall>x b. enc_envelope C x = Some b \<longrightarrow> dec_envelope C b = Some x)
     \<and> (\<forall>x b. enc_session C x = Some b \<longrightarrow> dec_session C b = Some x)
     \<and> (\<forall>x b. enc_sender C x = Some b \<longrightarrow> dec_sender C b = Some x)
     \<and> (\<forall>x b. enc_receiver C x = Some b \<longrightarrow> dec_receiver C b = Some x)"

lemma codecs_okD:
  assumes "codecs_ok C"
  shows "enc_payload C p = Some b \<Longrightarrow> dec_payload C b = Some p"
    "enc_message C m = Some b \<Longrightarrow> dec_message C b = Some m"
    "enc_control C c = Some b \<Longrightarrow> dec_control C b = Some c"
    "enc_envelope C e = Some b \<Longrightarrow> dec_envelope C b = Some e"
    "enc_session C s = Some b \<Longrightarrow> dec_session C b = Some s"
    "enc_sender C sc = Some b \<Longrightarrow> dec_sender C b = Some sc"
    "enc_receiver C rc = Some b \<Longrightarrow> dec_receiver C b = Some rc"
  using assms by (auto simp: codecs_ok_def)

section \<open>Wire data of the prekey protocol\<close>

record one_time_prekey =
  otp_id :: int
  otp_x25519 :: bytes
  otp_signature :: bytes

record ml_kem_prekey =
  mk_ek :: bytes
  mk_signature :: bytes

record prekey_response =
  pr_x25519 :: bytes
  pr_signature :: bytes
  pr_otpk :: "one_time_prekey option"
  pr_pq :: "ml_kem_prekey option"

text \<open>\<open>FirstMessageHello\<close>.\<close>
record first_hello =
  fh_x3dh_eph :: bytes
  fh_otpk_id :: "int option"
  fh_ml_kem_ct :: "bytes option"

datatype action =
    SendDm bytes bytes
  | SendPrekeyRequest bytes
  | SendPrekeyResponse bytes prekey_response
  | KadStartProviding bytes
  | KadPutRecord bytes bytes
  | KadGetRecord nat bytes
  | KadGetProviders nat bytes
  | Dial bytes
  | GuiDmReceived bytes
  | GuiGroupMessage bytes bytes

record env =
  en_prims :: prims
  en_codecs :: codecs
  en_rnd :: "nat \<Rightarrow> nat \<Rightarrow> bytes"
  en_put_ok :: "action list \<Rightarrow> bytes \<Rightarrow> bytes \<Rightarrow> bool"
  en_dialable :: "bytes \<Rightarrow> bytes \<Rightarrow> bytes"

record node =
  nd_identity :: identity
  nd_deniable_dm :: bool
  nd_store :: store
  nd_connected :: "bytes \<rightharpoonup> bytes"
  nd_listen_addrs :: "bytes list"
  nd_sessions :: "(bytes \<times> ratchet_state) list"
  nd_inflight :: "bytes set"
  nd_pending_sends :: "bytes \<rightharpoonup> bytes list"
  nd_pending_recvs :: "bytes \<rightharpoonup> encrypted_payload list"
  nd_cached_otpks :: "bytes \<rightharpoonup> one_time_prekey"
  nd_provider_queries :: "nat \<rightharpoonup> int"
  nd_record_queries :: "nat \<rightharpoonup> int \<times> bytes"
  nd_ack_queries :: "nat \<rightharpoonup> int"
  nd_otpk_fetches :: "bytes \<rightharpoonup> int"
  nd_cached_pq :: "bytes \<rightharpoonup> bytes"
  nd_clock :: int
  nd_draws :: nat
  nd_queries :: nat
  nd_out :: "action list"

text \<open>\<open>P2PNode::new\<close> on an open store.\<close>
definition new_node :: "identity \<Rightarrow> bool \<Rightarrow> store \<Rightarrow> int \<Rightarrow> node" where
  "new_node i deniable s clock = \<lparr> nd_identity = i, nd_deniable_dm = deniable, nd_store = s,
     nd_connected = Map.empty, nd_listen_addrs = [], nd_sessions = [], nd_inflight = {}, nd_pending_sends = Map.empty,
     nd_pending_recvs = Map.empty, nd_cached_otpks = Map.empty, nd_provider_queries = Map.empty,
     nd_record_queries = Map.empty, nd_ack_queries = Map.empty, nd_otpk_fetches = Map.empty,
     nd_cached_pq = Map.empty, nd_clock = clock, nd_draws = 0, nd_queries = 0, nd_out = [] \<rparr>"

abbreviation my_pid :: "node \<Rightarrow> bytes" where
  "my_pid n \<equiv> id_peer_id (nd_identity n)"

section \<open>Effects\<close>

definition draw :: "env \<Rightarrow> nat \<Rightarrow> node \<Rightarrow> bytes \<times> node" where
  "draw E len n = (en_rnd E (nd_draws n) len, n\<lparr> nd_draws := Suc (nd_draws n) \<rparr>)"

definition emit :: "action \<Rightarrow> node \<Rightarrow> node" where
  "emit a n = n\<lparr> nd_out := nd_out n @ [a] \<rparr>"

definition put_record :: "env \<Rightarrow> bytes \<Rightarrow> bytes \<Rightarrow> node \<Rightarrow> bool \<times> node" where
  "put_record E key v n =
     (if en_put_ok E (nd_out n) key v then (True, emit (KadPutRecord key v) n) else (False, n))"

definition get_record :: "bytes \<Rightarrow> node \<Rightarrow> nat \<times> node" where
  "get_record key n = (nd_queries n, emit (KadGetRecord (nd_queries n) key) (n\<lparr> nd_queries := Suc (nd_queries n) \<rparr>))"

definition get_providers :: "bytes \<Rightarrow> node \<Rightarrow> nat \<times> node" where
  "get_providers key n =
     (nd_queries n, emit (KadGetProviders (nd_queries n) key) (n\<lparr> nd_queries := Suc (nd_queries n) \<rparr>))"

section \<open>Sessions and prekeys\<close>

lemma map_of_update [simp]: "map_of (AList.update k v al) = (map_of al)(k \<mapsto> v)"
  by (rule update_conv')

lemma map_of_delete [simp]: "map_of (AList.delete k al) = (map_of al)(k := None)"
  by (rule delete_conv')

definition ratchet_ad :: "bytes \<Rightarrow> bytes \<Rightarrow> bytes" where
  "ratchet_ad s r = be32 (len32 s) @ s @ be32 (len32 r) @ r"

definition cached_prekey :: "node \<Rightarrow> bytes \<Rightarrow> bytes option" where
  "cached_prekey n peer =
     (case load_prekey (nd_store n) peer of Some (pub, _) \<Rightarrow> Some pub | None \<Rightarrow> None)"

definition persist_session :: "env \<Rightarrow> bytes \<Rightarrow> node \<Rightarrow> node" where
  "persist_session E peer n =
     (case map_of (nd_sessions n) peer of
        None \<Rightarrow> n
      | Some session \<Rightarrow>
          (case enc_session (en_codecs E) session of
             None \<Rightarrow> n
           | Some json \<Rightarrow>
               (let (nonce, n) = draw E NONCE_LEN n in
                n\<lparr> nd_store := save_session (en_prims E) nonce (nd_clock n) (nd_store n) peer json \<rparr>)))"

definition restore_session_if_persisted :: "env \<Rightarrow> bytes \<Rightarrow> node \<Rightarrow> bool \<times> node" where
  "restore_session_if_persisted E peer n =
     (if map_of (nd_sessions n) peer \<noteq> None then (True, n)
      else case load_session (en_prims E) (nd_store n) peer of
        Inr (Some blob) \<Rightarrow>
          (case dec_session (en_codecs E) blob of
             Some state \<Rightarrow> (True, n\<lparr> nd_sessions := AList.update peer state (nd_sessions n) \<rparr>)
           | None \<Rightarrow> (False, n))
      | _ \<Rightarrow> (False, n))"

text \<open>Local writes to the message store.\<close>
definition save_plaintext :: "env \<Rightarrow> bytes \<Rightarrow> bytes \<Rightarrow> bytes \<Rightarrow> int \<Rightarrow> node \<Rightarrow> node" where
  "save_plaintext E sender recipient content ttl n =
     (let (nonce, n) = draw E NONCE_LEN n in
      n\<lparr> nd_store := snd (store_message (en_prims E) nonce (nd_clock n) (nd_store n) sender recipient content ttl) \<rparr>)"

lemma effect_simps [simp]:
  "nd_identity (emit a n) = nd_identity n" "nd_store (emit a n) = nd_store n" "nd_sessions (emit a n) = nd_sessions n"
  "nd_out (emit a n) = nd_out n @ [a]" "nd_clock (emit a n) = nd_clock n" "nd_deniable_dm (emit a n) = nd_deniable_dm n"
  "nd_connected (emit a n) = nd_connected n" "nd_draws (emit a n) = nd_draws n"
  by (simp_all add: emit_def)

lemma persist_restore:
  assumes "aead_correct (en_prims E)" "aead_tagged (en_prims E)" "codecs_ok (en_codecs E)"
    and "\<And>i. length (en_rnd E i NONCE_LEN) = NONCE_LEN"
    and "map_of (nd_sessions n) peer = Some st" "enc_session (en_codecs E) st = Some json"
  shows "load_session (en_prims E) (nd_store (persist_session E peer n)) peer = Inr (Some json)
     \<and> dec_session (en_codecs E) json = Some st"
  using assms sess.load_save [where P = "en_prims E" and v = "(en_rnd E (nd_draws n) NONCE_LEN, nd_clock n, json)"
      and k = peer and s = "nd_store n"]
    codecs_okD(5) [OF assms(3,6)]
  by (simp add: persist_session_def draw_def valid_save_def)

end
