(* ===== verification/NodeSend.thy ===== *)
theory NodeSend
  imports NodeState
begin

text \<open>
  The send path of \<open>src/src/core/node.rs\<close>: X3DH bootstrap, ratchet encryption into a signed or
  sealed envelope, immediate delivery, the outbox and mailbox fallbacks, draining the outbox.
  A plaintext is its UTF-8 bytes; \<open>String::from_utf8_lossy\<close> in \<open>drain_outbox_for\<close> is the identity on
  the rows it is applied to, which were written from a \<open>String\<close>.
\<close>

section \<open>X3DH bootstrap\<close>

definition load_pq_cache :: "bytes \<Rightarrow> node \<Rightarrow> node" where
  "load_pq_cache peer n =
     (if nd_cached_pq n peer \<noteq> None then n
      else case load_pq_prekey (nd_store n) peer of
        Some ek \<Rightarrow> n\<lparr> nd_cached_pq := (nd_cached_pq n)(peer \<mapsto> ek) \<rparr>
      | None \<Rightarrow> n)"

definition encapsulate_for :: "env \<Rightarrow> bytes \<Rightarrow> node \<Rightarrow> (bytes \<times> bytes) option \<times> node" where
  "encapsulate_for E peer n =
     (case nd_cached_pq n peer of
        None \<Rightarrow> (None, n)
      | Some ek \<Rightarrow> (let (r, n) = draw E 32 n in (pq_encapsulate (en_prims E) r ek, n)))"

text \<open>The four arms of the match: which derivation, by what is cached for the peer.\<close>
definition derive_for_peer ::
  "prims \<Rightarrow> bytes \<Rightarrow> bytes \<Rightarrow> bytes \<Rightarrow> one_time_prekey option \<Rightarrow> (bytes \<times> bytes) option \<Rightarrow> bytes \<times> bytes" where
  "derive_for_peer P eph secret their_prekey otpk pq =
     (case (otpk, pq) of
        (Some opk, Some (_, ss)) \<Rightarrow> initiator_derive_with_otpk_hybrid P eph secret their_prekey (otp_x25519 opk) ss
      | (Some opk, None) \<Rightarrow> initiator_derive_with_otpk P eph secret their_prekey (otp_x25519 opk)
      | (None, Some (_, ss)) \<Rightarrow> initiator_derive_hybrid P eph secret their_prekey ss
      | (None, None) \<Rightarrow> initiator_derive P eph secret their_prekey)"

definition build_x3dh_hello :: "env \<Rightarrow> bytes \<Rightarrow> bytes \<Rightarrow> node \<Rightarrow> first_hello \<times> node" where
  "build_x3dh_hello E peer their_prekey n =
     (let (pq_pair, n) = encapsulate_for E peer (load_pq_cache peer n);
          otpk = nd_cached_otpks n peer;
          (eph, n) = draw E 32 (n\<lparr> nd_cached_otpks := (nd_cached_otpks n)(peer := None) \<rparr>);
          (eph_pub, sk) = derive_for_peer (en_prims E) eph (id_x25519_secret (nd_identity n)) their_prekey otpk pq_pair;
          (dh, n) = draw E 32 n
      in (\<lparr> fh_x3dh_eph = eph_pub, fh_otpk_id = map_option otp_id otpk, fh_ml_kem_ct = map_option fst pq_pair \<rparr>,
          n\<lparr> nd_sessions := AList.update peer (new_initiator (en_prims E) dh sk their_prekey) (nd_sessions n) \<rparr>))"

section \<open>Encryption and envelope\<close>

definition payload_of :: "ratchet_message \<Rightarrow> first_hello option \<Rightarrow> byte \<Rightarrow> encrypted_payload" where
  "payload_of m hello kind =
     \<lparr> ep_dh = hdr_dh (rm_header m), ep_pn = hdr_pn (rm_header m), ep_n = hdr_n (rm_header m), ep_ct = rm_ct m,
       ep_x3dh_eph = map_option fh_x3dh_eph hello, ep_otpk_id = Option.bind hello fh_otpk_id, ep_kind = kind,
       ep_ml_kem_ct = Option.bind hello fh_ml_kem_ct \<rparr>"

text \<open>Sealed when the recipient's prekey is known, deniable when so configured.\<close>
definition build_envelope :: "env \<Rightarrow> bytes \<Rightarrow> bytes \<Rightarrow> node \<Rightarrow> (protocol_error + protocol_message) \<times> node" where
  "build_envelope E peer payload n =
     (let ts = word_of_int (nd_clock n); me = my_pid n; kp = id_keypair (nd_identity n) in
      case cached_prekey n peer of
        Some prekey \<Rightarrow>
          (let (eph, n) = draw E 32 n in
           (if nd_deniable_dm n then new_sealed_deniable (en_prims E) ts eph peer me payload prekey
            else new_sealed (en_prims E) ts eph peer me payload kp prekey, n))
      | None \<Rightarrow>
          (if nd_deniable_dm n then Inr (new_direct_deniable ts peer me payload)
           else new_direct_signed (en_prims E) ts peer me payload kp, n))"

definition ratchet_encrypt_and_wrap_bytes ::
  "env \<Rightarrow> bytes \<Rightarrow> bytes \<Rightarrow> first_hello option \<Rightarrow> byte \<Rightarrow> node \<Rightarrow> (bytes \<times> int) option \<times> node" where
  "ratchet_encrypt_and_wrap_bytes E peer plaintext hello kind n =
     (case map_of (nd_sessions n) peer of
        None \<Rightarrow> (None, n)
      | Some session \<Rightarrow>
          (case ratchet_encrypt (en_prims E) session plaintext (ratchet_ad (my_pid n) peer) of
             (Inl _, _) \<Rightarrow> (None, n)
           | (Inr m, session') \<Rightarrow>
               (let n = n\<lparr> nd_sessions := AList.update peer session' (nd_sessions n) \<rparr> in
                case enc_payload (en_codecs E) (payload_of m hello kind) of
                  None \<Rightarrow> (None, n)
                | Some payload \<Rightarrow>
                    (case build_envelope E peer payload n of
                       (Inl _, n) \<Rightarrow> (None, n)
                     | (Inr msg, n) \<Rightarrow>
                         (case enc_message (en_codecs E) msg of
                            None \<Rightarrow> (None, n)
                          | Some wire \<Rightarrow> (Some (wire, sint (pm_ttl msg)), n))))))"

definition ratchet_encrypt_and_wrap ::
  "env \<Rightarrow> bytes \<Rightarrow> bytes \<Rightarrow> first_hello option \<Rightarrow> node \<Rightarrow> (bytes \<times> int) option \<times> node" where
  "ratchet_encrypt_and_wrap E peer plaintext hello n = ratchet_encrypt_and_wrap_bytes E peer plaintext hello 0 n"

definition encrypt_and_send_existing :: "env \<Rightarrow> bytes \<Rightarrow> bytes \<Rightarrow> first_hello option \<Rightarrow> node \<Rightarrow> node" where
  "encrypt_and_send_existing E peer plaintext hello n =
     (case ratchet_encrypt_and_wrap E peer plaintext hello n of
        (None, n) \<Rightarrow> n
      | (Some (wire, ttl), n) \<Rightarrow>
          persist_session E peer (save_plaintext E (my_pid n) peer plaintext ttl (emit (SendDm peer wire) n)))"

definition bootstrap_initiator_and_send :: "env \<Rightarrow> bytes \<Rightarrow> bytes \<Rightarrow> bytes \<Rightarrow> node \<Rightarrow> node" where
  "bootstrap_initiator_and_send E peer plaintext their_prekey n =
     (let (hello, n) = build_x3dh_hello E peer their_prekey n in
      encrypt_and_send_existing E peer plaintext (Some hello) n)"

definition try_encrypt_offline :: "env \<Rightarrow> bytes \<Rightarrow> bytes \<Rightarrow> node \<Rightarrow> bytes option \<times> node" where
  "try_encrypt_offline E peer plaintext n =
     (case restore_session_if_persisted E peer n of
        (True, n) \<Rightarrow> (let (r, n) = ratchet_encrypt_and_wrap E peer plaintext None n in (map_option fst r, n))
      | (False, n) \<Rightarrow>
          (case cached_prekey n peer of
             None \<Rightarrow> (None, n)
           | Some prekey \<Rightarrow>
               (let (hello, n) = build_x3dh_hello E peer prekey n;
                    (r, n) = ratchet_encrypt_and_wrap E peer plaintext (Some hello) n
                in (map_option fst r, n))))"

section \<open>Mailbox drop and outbox\<close>

definition put_mailbox_drop_bytes :: "env \<Rightarrow> bytes \<Rightarrow> bytes \<Rightarrow> node \<Rightarrow> node" where
  "put_mailbox_drop_bytes E peer wire n =
     (let P = en_prims E; now = nd_clock n; slot = slot_id_for now;
          n = emit (KadStartProviding (slot_kad_key P peer slot)) n
      in case put_record E (drop_kad_key P peer (my_pid n) slot) wire n of
           (False, n) \<Rightarrow> n
         | (True, n) \<Rightarrow>
             (let (nonce, n) = draw E NONCE_LEN n;
                  n = n\<lparr> nd_store := snd (mailbox_drop_record P nonce now (nd_store n) peer slot wire
                         (now + DEFAULT_DROP_TTL_SECS)) \<rparr>
              in case map_of (nd_sessions n) peer of
                   None \<Rightarrow> n
                 | Some session \<Rightarrow> snd (put_record E (session_drop_kad_key P (rs_session_id session) slot) wire n)))"

definition queue_offline :: "env \<Rightarrow> bytes \<Rightarrow> bytes \<Rightarrow> node \<Rightarrow> node" where
  "queue_offline E peer plaintext n =
     (case try_encrypt_offline E peer plaintext n of
        (Some wire, n) \<Rightarrow>
          (let (nonce, n) = draw E NONCE_LEN (put_mailbox_drop_bytes E peer wire n) in
           n\<lparr> nd_store := snd (outbox_add_wire (en_prims E) nonce (nd_clock n) (nd_store n) peer wire (7 * 24 * 3600)) \<rparr>)
      | (None, n) \<Rightarrow>
          (let (nonce, n) = draw E NONCE_LEN n in
           n\<lparr> nd_store := snd (outbox_add (en_prims E) nonce (nd_clock n) (nd_store n) peer plaintext (7 * 24 * 3600)) \<rparr>))"

definition request_prekey :: "bytes \<Rightarrow> node \<Rightarrow> node" where
  "request_prekey peer n =
     (if peer \<in> nd_inflight n then n
      else emit (SendPrekeyRequest peer) (n\<lparr> nd_inflight := insert peer (nd_inflight n) \<rparr>))"

definition try_send_or_queue :: "env \<Rightarrow> bytes \<Rightarrow> bytes \<Rightarrow> node \<Rightarrow> node" where
  "try_send_or_queue E peer plaintext n =
     (if nd_connected n peer = None then queue_offline E peer plaintext n
      else case restore_session_if_persisted E peer n of
        (True, n) \<Rightarrow> encrypt_and_send_existing E peer plaintext None n
      | (False, n) \<Rightarrow>
          (case cached_prekey n peer of
             Some prekey \<Rightarrow> bootstrap_initiator_and_send E peer plaintext prekey n
           | None \<Rightarrow>
               request_prekey peer
                 (n\<lparr> nd_pending_sends := (nd_pending_sends n)(peer \<mapsto>
                      (case nd_pending_sends n peer of None \<Rightarrow> [] | Some l \<Rightarrow> l) @ [plaintext]) \<rparr>)))"

definition drain_entry :: "env \<Rightarrow> bytes \<Rightarrow> int \<times> bytes \<times> bool \<Rightarrow> node \<Rightarrow> node" where
  "drain_entry E peer entry n =
     (case entry of (row_id, content, is_wire) \<Rightarrow>
        (let n = (if is_wire then emit (SendDm peer content) n else try_send_or_queue E peer content n) in
         n\<lparr> nd_store := outbox_delete (nd_store n) row_id \<rparr>))"

definition drain_outbox_for :: "env \<Rightarrow> bytes \<Rightarrow> node \<Rightarrow> node" where
  "drain_outbox_for E peer n =
     fold (drain_entry E peer) (outbox_get_for (en_prims E) (nd_store n) peer) n"

section \<open>Control messages over an existing session\<close>

definition deliver_kind_to_member :: "env \<Rightarrow> bytes \<Rightarrow> byte \<Rightarrow> bytes \<Rightarrow> node \<Rightarrow> bool \<times> node" where
  "deliver_kind_to_member E peer kind body n =
     (case restore_session_if_persisted E peer n of
        (False, n) \<Rightarrow> (False, n)
      | (True, n) \<Rightarrow>
          (case ratchet_encrypt_and_wrap_bytes E peer body None kind n of
             (None, n) \<Rightarrow> (False, n)
           | (Some (wire, _), n) \<Rightarrow> (True, persist_session E peer (emit (SendDm peer wire) n))))"

end
