(* ===== verification/NodeGroup.thy ===== *)
theory NodeGroup
  imports NodeSend
begin

text \<open>
  The group handlers of \<open>src/src/core/node.rs\<close>: inbound control and chat messages, sending to a
  group, the founder's and the leaver's operations, rotation of the own sender chain.  Every
  handler runs over the one-to-one sessions; members without a session are skipped as in the source.
\<close>

section \<open>Fan-out and the own sender chain\<close>

text \<open>The loop over the members: own id skipped, unparseable ids skipped; the number reached.\<close>
fun fan_out :: "env \<Rightarrow> byte \<Rightarrow> bytes \<Rightarrow> bytes list \<Rightarrow> node \<Rightarrow> nat \<times> node" where
  "fan_out E kind body [] n = (0, n)"
| "fan_out E kind body (m # ms) n =
     (if m = my_pid n \<or> \<not> peer_valid (en_prims E) m then fan_out E kind body ms n
      else let (ok, n) = deliver_kind_to_member E m kind body n; (c, n) = fan_out E kind body ms n
           in (if ok then Suc c else c, n))"

definition new_sender_chain :: "env \<Rightarrow> node \<Rightarrow> sender_chain \<times> node" where
  "new_sender_chain E n = (let (k, n) = draw E 32 n; (sk, n) = draw E 32 n in (sender_chain_new k sk, n))"

definition save_my_chain :: "env \<Rightarrow> bytes \<Rightarrow> bytes \<Rightarrow> node \<Rightarrow> node" where
  "save_my_chain E gid blob n =
     (let (nonce, n) = draw E NONCE_LEN n in
      n\<lparr> nd_store := my_sender_key_save (en_prims E) nonce (nd_clock n) (nd_store n) gid blob \<rparr>)"

definition save_their_chain :: "env \<Rightarrow> bytes \<Rightarrow> bytes \<Rightarrow> bytes \<Rightarrow> node \<Rightarrow> node" where
  "save_their_chain E gid peer blob n =
     (let (nonce, n) = draw E NONCE_LEN n in
      n\<lparr> nd_store := their_sender_key_save (en_prims E) nonce (nd_clock n) (nd_store n) gid peer blob \<rparr>)"

definition save_group_message :: "env \<Rightarrow> bytes \<Rightarrow> bytes \<Rightarrow> bytes \<Rightarrow> node \<Rightarrow> node" where
  "save_group_message E gid sender plaintext n =
     (let (nonce, n) = draw E NONCE_LEN n in
      n\<lparr> nd_store := snd (group_message_store (en_prims E) nonce (nd_clock n) (nd_store n) gid sender plaintext
             (7 * 24 * 3600)) \<rparr>)"

definition rotate_my_sender_chain_and_broadcast :: "env \<Rightarrow> bytes \<Rightarrow> u64 \<Rightarrow> node \<Rightarrow> node" where
  "rotate_my_sender_chain_and_broadcast E gid new_epoch n =
     (let (chain, n) = new_sender_chain E n; bundle = current_bundle (en_prims E) chain in
      case enc_sender (en_codecs E) chain of
        None \<Rightarrow> n
      | Some blob \<Rightarrow>
          (let n = save_my_chain E gid blob n; members = group_members (nd_store n) gid in
           case enc_control (en_codecs E) (new_sender_key_distribution gid bundle new_epoch) of
             None \<Rightarrow> n
           | Some ctrl \<Rightarrow> snd (fan_out E 1 ctrl members n)))"

definition my_bundle :: "env \<Rightarrow> bytes \<Rightarrow> node \<Rightarrow> (sender_key_bundle \<times> u64) option" where
  "my_bundle E gid n =
     (case group_get (nd_store n) gid of
        None \<Rightarrow> None
      | Some row \<Rightarrow>
          (case my_sender_key_load (en_prims E) (nd_store n) gid of
             None \<Rightarrow> None
           | Some blob \<Rightarrow>
               (case dec_sender (en_codecs E) blob of
                  None \<Rightarrow> None
                | Some chain \<Rightarrow> Some (current_bundle (en_prims E) chain, gr_epoch row))))"

definition send_my_bundle_to :: "env \<Rightarrow> bytes \<Rightarrow> bytes \<Rightarrow> node \<Rightarrow> bool \<times> node" where
  "send_my_bundle_to E gid peer n =
     (case my_bundle E gid n of
        None \<Rightarrow> (False, n)
      | Some (bundle, epoch) \<Rightarrow>
          (case enc_control (en_codecs E) (new_sender_key_distribution gid bundle epoch) of
             None \<Rightarrow> (False, n)
           | Some ctrl \<Rightarrow> deliver_kind_to_member E peer 1 ctrl n))"

section \<open>Inbound control messages\<close>

definition add_members :: "int \<Rightarrow> bytes \<Rightarrow> bytes list \<Rightarrow> store \<Rightarrow> store" where
  "add_members now gid members s = fold (\<lambda>m s. group_member_add now s gid m) members s"

definition drop_members :: "bytes \<Rightarrow> bytes list \<Rightarrow> store \<Rightarrow> store" where
  "drop_members gid members s =
     fold (\<lambda>m s. their_sender_key_delete (group_member_remove s gid m) gid m) members s"

text \<open>The four arms of \<open>process_group_control\<close>.\<close>
definition on_create_group :: "env \<Rightarrow> bytes \<Rightarrow> bytes \<Rightarrow> bytes \<Rightarrow> bytes \<Rightarrow> bytes list \<Rightarrow> u64 \<Rightarrow> bytes \<Rightarrow> node \<Rightarrow> node" where
  "on_create_group E sender gid name founder members epoch sig n =
     (case verify_signature (en_prims E) (CreateGroup gid name founder members epoch sig) of
        Inl _ \<Rightarrow> n
      | Inr _ \<Rightarrow>
          if sender \<noteq> founder then n
          else if my_pid n \<notin> set members then n
          else n\<lparr> nd_store := add_members (nd_clock n) gid members
                   (group_upsert (nd_clock n) (nd_store n) gid name founder epoch) \<rparr>)"

definition on_membership_update :: "env \<Rightarrow> bytes \<Rightarrow> bytes list \<Rightarrow> bytes list \<Rightarrow> u64 \<Rightarrow> bytes \<Rightarrow> node \<Rightarrow> node" where
  "on_membership_update E gid added removed epoch sig n =
     (case group_get (nd_store n) gid of
        None \<Rightarrow> n
      | Some row \<Rightarrow>
          if epoch \<le> gr_epoch row then n
          else case verify_membership_update (en_prims E) (MembershipUpdate gid added removed epoch sig) (gr_founder_pid row) of
            Inl _ \<Rightarrow> n
          | Inr _ \<Rightarrow>
              (let n = n\<lparr> nd_store := group_bump_epoch (drop_members gid removed
                            (add_members (nd_clock n) gid added (nd_store n))) gid epoch \<rparr>;
                   n = (if removed \<noteq> [] then rotate_my_sender_chain_and_broadcast E gid epoch n else n)
               in fold (\<lambda>p n. if peer_valid (en_prims E) p then snd (send_my_bundle_to E gid p n) else n) added n))"

definition on_sender_key_distribution :: "env \<Rightarrow> bytes \<Rightarrow> bytes \<Rightarrow> sender_key_bundle \<Rightarrow> node \<Rightarrow> node" where
  "on_sender_key_distribution E sender gid bundle n =
     (if sender \<notin> set (group_members (nd_store n) gid) then n
      else case enc_receiver (en_codecs E) (from_bundle bundle) of
        None \<Rightarrow> n
      | Some blob \<Rightarrow> save_their_chain E gid sender blob n)"

definition on_leave :: "env \<Rightarrow> bytes \<Rightarrow> bytes \<Rightarrow> u64 \<Rightarrow> bytes \<Rightarrow> node \<Rightarrow> node" where
  "on_leave E gid leaver epoch sig n =
     (case verify_signature (en_prims E) (Leave gid leaver epoch sig) of
        Inl _ \<Rightarrow> n
      | Inr _ \<Rightarrow>
          (let n = n\<lparr> nd_store := drop_members gid [leaver] (nd_store n) \<rparr>;
               epoch = (case group_get (nd_store n) gid of None \<Rightarrow> 0 | Some row \<Rightarrow> gr_epoch row)
           in rotate_my_sender_chain_and_broadcast E gid epoch n))"

fun process_group_control :: "env \<Rightarrow> bytes \<Rightarrow> group_control \<Rightarrow> node \<Rightarrow> node" where
  "process_group_control E sender (CreateGroup gid name founder members epoch sig) n =
     on_create_group E sender gid name founder members epoch sig n"
| "process_group_control E sender (MembershipUpdate gid added removed epoch sig) n =
     on_membership_update E gid added removed epoch sig n"
| "process_group_control E sender (SenderKeyDistribution gid bundle epoch) n =
     on_sender_key_distribution E sender gid bundle n"
| "process_group_control E sender (Leave gid leaver epoch sig) n = on_leave E gid leaver epoch sig n"

lemmas group_control_arms = on_create_group_def on_membership_update_def on_sender_key_distribution_def on_leave_def

section \<open>Group chat messages\<close>

definition process_group_message :: "env \<Rightarrow> bytes \<Rightarrow> group_message_envelope \<Rightarrow> node \<Rightarrow> node" where
  "process_group_message E sender env n =
     (let gid = ge_group_id env in
      if sender \<notin> set (group_members (nd_store n) gid) then n
      else case their_sender_key_load (en_prims E) (nd_store n) gid sender of
        None \<Rightarrow> n
      | Some blob \<Rightarrow>
          (case dec_receiver (en_codecs E) blob of
             None \<Rightarrow> n
           | Some receiver \<Rightarrow>
               (case megolm_decrypt (en_prims E) receiver (ge_msg env) (build_group_ad gid sender) of
                  (Inl _, _) \<Rightarrow> n
                | (Inr plaintext, receiver') \<Rightarrow>
                    (let n = (case enc_receiver (en_codecs E) receiver' of
                                None \<Rightarrow> n | Some blob' \<Rightarrow> save_their_chain E gid sender blob' n)
                     in emit (GuiGroupMessage gid sender) (save_group_message E gid sender plaintext n)))))"

text \<open>\<open>group_send\<close>: the own chain is loaded or created, a fresh one is announced first.\<close>
definition load_or_create_chain :: "env \<Rightarrow> bytes \<Rightarrow> node \<Rightarrow> (sender_chain \<times> bool) option \<times> node" where
  "load_or_create_chain E gid n =
     (case my_sender_key_load (en_prims E) (nd_store n) gid of
        Some blob \<Rightarrow>
          (case dec_sender (en_codecs E) blob of None \<Rightarrow> (None, n) | Some chain \<Rightarrow> (Some (chain, False), n))
      | None \<Rightarrow> (let (chain, n) = new_sender_chain E n in (Some (chain, True), n)))"

definition announce_chain :: "env \<Rightarrow> bytes \<Rightarrow> u64 \<Rightarrow> sender_chain \<Rightarrow> bytes list \<Rightarrow> node \<Rightarrow> node option" where
  "announce_chain E gid epoch chain members n =
     (case enc_control (en_codecs E) (new_sender_key_distribution gid (current_bundle (en_prims E) chain) epoch) of
        None \<Rightarrow> None
      | Some ctrl \<Rightarrow> Some (snd (fan_out E 1 ctrl members n)))"

definition send_on_chain :: "env \<Rightarrow> bytes \<Rightarrow> bytes \<Rightarrow> sender_chain \<Rightarrow> bytes list \<Rightarrow> node \<Rightarrow> node" where
  "send_on_chain E gid plaintext chain members n =
     (let (msg, chain') = megolm_encrypt (en_prims E) chain plaintext (build_group_ad gid (my_pid n));
          n = (case enc_sender (en_codecs E) chain' of None \<Rightarrow> n | Some blob \<Rightarrow> save_my_chain E gid blob n);
          n = save_group_message E gid (my_pid n) plaintext n
      in case enc_envelope (en_codecs E) \<lparr> ge_group_id = gid, ge_msg = msg \<rparr> of
           None \<Rightarrow> n
         | Some body \<Rightarrow> snd (fan_out E 2 body members n))"

definition group_send :: "env \<Rightarrow> bytes \<Rightarrow> bytes \<Rightarrow> node \<Rightarrow> node" where
  "group_send E gid plaintext n =
     (case group_get (nd_store n) gid of
        None \<Rightarrow> n
      | Some row \<Rightarrow>
          (let members = group_members (nd_store n) gid in
           case load_or_create_chain E gid n of
             (None, n) \<Rightarrow> n
           | (Some (chain, fresh), n) \<Rightarrow>
               (case (if fresh then announce_chain E gid (gr_epoch row) chain members n else Some n) of
                  None \<Rightarrow> n
                | Some n \<Rightarrow> send_on_chain E gid plaintext chain members n)))"

section \<open>The founder's and the leaver's operations\<close>

definition handle_group_create :: "env \<Rightarrow> bytes \<Rightarrow> bytes list \<Rightarrow> node \<Rightarrow> node" where
  "handle_group_create E name members n =
     (let me = my_pid n;
          members = (if me \<in> set members then members else me # members);
          (gid, n) = draw E 32 n
      in case new_create_group (en_prims E) gid name me members 0 (id_keypair (nd_identity n)) of
           Inl _ \<Rightarrow> n
         | Inr ctrl \<Rightarrow>
             (case enc_control (en_codecs E) ctrl of
                None \<Rightarrow> n
              | Some body \<Rightarrow>
                  snd (fan_out E 1 body members
                    (n\<lparr> nd_store := add_members (nd_clock n) gid members
                          (group_upsert (nd_clock n) (nd_store n) gid name me 0) \<rparr>))))"

text \<open>The guard shared by add and remove: the group is known and its founder is this node.\<close>
definition founded_row :: "bytes \<Rightarrow> node \<Rightarrow> group_row option" where
  "founded_row gid n =
     (case group_get (nd_store n) gid of
        None \<Rightarrow> None
      | Some row \<Rightarrow> if gr_founder_pid row \<noteq> my_pid n then None else Some row)"

definition handle_group_add :: "env \<Rightarrow> bytes \<Rightarrow> bytes \<Rightarrow> node \<Rightarrow> node" where
  "handle_group_add E gid new_member n =
     (case founded_row gid n of
        None \<Rightarrow> n
      | Some row \<Rightarrow>
          (let new_epoch = gr_epoch row + 1 in
           case new_membership_update (en_prims E) gid [new_member] [] new_epoch (id_keypair (nd_identity n)) of
             Inl _ \<Rightarrow> n
           | Inr ctrl \<Rightarrow>
               (case enc_control (en_codecs E) ctrl of
                  None \<Rightarrow> n
                | Some body \<Rightarrow>
                    (let n = n\<lparr> nd_store := group_bump_epoch (group_member_add (nd_clock n) (nd_store n) gid new_member)
                                  gid new_epoch \<rparr>;
                         n = snd (fan_out E 1 body (group_members (nd_store n) gid) n)
                     in snd (send_my_bundle_to E gid new_member n)))))"

definition handle_group_remove :: "env \<Rightarrow> bytes \<Rightarrow> bytes \<Rightarrow> node \<Rightarrow> node" where
  "handle_group_remove E gid gone n =
     (case founded_row gid n of
        None \<Rightarrow> n
      | Some row \<Rightarrow>
          (let new_epoch = gr_epoch row + 1 in
           case new_membership_update (en_prims E) gid [] [gone] new_epoch (id_keypair (nd_identity n)) of
             Inl _ \<Rightarrow> n
           | Inr ctrl \<Rightarrow>
               (case enc_control (en_codecs E) ctrl of
                  None \<Rightarrow> n
                | Some body \<Rightarrow>
                    (let n = n\<lparr> nd_store := group_bump_epoch (drop_members gid [gone] (nd_store n)) gid new_epoch \<rparr>;
                         targets = filter (\<lambda>m. m \<noteq> gone) (group_members (nd_store n) gid);
                         n = snd (fan_out E 1 body targets n)
                     in rotate_my_sender_chain_and_broadcast E gid new_epoch n))))"

definition handle_group_leave :: "env \<Rightarrow> bytes \<Rightarrow> node \<Rightarrow> node" where
  "handle_group_leave E gid n =
     (case group_get (nd_store n) gid of
        None \<Rightarrow> n
      | Some row \<Rightarrow>
          (let members = group_members (nd_store n) gid in
           case new_leave (en_prims E) gid (my_pid n) (gr_epoch row) (id_keypair (nd_identity n)) of
             Inl _ \<Rightarrow> n
           | Inr ctrl \<Rightarrow>
               (case enc_control (en_codecs E) ctrl of
                  None \<Rightarrow> n
                | Some body \<Rightarrow>
                    (let n = snd (fan_out E 1 body members n) in
                     n\<lparr> nd_store := group_forget (nd_store n) gid \<rparr>))))"

end
