(* ===== verification/NodeRecv.thy ===== *)
theory NodeRecv
  imports NodeGroup
begin

text \<open>
  The receive path of \<open>src/src/core/node.rs\<close>: envelope checks, responder bootstrap, ratchet
  decryption, routing by content kind, the prekey protocol and the work it unblocks, the
  one-time prekey pool and its rate limit.
\<close>

section \<open>Decryption and dispatch\<close>

definition receive_text :: "env \<Rightarrow> bytes \<Rightarrow> bytes \<Rightarrow> node \<Rightarrow> node" where
  "receive_text E peer plaintext n =
     emit (GuiDmReceived peer)
       (save_plaintext E peer (my_pid n) plaintext (7 * 24 * 3600)
         (n\<lparr> nd_store := add_contact (nd_clock n) (nd_store n) peer peer None \<rparr>))"

definition dispatch_decrypted_content :: "env \<Rightarrow> bytes \<Rightarrow> byte \<Rightarrow> bytes \<Rightarrow> node \<Rightarrow> node" where
  "dispatch_decrypted_content E peer kind plaintext n =
     (if kind = 0 then receive_text E peer plaintext n
      else if kind = 1 then
        (case dec_control (en_codecs E) plaintext of
           None \<Rightarrow> n | Some ctrl \<Rightarrow> process_group_control E peer ctrl n)
      else if kind = 2 then
        (case dec_envelope (en_codecs E) plaintext of
           None \<Rightarrow> n | Some env \<Rightarrow> process_group_message E peer env n)
      else n)"

definition message_of :: "encrypted_payload \<Rightarrow> ratchet_message" where
  "message_of p = \<lparr> rm_header = \<lparr> hdr_dh = ep_dh p, hdr_pn = ep_pn p, hdr_n = ep_n p \<rparr>, rm_ct = ep_ct p \<rparr>"

text \<open>\<open>decrypt_and_store\<close> and \<open>decrypt_first_message\<close> have the same body.  The session is changed in
  place by \<open>decrypt\<close> whatever its outcome, but saved only after a success.  One draw is reserved
  for the key pair of a DH ratchet step.\<close>
definition decrypt_and_store :: "env \<Rightarrow> bytes \<Rightarrow> encrypted_payload \<Rightarrow> node \<Rightarrow> bool \<times> node" where
  "decrypt_and_store E peer payload n =
     (case map_of (nd_sessions n) peer of
        None \<Rightarrow> (False, n)
      | Some session \<Rightarrow>
          (let (fresh, n) = draw E 32 n;
               (r, session') = ratchet_decrypt (en_prims E) fresh session (message_of payload) (ratchet_ad peer (my_pid n));
               n = n\<lparr> nd_sessions := AList.update peer session' (nd_sessions n) \<rparr>
           in case r of
                Inl _ \<Rightarrow> (False, n)
              | Inr plaintext \<Rightarrow>
                  (True, dispatch_decrypted_content E peer (ep_kind payload) plaintext (persist_session E peer n))))"

definition decrypt_first_message :: "env \<Rightarrow> bytes \<Rightarrow> encrypted_payload \<Rightarrow> node \<Rightarrow> bool \<times> node" where
  "decrypt_first_message E peer payload n = decrypt_and_store E peer payload n"

section \<open>Responder bootstrap\<close>

text \<open>The four-way switch: \<open>None\<close> when the named one-time prekey is not available.\<close>
definition responder_secret ::
  "env \<Rightarrow> node \<Rightarrow> encrypted_payload \<Rightarrow> bytes option \<Rightarrow> bytes \<Rightarrow> bytes \<Rightarrow> bytes option" where
  "responder_secret E n payload pq_ss eph initiator =
     (let P = en_prims E; secret = id_x25519_secret (nd_identity n) in
      case ep_otpk_id payload of
        Some i \<Rightarrow>
          (case load_otpk_private P (nd_store n) i of
             Inr (Some otpk) \<Rightarrow>
               (case pq_ss of
                  Some ss \<Rightarrow> Some (responder_derive_with_otpk_hybrid P secret otpk eph initiator ss)
                | None \<Rightarrow> Some (responder_derive_with_otpk P secret otpk eph initiator))
           | _ \<Rightarrow> None)
      | None \<Rightarrow>
          (case pq_ss of
             Some ss \<Rightarrow> Some (responder_derive_hybrid P secret eph initiator ss)
           | None \<Rightarrow> Some (responder_derive P secret eph initiator)))"

definition consume_otpk :: "int option \<Rightarrow> node \<Rightarrow> node" where
  "consume_otpk otpk n =
     (case otpk of
        None \<Rightarrow> n
      | Some i \<Rightarrow> n\<lparr> nd_store := delete_otpk (mark_otpk_consumed (nd_clock n) (nd_store n) i) i \<rparr>)"

definition pq_secret_of :: "env \<Rightarrow> node \<Rightarrow> encrypted_payload \<Rightarrow> bytes option option" where
  "pq_secret_of E n payload =
     (case ep_ml_kem_ct payload of
        None \<Rightarrow> Some None
      | Some ct \<Rightarrow>
          (case pq_decapsulate (en_prims E) (id_ml_kem_dk (nd_identity n)) ct of
             None \<Rightarrow> None | Some ss \<Rightarrow> Some (Some ss)))"

definition bootstrap_responder_and_decrypt ::
  "env \<Rightarrow> bytes \<Rightarrow> bytes \<Rightarrow> bytes \<Rightarrow> encrypted_payload \<Rightarrow> node \<Rightarrow> bool \<times> node" where
  "bootstrap_responder_and_decrypt E peer eph initiator payload n =
     (case pq_secret_of E n payload of
        None \<Rightarrow> (False, n)
      | Some pq_ss \<Rightarrow>
          (case responder_secret E n payload pq_ss eph initiator of
             None \<Rightarrow> (False, n)
           | Some sk \<Rightarrow>
               (let session = new_responder (en_prims E) sk (id_x25519_secret (nd_identity n));
                    (ok, n) = decrypt_first_message E peer payload
                      (n\<lparr> nd_sessions := AList.update peer session (nd_sessions n) \<rparr>)
                in if \<not> ok then (False, n\<lparr> nd_sessions := AList.delete peer (nd_sessions n) \<rparr>)
                   else (True, consume_otpk (ep_otpk_id payload) n))))"

section \<open>Inbound direct messages\<close>

definition verified_sender :: "env \<Rightarrow> node \<Rightarrow> protocol_message \<Rightarrow> protocol_error + bytes" where
  "verified_sender E n m =
     (if is_sealed m then verify_sealed (en_prims E) (id_x25519_secret (nd_identity n)) m else verify (en_prims E) m)"

text \<open>Steps 1 to 4: the sender and payload of an acceptable envelope.\<close>
definition accept_envelope :: "env \<Rightarrow> node \<Rightarrow> bytes \<Rightarrow> bytes \<Rightarrow> (bytes \<times> encrypted_payload) option" where
  "accept_envelope E n transport_peer request =
     (case dec_message (en_codecs E) request of
        None \<Rightarrow> None
      | Some m \<Rightarrow>
          (case verified_sender E n m of
             Inl _ \<Rightarrow> None
           | Inr sender \<Rightarrow>
               if \<not> is_sealed m \<and> sender \<noteq> transport_peer then None
               else if is_expired (word_of_int (nd_clock n)) m then None
               else case dec_payload (en_codecs E) (pm_payload m) of
                 None \<Rightarrow> None | Some payload \<Rightarrow> Some (sender, payload)))"

definition process_incoming_dm :: "env \<Rightarrow> bytes \<Rightarrow> bytes \<Rightarrow> node \<Rightarrow> bool \<times> node" where
  "process_incoming_dm E transport_peer request n =
     (case accept_envelope E n transport_peer request of
        None \<Rightarrow> (False, n)
      | Some (sender, payload) \<Rightarrow>
          (case restore_session_if_persisted E sender n of
             (True, n) \<Rightarrow> decrypt_and_store E sender payload n
           | (False, n) \<Rightarrow>
               (case ep_x3dh_eph payload of
                  None \<Rightarrow> (False, n)
                | Some eph \<Rightarrow>
                    (case cached_prekey n sender of
                       Some initiator \<Rightarrow> bootstrap_responder_and_decrypt E sender eph initiator payload n
                     | None \<Rightarrow>
                         (False, request_prekey sender
                           (n\<lparr> nd_pending_recvs := (nd_pending_recvs n)(sender \<mapsto>
                               (case nd_pending_recvs n sender of None \<Rightarrow> [] | Some l \<Rightarrow> l) @ [payload]) \<rparr>))))))"

section \<open>Work waiting for a prekey\<close>

definition recv_pending :: "env \<Rightarrow> bytes \<Rightarrow> bytes \<Rightarrow> encrypted_payload \<Rightarrow> node \<Rightarrow> node" where
  "recv_pending E peer prekey payload n =
     (case restore_session_if_persisted E peer n of
        (True, n) \<Rightarrow> snd (decrypt_and_store E peer payload n)
      | (False, n) \<Rightarrow>
          (case ep_x3dh_eph payload of
             None \<Rightarrow> n
           | Some eph \<Rightarrow> snd (bootstrap_responder_and_decrypt E peer eph prekey payload n)))"

definition send_pending :: "env \<Rightarrow> bytes \<Rightarrow> bytes \<Rightarrow> bytes \<Rightarrow> node \<Rightarrow> node" where
  "send_pending E peer prekey plaintext n =
     (case restore_session_if_persisted E peer n of
        (True, n) \<Rightarrow> encrypt_and_send_existing E peer plaintext None n
      | (False, n) \<Rightarrow> bootstrap_initiator_and_send E peer plaintext prekey n)"

definition process_pending :: "env \<Rightarrow> bytes \<Rightarrow> bytes \<Rightarrow> node \<Rightarrow> node" where
  "process_pending E peer prekey n =
     (let recvs = (case nd_pending_recvs n peer of None \<Rightarrow> [] | Some l \<Rightarrow> l);
          n = fold (recv_pending E peer prekey) recvs (n\<lparr> nd_pending_recvs := (nd_pending_recvs n)(peer := None) \<rparr>);
          sends = (case nd_pending_sends n peer of None \<Rightarrow> [] | Some l \<Rightarrow> l)
      in fold (send_pending E peer prekey) sends (n\<lparr> nd_pending_sends := (nd_pending_sends n)(peer := None) \<rparr>))"

section \<open>The prekey protocol\<close>

definition OTPK_POOL_TARGET :: nat where "OTPK_POOL_TARGET = 100"
definition OTPK_FETCH_COOLDOWN_SECS :: int where "OTPK_FETCH_COOLDOWN_SECS = 60"

definition check_and_update_otpk_gate ::
  "(bytes \<rightharpoonup> int) \<Rightarrow> bytes \<Rightarrow> int \<Rightarrow> int \<Rightarrow> bool \<times> (bytes \<rightharpoonup> int)" where
  "check_and_update_otpk_gate recent peer now cooldown =
     (let allow = (case recent peer of Some t \<Rightarrow> \<not> now - t < cooldown | None \<Rightarrow> True)
      in (allow, if allow then recent(peer \<mapsto> now) else recent))"

definition should_attach_otpk :: "bytes \<Rightarrow> node \<Rightarrow> bool \<times> node" where
  "should_attach_otpk peer n =
     (let (allow, recent) = check_and_update_otpk_gate (nd_otpk_fetches n) peer (nd_clock n) OTPK_FETCH_COOLDOWN_SECS
      in (allow, n\<lparr> nd_otpk_fetches := recent \<rparr>))"

definition prune_recent_otpk_fetches :: "node \<Rightarrow> node" where
  "prune_recent_otpk_fetches n =
     (let cutoff = nd_clock n - OTPK_FETCH_COOLDOWN_SECS in
      n\<lparr> nd_otpk_fetches := (\<lambda>p. case nd_otpk_fetches n p of
           Some t \<Rightarrow> if cutoff \<le> t then Some t else None | None \<Rightarrow> None) \<rparr>)"

text \<open>One iteration of the loop of \<open>replenish_otpk_pool\<close>.\<close>
definition generate_otpk :: "env \<Rightarrow> node \<Rightarrow> node" where
  "generate_otpk E n =
     (let (secret, n) = draw E 32 n;
          public = x25519_pub (en_prims E) secret;
          sig = ed_sign (en_prims E) (id_signing_key (nd_identity n)) (prekey_signing_bytes public);
          (nonce, n) = draw E NONCE_LEN n
      in n\<lparr> nd_store := snd (add_my_otpk (en_prims E) nonce (nd_clock n) (nd_store n) secret public sig) \<rparr>)"

definition replenish_otpk_pool :: "env \<Rightarrow> node \<Rightarrow> node" where
  "replenish_otpk_pool E n = ((generate_otpk E) ^^ (OTPK_POOL_TARGET - unused_otpk_count (nd_store n))) n"

definition pop_one_otpk_bundle :: "env \<Rightarrow> node \<Rightarrow> one_time_prekey option \<times> node" where
  "pop_one_otpk_bundle E n =
     (let (r, s) = pop_unused_otpk (nd_clock n) (nd_store n) in
      (case r of Inr (Some (i, pub, sig)) \<Rightarrow> Some \<lparr> otp_id = i, otp_x25519 = pub, otp_signature = sig \<rparr> | _ \<Rightarrow> None,
       replenish_otpk_pool E (n\<lparr> nd_store := s \<rparr>)))"

definition answer_prekey_request :: "env \<Rightarrow> bytes \<Rightarrow> node \<Rightarrow> node" where
  "answer_prekey_request E peer n =
     (let (attach, n) = should_attach_otpk peer n;
          (otpk, n) = (if attach then pop_one_otpk_bundle E n else (None, n));
          i = nd_identity n
      in emit (SendPrekeyResponse peer \<lparr> pr_x25519 = id_x25519_public i, pr_signature = id_x25519_signature i,
           pr_otpk = otpk, pr_pq = Some \<lparr> mk_ek = id_ml_kem_ek i, mk_signature = id_ml_kem_signature i \<rparr> \<rparr>) n)"

definition verify_pq_prekey :: "prims \<Rightarrow> bytes \<Rightarrow> ml_kem_prekey \<Rightarrow> bool" where
  "verify_pq_prekey P sender pq \<longleftrightarrow>
     length (mk_ek pq) = ML_KEM_EK_LEN \<and> peer_signed P sender (ml_kem_prekey_signing_bytes (mk_ek pq)) (mk_signature pq)"

definition verify_otpk :: "prims \<Rightarrow> bytes \<Rightarrow> one_time_prekey \<Rightarrow> bool" where
  "verify_otpk P peer otpk \<longleftrightarrow> peer_signed P peer (prekey_signing_bytes (otp_x25519 otpk)) (otp_signature otpk)"

definition verify_and_store_prekey :: "env \<Rightarrow> bytes \<Rightarrow> prekey_response \<Rightarrow> node \<Rightarrow> bytes option \<times> node" where
  "verify_and_store_prekey E sender resp n =
     (if peer_signed (en_prims E) sender (prekey_signing_bytes (pr_x25519 resp)) (pr_signature resp)
      then (Some (pr_x25519 resp),
            n\<lparr> nd_store := save_prekey (nd_clock n) (nd_store n) sender (pr_x25519 resp) (pr_signature resp) \<rparr>)
      else (None, n))"

definition cache_otpk :: "env \<Rightarrow> bytes \<Rightarrow> one_time_prekey option \<Rightarrow> node \<Rightarrow> node" where
  "cache_otpk E peer otpk n =
     (case otpk of
        None \<Rightarrow> n
      | Some o' \<Rightarrow>
          if verify_otpk (en_prims E) peer o' then n\<lparr> nd_cached_otpks := (nd_cached_otpks n)(peer \<mapsto> o') \<rparr> else n)"

definition cache_pq :: "env \<Rightarrow> bytes \<Rightarrow> ml_kem_prekey option \<Rightarrow> node \<Rightarrow> node" where
  "cache_pq E peer pq n =
     (case pq of
        None \<Rightarrow> n
      | Some k \<Rightarrow>
          if verify_pq_prekey (en_prims E) peer k
          then n\<lparr> nd_cached_pq := (nd_cached_pq n)(peer \<mapsto> mk_ek k), nd_store := save_pq_prekey (nd_store n) peer (mk_ek k) \<rparr>
          else n)"

definition fetch_done :: "bytes \<Rightarrow> node \<Rightarrow> node" where
  "fetch_done peer n = n\<lparr> nd_inflight := nd_inflight n - {peer} \<rparr>"

datatype prekey_event =
    PrekeyRequested bytes
  | PrekeyResponded bytes prekey_response
  | PrekeyOutboundFailure bytes
  | PrekeyInboundFailure bytes
  | PrekeyResponseSent

fun handle_prekey_event :: "env \<Rightarrow> prekey_event \<Rightarrow> node \<Rightarrow> node" where
  "handle_prekey_event E (PrekeyRequested peer) n = answer_prekey_request E peer n"
| "handle_prekey_event E (PrekeyResponded peer resp) n =
     (case verify_and_store_prekey E peer resp n of
        (Some prekey, n) \<Rightarrow>
          process_pending E peer prekey (fetch_done peer (cache_pq E peer (pr_pq resp) (cache_otpk E peer (pr_otpk resp) n)))
      | (None, n) \<Rightarrow> fetch_done peer n)"
| "handle_prekey_event E (PrekeyOutboundFailure peer) n = fetch_done peer n"
| "handle_prekey_event E (PrekeyInboundFailure peer) n = n"
| "handle_prekey_event E PrekeyResponseSent n = n"

end
