(* ===== verification/NodeLoop.thy ===== *)
theory NodeLoop
  imports NodeRecv
begin

text \<open>
  The DHT mailbox loops of \<open>src/src/core/node.rs\<close>, the Kademlia, connection and mDNS events, the
  periodic sweeps, and the event loop \<open>run_with_commands\<close> as one step function over events.
  Kademlia answers with the query id it was given; ids are the counter \<open>nd_queries\<close>.
\<close>

section \<open>Republishing and polling the mailbox\<close>

definition poll_ack :: "bytes \<Rightarrow> int \<Rightarrow> node \<Rightarrow> node" where
  "poll_ack key drop_id n =
     (let (qid, n) = get_record key n in n\<lparr> nd_ack_queries := (nd_ack_queries n)(qid \<mapsto> drop_id) \<rparr>)"

definition republish_one :: "env \<Rightarrow> int \<times> bytes \<times> int \<times> bytes \<Rightarrow> node \<Rightarrow> node" where
  "republish_one E row n =
     (case row of (i, recipient, slot, wire) \<Rightarrow>
       (let P = en_prims E; me = my_pid n;
            n = poll_ack (ack_kad_key P recipient me slot) i n;
            sid = (if peer_valid P recipient then map_option rs_session_id (map_of (nd_sessions n) recipient) else None);
            n = (case sid of None \<Rightarrow> n | Some sid \<Rightarrow> poll_ack (session_ack_kad_key P sid slot) i n);
            (ok, n) = put_record E (drop_kad_key P recipient me slot) wire
                        (emit (KadStartProviding (slot_kad_key P recipient slot)) n);
            n = (if ok then n\<lparr> nd_store := mailbox_drop_touch (nd_clock n) (nd_store n) i \<rparr> else n)
        in case sid of
             None \<Rightarrow> n
           | Some sid \<Rightarrow> snd (put_record E (session_drop_kad_key P sid slot) wire n)))"

definition republish_mailbox_drops :: "env \<Rightarrow> node \<Rightarrow> node" where
  "republish_mailbox_drops E n =
     fold (republish_one E)
       (mailbox_drops_due_for_republish (en_prims E) (nd_clock n) (nd_store n) REPUBLISH_AFTER_SECS) n"

definition poll_provider_slot :: "env \<Rightarrow> int \<Rightarrow> node \<Rightarrow> node" where
  "poll_provider_slot E slot n =
     (let (qid, n) = get_providers (slot_kad_key (en_prims E) (my_pid n) slot) n in
      n\<lparr> nd_provider_queries := (nd_provider_queries n)(qid \<mapsto> slot) \<rparr>)"

definition fetch_record :: "bytes \<Rightarrow> int \<Rightarrow> bytes \<Rightarrow> node \<Rightarrow> node" where
  "fetch_record key slot sender n =
     (let (qid, n) = get_record key n in n\<lparr> nd_record_queries := (nd_record_queries n)(qid \<mapsto> (slot, sender)) \<rparr>)"

definition poll_session_slots :: "env \<Rightarrow> int list \<Rightarrow> bytes \<times> ratchet_state \<Rightarrow> node \<Rightarrow> node" where
  "poll_session_slots E slots session n =
     fold (\<lambda>slot. fetch_record (session_drop_kad_key (en_prims E) (rs_session_id (snd session)) slot) slot (fst session))
       slots n"

text \<open>The first slot a poll at \<open>now_slot\<close> asks for.\<close>
definition poll_start :: "int \<Rightarrow> int \<Rightarrow> int" where
  "poll_start last_polled now_slot = max (last_polled + 1) (now_slot - 23)"

definition poll_mailbox_slots :: "env \<Rightarrow> node \<Rightarrow> node" where
  "poll_mailbox_slots E n =
     (let now_slot = slot_id_for (nd_clock n);
          start = poll_start (mailbox_last_polled_slot (nd_store n)) now_slot
      in if start > now_slot then n
         else let slots = [start..now_slot];
                  n = fold (poll_provider_slot E) slots n;
                  n = fold (poll_session_slots E slots) (nd_sessions n) n
              in if now_slot > 0 then n\<lparr> nd_store := mailbox_set_last_polled_slot (nd_store n) (now_slot - 1) \<rparr> else n)"

section \<open>Kademlia results\<close>

definition publish_mailbox_ack :: "env \<Rightarrow> bytes \<Rightarrow> int \<Rightarrow> node \<Rightarrow> node" where
  "publish_mailbox_ack E sender slot n =
     (let P = en_prims E; me = my_pid n; n = snd (put_record E (ack_kad_key P me sender slot) me n) in
      case map_of (nd_sessions n) sender of
        None \<Rightarrow> n
      | Some session \<Rightarrow> snd (put_record E (session_ack_kad_key P (rs_session_id session) slot) me n))"

datatype kad_event =
    ProvidersFound nat "bytes list"
  | ProvidersFinished nat
  | ProvidersFailed nat
  | RecordFound nat bytes
  | RecordFinished nat
  | RecordFailed nat

definition handle_mailbox_providers_result :: "env \<Rightarrow> nat \<Rightarrow> bytes list \<Rightarrow> node \<Rightarrow> node" where
  "handle_mailbox_providers_result E qid providers n =
     (case nd_provider_queries n qid of
        None \<Rightarrow> n
      | Some slot \<Rightarrow>
          fold (\<lambda>sender n. if sender = my_pid n then n
                           else fetch_record (drop_kad_key (en_prims E) (my_pid n) sender slot) slot sender n)
            providers n)"

definition handle_mailbox_record_result :: "env \<Rightarrow> nat \<Rightarrow> bytes \<Rightarrow> node \<Rightarrow> node" where
  "handle_mailbox_record_result E qid value n =
     (case nd_record_queries n qid of
        None \<Rightarrow> n
      | Some (slot, sender) \<Rightarrow>
          (case process_incoming_dm E sender value n of
             (True, n) \<Rightarrow> publish_mailbox_ack E sender slot n
           | (False, n) \<Rightarrow> n))"

definition handle_mailbox_ack_result :: "nat \<Rightarrow> bool \<Rightarrow> node \<Rightarrow> node" where
  "handle_mailbox_ack_result qid found n =
     (case nd_ack_queries n qid of
        None \<Rightarrow> n
      | Some drop_id \<Rightarrow>
          (let n = n\<lparr> nd_ack_queries := (nd_ack_queries n)(qid := None) \<rparr> in
           if found then n\<lparr> nd_store := mailbox_drop_ack (nd_clock n) (nd_store n) drop_id \<rparr> else n))"

fun handle_kad_event :: "env \<Rightarrow> kad_event \<Rightarrow> node \<Rightarrow> node" where
  "handle_kad_event E (ProvidersFound qid providers) n = handle_mailbox_providers_result E qid providers n"
| "handle_kad_event E (ProvidersFinished qid) n = n\<lparr> nd_provider_queries := (nd_provider_queries n)(qid := None) \<rparr>"
| "handle_kad_event E (ProvidersFailed qid) n = n\<lparr> nd_provider_queries := (nd_provider_queries n)(qid := None) \<rparr>"
| "handle_kad_event E (RecordFound qid value) n =
     (if nd_ack_queries n qid \<noteq> None then handle_mailbox_ack_result qid True n
      else handle_mailbox_record_result E qid value n)"
| "handle_kad_event E (RecordFinished qid) n =
     (if nd_ack_queries n qid \<noteq> None then handle_mailbox_ack_result qid False n
      else n\<lparr> nd_record_queries := (nd_record_queries n)(qid := None) \<rparr>)"
| "handle_kad_event E (RecordFailed qid) n =
     (if nd_ack_queries n qid \<noteq> None then n\<lparr> nd_ack_queries := (nd_ack_queries n)(qid := None) \<rparr>
      else n\<lparr> nd_record_queries := (nd_record_queries n)(qid := None) \<rparr>)"

section \<open>Connections and sweeps\<close>

definition connection_established :: "env \<Rightarrow> bytes \<Rightarrow> bytes \<Rightarrow> node \<Rightarrow> node" where
  "connection_established E peer addr n =
     drain_outbox_for E peer
       (n\<lparr> nd_connected := (nd_connected n)(peer \<mapsto> addr),
           nd_store := peer_cache_upsert (nd_store n) peer (en_dialable E addr peer) (nd_clock n) \<rparr>)"

definition connection_closed :: "bytes \<Rightarrow> node \<Rightarrow> node" where
  "connection_closed peer n = n\<lparr> nd_connected := (nd_connected n)(peer := None) \<rparr>"

definition mdns_discovered :: "env \<Rightarrow> bytes \<times> bytes \<Rightarrow> node \<Rightarrow> node" where
  "mdns_discovered E found n =
     drain_outbox_for E (fst found) (n\<lparr> nd_connected := (nd_connected n)(fst found \<mapsto> snd found) \<rparr>)"

definition cleanup_tick :: "node \<Rightarrow> node" where
  "cleanup_tick n =
     (let now = nd_clock n;
          s = snd (cleanup_expired now (nd_store n));
          s = snd (outbox_cleanup_expired now s);
          s = snd (mailbox_drops_cleanup now s);
          s = snd (peer_cache_trim s 50)
      in prune_recent_otpk_fetches (n\<lparr> nd_store := s \<rparr>))"

section \<open>The event loop\<close>

text \<open>The behaviour events; Gossipsub, Identify, relay and hole-punching events and the responses and
  failures of the message protocol are only logged.\<close>
datatype behaviour_event =
    Kademlia kad_event
  | MdnsDiscovered "(bytes \<times> bytes) list"
  | MdnsExpired "bytes list"
  | DmRequest bytes bytes
  | Prekey prekey_event
  | LoggedOnly

fun handle_behaviour_event :: "env \<Rightarrow> behaviour_event \<Rightarrow> node \<Rightarrow> node" where
  "handle_behaviour_event E (Kademlia ev) n = handle_kad_event E ev n"
| "handle_behaviour_event E (MdnsDiscovered found) n = fold (mdns_discovered E) found n"
| "handle_behaviour_event E (MdnsExpired peers) n = fold connection_closed peers n"
| "handle_behaviour_event E (DmRequest peer request) n = snd (process_incoming_dm E peer request n)"
| "handle_behaviour_event E (Prekey ev) n = handle_prekey_event E ev n"
| "handle_behaviour_event E LoggedOnly n = n"

datatype node_command =
    Connect bytes
  | Send bytes bytes
  | FetchPrekey bytes
  | AddContact bytes "bytes option"
  | GroupCreate bytes "bytes list"
  | GroupSend bytes bytes
  | GroupAdd bytes bytes
  | GroupRemove bytes bytes
  | GroupLeave bytes

fun handle_command :: "env \<Rightarrow> node_command \<Rightarrow> node \<Rightarrow> node" where
  "handle_command E (Connect addr) n = emit (Dial addr) n"
| "handle_command E (Send peer text) n = try_send_or_queue E peer text n"
| "handle_command E (FetchPrekey peer) n = emit (SendPrekeyRequest peer) n"
| "handle_command E (AddContact peer alias) n =
     n\<lparr> nd_store := add_contact (nd_clock n) (nd_store n) peer peer alias \<rparr>"
| "handle_command E (GroupCreate name members) n = handle_group_create E name members n"
| "handle_command E (GroupSend gid text) n = group_send E gid text n"
| "handle_command E (GroupAdd gid peer) n = handle_group_add E gid peer n"
| "handle_command E (GroupRemove gid peer) n = handle_group_remove E gid peer n"
| "handle_command E (GroupLeave gid) n = handle_group_leave E gid n"

datatype node_event =
    Command node_command
  | CleanupTick
  | RepublishTick
  | PollTick
  | NewListenAddr bytes
  | ConnectionEstablished bytes bytes
  | ConnectionClosed bytes
  | Behaviour behaviour_event
  | ClockSet int

text \<open>One iteration of the \<open>select!\<close> loop.  The commands that only read are the queries below; \<open>ClockSet\<close>
  is the passing of time between two iterations.\<close>
fun node_step :: "env \<Rightarrow> node_event \<Rightarrow> node \<Rightarrow> node" where
  "node_step E (Command cmd) n = handle_command E cmd n"
| "node_step E CleanupTick n = cleanup_tick n"
| "node_step E RepublishTick n = republish_mailbox_drops E n"
| "node_step E PollTick n = poll_mailbox_slots E n"
| "node_step E (NewListenAddr addr) n =
     (if addr \<in> set (nd_listen_addrs n) then n else n\<lparr> nd_listen_addrs := nd_listen_addrs n @ [addr] \<rparr>)"
| "node_step E (ConnectionEstablished peer addr) n = connection_established E peer addr n"
| "node_step E (ConnectionClosed peer) n = connection_closed peer n"
| "node_step E (Behaviour ev) n = handle_behaviour_event E ev n"
| "node_step E (ClockSet t) n = n\<lparr> nd_clock := t \<rparr>"

definition node_run :: "env \<Rightarrow> node_event list \<Rightarrow> node \<Rightarrow> node" where
  "node_run E evs n = fold (node_step E) evs n"

text \<open>A restart: the memory is lost, the store and the identity file remain.\<close>
definition restart :: "node \<Rightarrow> node" where
  "restart n = (new_node (nd_identity n) (nd_deniable_dm n) (nd_store n) (nd_clock n))\<lparr> nd_draws := nd_draws n \<rparr>"

section \<open>Queries\<close>

text \<open>\<open>QueryMessages\<close>: sender (\<open>None\<close> when its PeerId does not parse, shown as ``?''), content, time, own.\<close>
definition query_messages :: "env \<Rightarrow> bytes \<Rightarrow> node \<Rightarrow> (bytes option \<times> bytes \<times> int \<times> bool) list" where
  "query_messages E peer n =
     map (\<lambda>m. (if peer_valid (en_prims E) (sm_sender m) then Some (sm_sender m) else None,
               sm_ciphertext m, sm_timestamp m, sm_sender m = my_pid n))
       (get_conversation (en_prims E) (nd_store n) (my_pid n) peer 500)"

definition query_contacts :: "env \<Rightarrow> node \<Rightarrow> (bytes \<times> bytes option) list" where
  "query_contacts E n =
     List.map_filter (\<lambda>(peer, _, alias). if peer_valid (en_prims E) peer then Some (peer, alias) else None)
       (get_contacts (nd_store n))"

definition query_groups :: "env \<Rightarrow> node \<Rightarrow> (group_row \<times> nat \<times> bool) list" where
  "query_groups E n =
     map (\<lambda>r. (r, length (group_members (nd_store n) (gr_group_id r)), gr_founder_pid r = my_pid n))
       (group_list (nd_store n))"

definition query_group_messages :: "env \<Rightarrow> bytes \<Rightarrow> node \<Rightarrow> (bytes option \<times> bytes \<times> int \<times> bool) list" where
  "query_group_messages E gid n =
     map (\<lambda>m. (if peer_valid (en_prims E) (gm_sender m) then Some (gm_sender m) else None,
               gm_plaintext m, gm_timestamp m, gm_sender m = my_pid n))
       (group_messages_get (en_prims E) (nd_store n) gid)"

end
