(* ===== verification/NodeFrame.thy ===== *)
theory NodeFrame
  imports NodeLoop
begin

text \<open>
  Which handlers leave the key material of a node alone.  \<open>core\<close> collects it: the identity and the
  deniability flag, the data-encryption key, the signed prekeys of others, the own one-time prekeys with
  their counter, the two in-memory prekey caches and the one-time prekeys already handed out.  Every operation outside the X3DH bootstrap
  and the prekey protocol is shown to preserve it; the locale \<open>prekey_invariant\<close> lifts an invariant of the
  remaining operations to the whole event loop.
\<close>

definition store_core :: "store \<Rightarrow> prekey_row list \<times> otpk_row list \<times> int \<times> bytes" where
  "store_core s = (st_prekeys s, st_otpks s, st_otpk_seq s, st_dek s)"

definition served :: "action list \<Rightarrow> int list" where
  "served as = concat (map (\<lambda>a. case a of
     SendPrekeyResponse _ r \<Rightarrow> (case pr_otpk r of None \<Rightarrow> [] | Some k \<Rightarrow> [otp_id k]) | _ \<Rightarrow> []) as)"

definition core ::
  "node \<Rightarrow> (identity \<times> bool) \<times> (prekey_row list \<times> otpk_row list \<times> int \<times> bytes) \<times> (bytes \<rightharpoonup> bytes)
     \<times> (bytes \<rightharpoonup> one_time_prekey) \<times> int list" where
  "core n = ((nd_identity n, nd_deniable_dm n), store_core (nd_store n), nd_cached_pq n, nd_cached_otpks n, served (nd_out n))"

lemma served_simps [simp]:
  "served [] = []" "served (as @ bs) = served as @ served bs"
  by (simp_all add: served_def)

lemma store_core_frame [simp]:
  "store_core (save_session P nonce now s peer blob) = store_core s"
  "store_core (snd (store_message P nonce now s a b c ttl)) = store_core s"
  "store_core (add_contact now s a b alias) = store_core s"
  "store_core (snd (outbox_add P nonce now s a b ttl)) = store_core s"
  "store_core (snd (outbox_add_wire P nonce now s a b ttl)) = store_core s"
  "store_core (outbox_delete s i) = store_core s"
  "store_core (snd (mailbox_drop_record P nonce now s a slot b e)) = store_core s"
  "store_core (mailbox_drop_touch now s i) = store_core s"
  "store_core (mailbox_drop_ack now s i) = store_core s"
  "store_core (mailbox_set_last_polled_slot s slot) = store_core s"
  "store_core (my_sender_key_save P nonce now s a b) = store_core s"
  "store_core (their_sender_key_save P nonce now s a b c) = store_core s"
  "store_core (their_sender_key_delete s a b) = store_core s"
  "store_core (group_upsert now s a b c ep) = store_core s"
  "store_core (group_bump_epoch s a ep) = store_core s"
  "store_core (group_member_add now s a b) = store_core s"
  "store_core (group_member_remove s a b) = store_core s"
  "store_core (group_forget s a) = store_core s"
  "store_core (snd (group_message_store P nonce now s a b c ttl)) = store_core s"
  "store_core (peer_cache_upsert s a b now) = store_core s"
  "store_core (snd (peer_cache_trim s k)) = store_core s"
  "store_core (snd (cleanup_expired now s)) = store_core s"
  "store_core (snd (outbox_cleanup_expired now s)) = store_core s"
  "store_core (snd (mailbox_drops_cleanup now s)) = store_core s"
  by (simp_all add: store_core_def save_session_def store_message_def add_contact_def outbox_add_def outbox_add_wire_def
      outbox_insert_def outbox_delete_def mailbox_drop_record_def mailbox_drop_touch_def mailbox_drop_ack_def
      mailbox_set_last_polled_slot_def my_sender_key_save_def their_sender_key_save_def their_sender_key_delete_def
      group_upsert_def group_bump_epoch_def group_member_add_def group_member_remove_def group_forget_def
      group_message_store_def peer_cache_upsert_def peer_cache_trim_def cleanup_expired_def outbox_cleanup_expired_def
      mailbox_drops_cleanup_def Let_def)

lemma core_updates [simp]:
  "core (n\<lparr> nd_connected := a \<rparr>) = core n" "core (n\<lparr> nd_sessions := b \<rparr>) = core n" "core (n\<lparr> nd_inflight := c \<rparr>) = core n"
  "core (n\<lparr> nd_pending_sends := d \<rparr>) = core n" "core (n\<lparr> nd_pending_recvs := e \<rparr>) = core n"
  "core (n\<lparr> nd_provider_queries := f \<rparr>) = core n" "core (n\<lparr> nd_record_queries := g \<rparr>) = core n"
  "core (n\<lparr> nd_ack_queries := h \<rparr>) = core n" "core (n\<lparr> nd_otpk_fetches := i \<rparr>) = core n" "core (n\<lparr> nd_clock := j \<rparr>) = core n"
  "core (n\<lparr> nd_draws := k \<rparr>) = core n" "core (n\<lparr> nd_queries := l \<rparr>) = core n"
  "core (n\<lparr> nd_listen_addrs := m \<rparr>) = core n"
  "store_core s = store_core (nd_store n) \<Longrightarrow> core (n\<lparr> nd_store := s \<rparr>) = core n"
  "served [x] = [] \<Longrightarrow> core (emit x n) = core n"
  by (simp_all add: core_def emit_def)

lemma served_one [simp]:
  "served [SendDm p b] = []" "served [SendPrekeyRequest p] = []" "served [KadStartProviding p] = []"
  "served [KadPutRecord p b] = []" "served [KadGetRecord q p] = []" "served [KadGetProviders q p] = []"
  "served [Dial p] = []" "served [GuiDmReceived p] = []" "served [GuiGroupMessage p b] = []"
  by (simp_all add: served_def)

lemma core_effects [simp]:
  "core (snd (draw E l n)) = core n" "core (snd (put_record E k v n)) = core n" "core (snd (get_record k n)) = core n"
  "core (snd (get_providers k n)) = core n" "core (persist_session E p n) = core n" "core (save_plaintext E a b c ttl n) = core n"
  "core (snd (restore_session_if_persisted E p n)) = core n"
  by (auto simp: draw_def put_record_def get_record_def get_providers_def persist_session_def save_plaintext_def
      restore_session_if_persisted_def split: option.splits sum.splits)

text \<open>The same facts as destruction rules for a handler that returns a pair.\<close>
named_theorems frame

lemma frame_effects [frame]:
  "draw E l n = (r1, n') \<Longrightarrow> core n' = core n"
  "put_record E k v n = (r2, n') \<Longrightarrow> core n' = core n"
  "get_record k n = (r3, n') \<Longrightarrow> core n' = core n"
  "get_providers k n = (r3, n') \<Longrightarrow> core n' = core n"
  "restore_session_if_persisted E p n = (r2, n') \<Longrightarrow> core n' = core n"
  using core_effects by (metis snd_conv)+

lemma core_fold: "(\<And>x n. core (f x n) = core n) \<Longrightarrow> core (fold f xs n) = core n"
  by (induction xs arbitrary: n) simp_all

lemma store_core_fold: "(\<And>x s. store_core (f x s) = store_core s) \<Longrightarrow> store_core (fold f xs s) = store_core s"
  by (induction xs arbitrary: s) simp_all

section \<open>Sending\<close>

lemma build_envelope_core [frame]: "build_envelope E p c n = (r, n') \<Longrightarrow> core n' = core n"
  by (auto simp: build_envelope_def draw_def Let_def split: option.splits if_splits)

lemma wrap_bytes_core [frame]: "ratchet_encrypt_and_wrap_bytes E p c h k n = (r, n') \<Longrightarrow> core n' = core n"
  by (auto simp: ratchet_encrypt_and_wrap_bytes_def Let_def dest!: build_envelope_core split: option.splits prod.splits sum.splits)

lemma wrap_core [frame]: "ratchet_encrypt_and_wrap E p c h n = (r, n') \<Longrightarrow> core n' = core n"
  by (simp add: ratchet_encrypt_and_wrap_def wrap_bytes_core)

lemma encrypt_and_send_core [simp]: "core (encrypt_and_send_existing E p c h n) = core n"
  by (auto simp: encrypt_and_send_existing_def dest!: wrap_core split: prod.splits option.splits)

lemma put_mailbox_core [simp]: "core (put_mailbox_drop_bytes E p w n) = core n"
  by (auto simp: put_mailbox_drop_bytes_def Let_def draw_def dest!: frame_effects(2) split: prod.splits option.splits bool.splits)

lemma request_prekey_core [simp]: "core (request_prekey p n) = core n"
  by (simp add: request_prekey_def)

lemma deliver_kind_core [frame]: "deliver_kind_to_member E p k b n = (r, n') \<Longrightarrow> core n' = core n"
  by (auto simp: deliver_kind_to_member_def dest!: wrap_bytes_core frame_effects(5) split: prod.splits option.splits bool.splits)

section \<open>Groups\<close>

lemma fan_out_core: "core (snd (fan_out E k b ms n)) = core n"
  by (induction ms arbitrary: n) (simp_all add: Let_def case_prod_unfold deliver_kind_core [OF surjective_pairing])

lemma fan_out_frame [frame]: "fan_out E k b ms n = (r, n') \<Longrightarrow> core n' = core n"
  using fan_out_core [of E k b ms n] by simp

lemma chain_saves_core [simp]:
  "core (save_my_chain E g b n) = core n" "core (save_their_chain E g p b n) = core n" "core (save_group_message E g p c n) = core n"
  by (simp_all add: save_my_chain_def save_their_chain_def save_group_message_def draw_def)

lemma new_sender_chain_core [frame]: "new_sender_chain E n = (r, n') \<Longrightarrow> core n' = core n"
  by (auto simp: new_sender_chain_def draw_def)

lemma rotate_core [simp]: "core (rotate_my_sender_chain_and_broadcast E g ep n) = core n"
  by (auto simp: rotate_my_sender_chain_and_broadcast_def Let_def fan_out_core dest!: new_sender_chain_core
      split: prod.splits option.splits)

lemma send_bundle_core [frame]: "send_my_bundle_to E g p n = (r, n') \<Longrightarrow> core n' = core n"
  by (auto simp: send_my_bundle_to_def dest!: deliver_kind_core split: prod.splits option.splits)

lemma members_core [simp]:
  "store_core (add_members now g ms s) = store_core s" "store_core (drop_members g ms s) = store_core s"
  by (simp_all add: add_members_def drop_members_def store_core_fold)

lemma onboard_core: "core (fold (\<lambda>p n. if peer_valid P p then snd (send_my_bundle_to E g p n) else n) ps n) = core n"
  by (rule core_fold) (simp add: send_bundle_core [OF surjective_pairing])

lemma process_group_control_core [simp]: "core (process_group_control E p c n) = core n"
  by (cases c) (auto simp: group_control_arms Let_def onboard_core split: option.splits sum.splits)

lemma process_group_message_core [simp]: "core (process_group_message E p env n) = core n"
  by (auto simp: process_group_message_def Let_def split: option.splits sum.splits prod.splits)

lemma send_on_chain_core [simp]: "core (send_on_chain E g c ch ms n) = core n"
  by (auto simp: send_on_chain_def Let_def case_prod_unfold fan_out_core split: option.splits)

lemma group_send_core [simp]: "core (group_send E g c n) = core n"
  by (auto simp: group_send_def load_or_create_chain_def announce_chain_def Let_def fan_out_core dest!: new_sender_chain_core
      split: option.splits prod.splits if_splits)

lemma group_handlers_core [simp]:
  "core (handle_group_create E name ms n) = core n" "core (handle_group_add E g p n) = core n"
  "core (handle_group_remove E g p n) = core n" "core (handle_group_leave E g n) = core n"
proof -
  show "core (handle_group_create E name ms n) = core n"
    by (simp add: handle_group_create_def Let_def draw_def fan_out_core split: sum.split option.split)
  show "core (handle_group_add E g p n) = core n"
    by (simp add: handle_group_add_def Let_def fan_out_core send_bundle_core [OF surjective_pairing] split: sum.split option.split)
  show "core (handle_group_remove E g p n) = core n"
    by (simp add: handle_group_remove_def Let_def fan_out_core split: sum.split option.split)
  show "core (handle_group_leave E g n) = core n"
    by (simp add: handle_group_leave_def Let_def fan_out_core split: sum.split option.split)
qed

section \<open>Receiving and the mailbox\<close>

lemma dispatch_core [simp]: "core (dispatch_decrypted_content E p k c n) = core n"
  by (simp add: dispatch_decrypted_content_def receive_text_def split: option.split)

lemma decrypt_and_store_core [frame]: "decrypt_and_store E p pl n = (r, n') \<Longrightarrow> core n' = core n"
  by (auto simp: decrypt_and_store_def Let_def draw_def split: option.splits prod.splits sum.splits)

lemma poll_ack_core [simp]: "core (poll_ack k i n) = core n"
  by (simp add: poll_ack_def get_record_def)

lemma fetch_record_core [simp]: "core (fetch_record k s p n) = core n"
  by (simp add: fetch_record_def get_record_def)

lemma republish_core [simp]: "core (republish_mailbox_drops E n) = core n"
proof -
  have "core (republish_one E row n) = core n" for row n
    by (cases row) (simp add: republish_one_def Let_def case_prod_unfold split: option.split)
  then show ?thesis by (simp add: republish_mailbox_drops_def core_fold)
qed

lemma poll_mailbox_core [simp]: "core (poll_mailbox_slots E n) = core n"
proof -
  have f: "core (fold (poll_provider_slot E) slots n) = core n" for slots n
    by (rule core_fold) (simp add: poll_provider_slot_def get_providers_def)
  have g: "core (fold (poll_session_slots E slots) ss n) = core n" for slots ss n
    by (rule core_fold) (simp add: poll_session_slots_def core_fold)
  show ?thesis by (simp add: poll_mailbox_slots_def Let_def f g)
qed

lemma publish_ack_core [simp]: "core (publish_mailbox_ack E p s n) = core n"
  by (simp add: publish_mailbox_ack_def Let_def split: option.split)

lemma kad_small_core [simp]:
  "core (handle_mailbox_providers_result E q ps n) = core n" "core (handle_mailbox_ack_result q found n) = core n"
  by (auto simp: handle_mailbox_providers_result_def handle_mailbox_ack_result_def Let_def core_fold split: option.splits)

section \<open>Invariants of the event loop\<close>

text \<open>An invariant that depends on the core only and survives the operations that do change the core
  holds along every run of the event loop.\<close>
locale prekey_invariant =
  fixes E :: env and I :: "node \<Rightarrow> bool"
  assumes core_only: "core n' = core n \<Longrightarrow> I n \<Longrightarrow> I n'"
    and load_pq: "I n \<Longrightarrow> I (load_pq_cache peer n)"
    and use_otpk: "I n \<Longrightarrow> I (n\<lparr> nd_cached_otpks := (nd_cached_otpks n)(peer := None) \<rparr>)"
    and consume: "I n \<Longrightarrow> I (consume_otpk i n)"
    and answer: "I n \<Longrightarrow> I (answer_prekey_request E peer n)"
    and store_prekey: "verify_and_store_prekey E peer resp n = (r, n') \<Longrightarrow> I n \<Longrightarrow> I n'"
    and otpk_cache: "I n \<Longrightarrow> I (cache_otpk E peer k n)"
    and pq_cache: "I n \<Longrightarrow> I (cache_pq E peer pq n)"
begin

lemma frames: "core n' = core n \<Longrightarrow> I n' = I n"
  by (metis core_only)

lemma build_hello: "build_x3dh_hello E p k n = (h, n') \<Longrightarrow> I n \<Longrightarrow> I n'"
proof -
  assume b: "build_x3dh_hello E p k n = (h, n')" and i: "I n"
  obtain pq n1 where n1: "encapsulate_for E p (load_pq_cache p n) = (pq, n1)" by fastforce
  have "core n1 = core (load_pq_cache p n)"
    using n1 by (auto simp: encapsulate_for_def draw_def split: option.splits)
  then have "I (n1\<lparr> nd_cached_otpks := (nd_cached_otpks n1)(p := None) \<rparr>)"
    using i load_pq use_otpk frames by blast
  moreover have "core n' = core (n1\<lparr> nd_cached_otpks := (nd_cached_otpks n1)(p := None) \<rparr>)"
    using b n1 by (auto simp: build_x3dh_hello_def draw_def case_prod_unfold Let_def)
  ultimately show ?thesis using frames by blast
qed

lemma bootstrap_send: "I n \<Longrightarrow> I (bootstrap_initiator_and_send E p c k n)"
  using build_hello frames [OF encrypt_and_send_core]
  by (auto simp: bootstrap_initiator_and_send_def split: prod.splits)

lemma encrypt_offline: "try_encrypt_offline E p c n = (r, n') \<Longrightarrow> I n \<Longrightarrow> I n'"
  by (auto simp: try_encrypt_offline_def Let_def split: prod.splits bool.splits option.splits
      dest!: frames [OF wrap_core] frames [OF frame_effects(5)] dest: build_hello)

lemma queue_offline: "I n \<Longrightarrow> I (queue_offline E p c n)"
proof -
  assume i: "I n"
  obtain r n1 where n1: "try_encrypt_offline E p c n = (r, n1)" by fastforce
  have "core (queue_offline E p c n) = core n1"
    by (simp add: queue_offline_def n1 draw_def split: option.split)
  then show ?thesis using encrypt_offline [OF n1 i] frames by blast
qed

lemma send_or_queue: "I n \<Longrightarrow> I (try_send_or_queue E p c n)"
  by (auto simp: try_send_or_queue_def queue_offline frames [OF encrypt_and_send_core] frames [OF request_prekey_core]
      frames [OF core_updates(4)] bootstrap_send split: prod.splits bool.splits option.splits
      dest!: frames [OF frame_effects(5)])

lemma fold_keeps: "(\<And>x n. I n \<Longrightarrow> I (f x n)) \<Longrightarrow> I n \<Longrightarrow> I (fold f xs n)"
  by (induction xs arbitrary: n) auto

lemma drain: "I n \<Longrightarrow> I (drain_outbox_for E p n)"
proof -
  have "I (drain_entry E p entry n)" if "I n" for entry n
  proof (cases entry)
    case (fields i content wire)
    have "I (if wire then emit (SendDm p content) n else try_send_or_queue E p content n)"
      using that send_or_queue frames [OF core_updates(15)] by simp
    then show ?thesis using frames [OF core_updates(14)] by (simp add: drain_entry_def fields Let_def)
  qed
  then show "I n \<Longrightarrow> ?thesis" unfolding drain_outbox_for_def by (rule fold_keeps)
qed

lemma bootstrap_recv: "bootstrap_responder_and_decrypt E p e k pl n = (r, n') \<Longrightarrow> I n \<Longrightarrow> I n'"
  by (auto simp: bootstrap_responder_and_decrypt_def decrypt_first_message_def Let_def frames [OF core_updates(2)]
      split: option.splits prod.splits if_splits dest!: frames [OF decrypt_and_store_core] intro: consume)

lemma incoming: "process_incoming_dm E p b n = (r, n') \<Longrightarrow> I n \<Longrightarrow> I n'"
  by (auto simp: process_incoming_dm_def frames [OF request_prekey_core] frames [OF core_updates(5)]
      split: option.splits prod.splits bool.splits
      dest!: frames [OF decrypt_and_store_core] frames [OF frame_effects(5)] dest: bootstrap_recv)

lemma pending: "I n \<Longrightarrow> I (process_pending E p k n)"
proof -
  have r: "I (recv_pending E p k pl n)" if "I n" for pl n
    using that by (auto simp: recv_pending_def split: prod.splits bool.splits option.splits
        dest!: frames [OF frame_effects(5)] dest: bootstrap_recv [OF surjective_pairing]
        simp: frames [OF decrypt_and_store_core [OF surjective_pairing]])
  have s: "I (send_pending E p k c n)" if "I n" for c n
    using that by (auto simp: send_pending_def bootstrap_send frames [OF encrypt_and_send_core]
        split: prod.splits bool.splits dest!: frames [OF frame_effects(5)])
  show "I n \<Longrightarrow> ?thesis" unfolding process_pending_def Let_def
    by (intro fold_keeps r s) (simp_all add: frames [OF core_updates(4)] frames [OF core_updates(5)] fold_keeps r)
qed

lemma prekey_event: "I n \<Longrightarrow> I (handle_prekey_event E ev n)"
proof (cases ev)
  case (PrekeyResponded peer resp)
  obtain r n1 where v: "verify_and_store_prekey E peer resp n = (r, n1)" by fastforce
  assume "I n"
  then have "I n1" by (rule store_prekey [OF v])
  then show ?thesis using PrekeyResponded v
    by (auto simp: fetch_done_def frames [OF core_updates(3)] intro!: pending pq_cache otpk_cache split: option.split)
qed (auto simp: answer fetch_done_def frames [OF core_updates(3)])

lemma kad_event: "I n \<Longrightarrow> I (handle_kad_event E ev n)"
proof -
  have "I (handle_mailbox_record_result E q v n)" if "I n" for q v
    using that by (auto simp: handle_mailbox_record_result_def frames [OF publish_ack_core]
        split: option.splits prod.splits bool.splits dest: incoming)
  then show "I n \<Longrightarrow> ?thesis"
    by (cases ev) (auto simp: frames [OF kad_small_core(1)] frames [OF kad_small_core(2)] frames [OF core_updates(6)]
        frames [OF core_updates(7)] frames [OF core_updates(8)])
qed

lemma cleanup: "I n \<Longrightarrow> I (cleanup_tick n)"
proof -
  have "core (cleanup_tick n) = core n" by (simp add: cleanup_tick_def prune_recent_otpk_fetches_def Let_def)
  then show "I n \<Longrightarrow> ?thesis" using frames by blast
qed

lemma connections:
  "I n \<Longrightarrow> I (connection_established E p a n)" "I n \<Longrightarrow> I (mdns_discovered E f n)" "I n \<Longrightarrow> I (connection_closed p n)"
proof -
  assume i: "I n"
  have "core (n\<lparr> nd_connected := c, nd_store := peer_cache_upsert (nd_store n) p b t \<rparr>) = core n" for b c t
    by (simp add: core_def)
  then show "I (connection_established E p a n)"
    unfolding connection_established_def by (intro drain core_only [OF _ i])
  show "I (mdns_discovered E f n)"
    unfolding mdns_discovered_def by (intro drain core_only [OF _ i] core_updates(1))
  show "I (connection_closed p n)"
    unfolding connection_closed_def by (intro core_only [OF _ i] core_updates(1))
qed

lemma connection_folds:
  "I n \<Longrightarrow> I (fold (mdns_discovered E) fs n)" "I n \<Longrightarrow> I (fold connection_closed ps n)"
  by (rule fold_keeps, erule connections(2), assumption) (rule fold_keeps, erule connections(3), assumption)

lemma quiet_steps:
  "I n \<Longrightarrow> I (handle_group_create E name ms n)" "I n \<Longrightarrow> I (handle_group_add E g p n)"
  "I n \<Longrightarrow> I (handle_group_remove E g p n)" "I n \<Longrightarrow> I (handle_group_leave E g n)" "I n \<Longrightarrow> I (group_send E g c n)"
  "I n \<Longrightarrow> I (republish_mailbox_drops E n)" "I n \<Longrightarrow> I (poll_mailbox_slots E n)" "I n \<Longrightarrow> I (emit (SendPrekeyRequest p) n)"
  "I n \<Longrightarrow> I (n\<lparr> nd_store := add_contact t (nd_store n) p q alias \<rparr>)" "I n \<Longrightarrow> I (n\<lparr> nd_clock := t \<rparr>)"
  "I n \<Longrightarrow> I (n\<lparr> nd_listen_addrs := a \<rparr>)" "I n \<Longrightarrow> I (emit (Dial addr) n)"
  by (rule core_only, simp, assumption)+

lemma incoming_dm: "I n \<Longrightarrow> I (snd (process_incoming_dm E p b n))"
  by (rule incoming [OF surjective_pairing])

lemma behaviour: "I n \<Longrightarrow> I (handle_behaviour_event E ev n)"
  by (cases ev) (simp_all only: handle_behaviour_event.simps prekey_event kad_event connection_folds incoming_dm)

lemma command: "I n \<Longrightarrow> I (handle_command E cmd n)"
  by (cases cmd) (simp_all only: handle_command.simps send_or_queue quiet_steps)

lemma step: "I n \<Longrightarrow> I (node_step E ev n)"
proof (cases ev)
  case (NewListenAddr a)
  then show "I n \<Longrightarrow> ?thesis" by (simp add: quiet_steps(11))
qed (simp_all only: node_step.simps cleanup connections quiet_steps behaviour command)

lemma run: "I n \<Longrightarrow> I (node_run E evs n)"
  unfolding node_run_def by (rule fold_keeps) (rule step)

end

end
