(* ===== verification/NodeKeys.thy ===== *)
theory NodeKeys
  imports NodeFrame StoreProps
begin

text \<open>
  Properties of the prekey material along arbitrary runs of the event loop: every prekey of another
  peer that the node stores or caches carries a valid signature of that peer, and no one-time prekey is
  handed out twice.  The identity and the data-encryption key never change.
\<close>

section \<open>Authenticity of stored prekeys\<close>

definition pq_signed :: "prims \<Rightarrow> bytes \<Rightarrow> bytes \<Rightarrow> bool" where
  "pq_signed P peer ek \<longleftrightarrow> length ek = ML_KEM_EK_LEN \<and> (\<exists>sig. peer_signed P peer (ml_kem_prekey_signing_bytes ek) sig)"

definition row_authentic :: "prims \<Rightarrow> prekey_row \<Rightarrow> bool" where
  "row_authentic P r \<longleftrightarrow> peer_signed P (pk_peer r) (prekey_signing_bytes (pk_x25519 r)) (pk_signature r)
     \<and> (\<forall>ek. pk_ml_kem_ek r = Some ek \<longrightarrow> pq_signed P (pk_peer r) ek)"

definition prekeys_authentic :: "prims \<Rightarrow> node \<Rightarrow> bool" where
  "prekeys_authentic P n \<longleftrightarrow> list_all (row_authentic P) (st_prekeys (nd_store n))
     \<and> (\<forall>peer k. nd_cached_otpks n peer = Some k \<longrightarrow> verify_otpk P peer k)
     \<and> (\<forall>peer ek. nd_cached_pq n peer = Some ek \<longrightarrow> pq_signed P peer ek)"

lemma find_by_Some: "find_by key k rows = Some r \<Longrightarrow> r \<in> set rows \<and> key r = k"
  by (auto simp: find_by_def find_Some_iff)

lemma list_all_upsert:
  "list_all Q rows \<Longrightarrow> Q r \<Longrightarrow> (\<And>x. Q x \<Longrightarrow> key x = key r \<Longrightarrow> Q (merge x)) \<Longrightarrow> list_all Q (upsert_by key merge r rows)"
  by (auto simp: upsert_by_def list_all_iff)

lemma generate_otpk_frame:
  "st_prekeys (nd_store (generate_otpk E n)) = st_prekeys (nd_store n)" "nd_cached_otpks (generate_otpk E n) = nd_cached_otpks n"
  "nd_cached_pq (generate_otpk E n) = nd_cached_pq n" "nd_out (generate_otpk E n) = nd_out n"
  "nd_identity (generate_otpk E n) = nd_identity n"
  by (simp_all add: generate_otpk_def draw_def Let_def add_my_otpk_def)

lemma replenish_frame [simp]:
  "st_prekeys (nd_store (replenish_otpk_pool E n)) = st_prekeys (nd_store n)"
  "nd_cached_otpks (replenish_otpk_pool E n) = nd_cached_otpks n"
  "nd_cached_pq (replenish_otpk_pool E n) = nd_cached_pq n" "nd_out (replenish_otpk_pool E n) = nd_out n"
proof -
  have *: "st_prekeys (nd_store ((generate_otpk E ^^ k) n)) = st_prekeys (nd_store n)
      \<and> nd_cached_otpks ((generate_otpk E ^^ k) n) = nd_cached_otpks n
      \<and> nd_cached_pq ((generate_otpk E ^^ k) n) = nd_cached_pq n \<and> nd_out ((generate_otpk E ^^ k) n) = nd_out n" for k
    by (induction k) (simp_all add: generate_otpk_frame)
  then show "st_prekeys (nd_store (replenish_otpk_pool E n)) = st_prekeys (nd_store n)"
    "nd_cached_otpks (replenish_otpk_pool E n) = nd_cached_otpks n"
    "nd_cached_pq (replenish_otpk_pool E n) = nd_cached_pq n" "nd_out (replenish_otpk_pool E n) = nd_out n"
    unfolding replenish_otpk_pool_def by blast+
qed

lemma pop_prekeys: "pop_unused_otpk now s = (r, s') \<Longrightarrow> st_prekeys s' = st_prekeys s"
  by (auto simp: pop_unused_otpk_def split: list.splits)

lemma answer_prekeys:
  "st_prekeys (nd_store (answer_prekey_request E p n)) = st_prekeys (nd_store n)"
  "nd_cached_otpks (answer_prekey_request E p n) = nd_cached_otpks n" "nd_cached_pq (answer_prekey_request E p n) = nd_cached_pq n"
  by (auto simp: answer_prekey_request_def should_attach_otpk_def pop_one_otpk_bundle_def Let_def emit_def
      split: prod.splits dest: pop_prekeys)

interpretation authentic: prekey_invariant E "prekeys_authentic (en_prims E)" for E
proof
  fix n n' peer i resp r k pq
  assume i: "prekeys_authentic (en_prims E) n"
  show "core n' = core n \<Longrightarrow> prekeys_authentic (en_prims E) n'"
    using i by (simp add: prekeys_authentic_def core_def store_core_def)
  show "prekeys_authentic (en_prims E) (load_pq_cache peer n)"
  proof -
    have "pq_signed (en_prims E) peer ek" if "load_pq_prekey (nd_store n) peer = Some ek" for ek
      using that i find_by_Some
      by (fastforce simp: load_pq_prekey_def prekeys_authentic_def list_all_iff row_authentic_def split: option.splits)
    then show ?thesis using i by (auto simp: load_pq_cache_def prekeys_authentic_def split: option.splits)
  qed
  show "prekeys_authentic (en_prims E) (n\<lparr> nd_cached_otpks := (nd_cached_otpks n)(peer := None) \<rparr>)"
    using i by (auto simp: prekeys_authentic_def)
  show "prekeys_authentic (en_prims E) (consume_otpk i n)"
    using i by (auto simp: prekeys_authentic_def consume_otpk_def delete_otpk_def mark_otpk_consumed_def split: option.splits)
  show "prekeys_authentic (en_prims E) (answer_prekey_request E peer n)"
    using i by (simp add: prekeys_authentic_def answer_prekeys)
  show "verify_and_store_prekey E peer resp n = (r, n') \<Longrightarrow> prekeys_authentic (en_prims E) n'"
    using i by (auto simp: verify_and_store_prekey_def prekeys_authentic_def save_prekey_def row_authentic_def
        split: if_splits intro!: list_all_upsert)
  show "prekeys_authentic (en_prims E) (cache_otpk E peer k n)"
    using i by (auto simp: cache_otpk_def prekeys_authentic_def split: option.splits)
  show "prekeys_authentic (en_prims E) (cache_pq E peer pq n)"
    using i by (auto simp: cache_pq_def prekeys_authentic_def save_pq_prekey_def verify_pq_prekey_def pq_signed_def
        row_authentic_def list_all_iff split: option.splits)
qed

text \<open>C8: Whatever happens to a node (any messages, responses, DHT results and commands in any order),
  every signed prekey, one-time prekey and ML-KEM key it holds for a peer verifies under that
  peer's identity key.\<close>
theorem prekeys_stay_authentic:
  "prekeys_authentic (en_prims E) (node_run E evs (new_node i deniable (empty_store dek) clock))"
  by (rule authentic.run) (simp add: prekeys_authentic_def new_node_def empty_store_def)

section \<open>One-time prekeys are handed out once\<close>

definition otpks_once :: "node \<Rightarrow> bool" where
  "otpks_once n \<longleftrightarrow> distinct (served (nd_out n)) \<and> served_inv (set (served (nd_out n))) (nd_store n)"

lemma replenish_served_inv: "served_inv T (nd_store n) \<Longrightarrow> served_inv T (nd_store (replenish_otpk_pool E n))"
proof -
  have "served_inv T (nd_store ((generate_otpk E ^^ k) n))" if "served_inv T (nd_store n)" for k
    using that by (induction k) (simp_all add: generate_otpk_def draw_def Let_def served_inv_other(1))
  then show "served_inv T (nd_store n) \<Longrightarrow> ?thesis" by (simp add: replenish_otpk_pool_def)
qed

text \<open>What answering a request hands out, and what it leaves in the store.\<close>
lemma answer_serves:
  assumes "served_inv T (nd_store n)"
  shows "\<exists>ids. served (nd_out (answer_prekey_request E p n)) = served (nd_out n) @ ids \<and> distinct ids \<and> set ids \<inter> T = {}
     \<and> served_inv (T \<union> set ids) (nd_store (answer_prekey_request E p n))"
proof -
  obtain attach n1 where a: "should_attach_otpk p n = (attach, n1)" by fastforce
  then have n1: "nd_store n1 = nd_store n" "nd_out n1 = nd_out n" by (auto simp: should_attach_otpk_def Let_def split: prod.splits)
  show ?thesis
  proof (cases attach)
    case False
    then show ?thesis using a n1 assms
      by (intro exI [of _ "[]"]) (simp add: answer_prekey_request_def emit_def Let_def served_def)
  next
    case True
    obtain r s where pop: "pop_unused_otpk (nd_clock n1) (nd_store n) = (r, s)" by fastforce
    let ?k = "case r of Inr (Some (i, pub, sig)) \<Rightarrow> Some \<lparr> otp_id = i, otp_x25519 = pub, otp_signature = sig \<rparr> | _ \<Rightarrow> None"
    let ?n = "replenish_otpk_pool E (n1\<lparr> nd_store := s \<rparr>)"
    have ans: "served (nd_out (answer_prekey_request E p n)) = served (nd_out n) @ (case ?k of None \<Rightarrow> [] | Some k \<Rightarrow> [otp_id k])"
      "nd_store (answer_prekey_request E p n) = nd_store ?n"
      using a True n1 pop by (simp_all add: answer_prekey_request_def pop_one_otpk_bundle_def emit_def Let_def served_def)
    note inv = served_inv_pop [OF assms pop]
    show ?thesis
    proof (cases ?k)
      case None
      then show ?thesis using ans inv replenish_served_inv by (intro exI [of _ "[]"]) simp
    next
      case (Some k)
      then obtain pub sig where "r = Inr (Some (otp_id k, pub, sig))" by (auto split: sum.splits option.splits)
      then have "otp_id k \<notin> T \<and> served_inv (insert (otp_id k) T) s" using inv by blast
      then show ?thesis using ans Some replenish_served_inv by (intro exI [of _ "[otp_id k]"]) simp
    qed
  qed
qed

interpretation once: prekey_invariant E otpks_once for E
proof
  fix n n' peer i resp r k pq
  assume i: "otpks_once n"
  show "core n' = core n \<Longrightarrow> otpks_once n'"
    using i by (simp add: otpks_once_def core_def store_core_def served_inv_def)
  show "otpks_once (load_pq_cache peer n)"
    using i by (simp add: otpks_once_def load_pq_cache_def split: option.split)
  show "otpks_once (n\<lparr> nd_cached_otpks := (nd_cached_otpks n)(peer := None) \<rparr>)" using i by (simp add: otpks_once_def)
  show "otpks_once (consume_otpk i n)"
    using i served_inv_other(2,3) by (simp add: otpks_once_def consume_otpk_def split: option.split)
  show "otpks_once (answer_prekey_request E peer n)"
  proof -
    obtain ids where "served (nd_out (answer_prekey_request E peer n)) = served (nd_out n) @ ids" "distinct ids"
      "set ids \<inter> set (served (nd_out n)) = {}"
      "served_inv (set (served (nd_out n)) \<union> set ids) (nd_store (answer_prekey_request E peer n))"
      using answer_serves i unfolding otpks_once_def by blast
    then show ?thesis using i by (auto simp: otpks_once_def)
  qed
  show "verify_and_store_prekey E peer resp n = (r, n') \<Longrightarrow> otpks_once n'"
    using i by (auto simp: verify_and_store_prekey_def otpks_once_def save_prekey_def served_inv_def split: if_splits)
  show "otpks_once (cache_otpk E peer k n)"
    using i by (simp add: cache_otpk_def otpks_once_def split: option.split)
  show "otpks_once (cache_pq E peer pq n)"
    using i by (simp add: cache_pq_def otpks_once_def save_pq_prekey_def served_inv_def split: option.split)
qed

text \<open>C9: Along every run of a node, under any flood of requests and messages, no one-time prekey is
  handed out twice, neither to the same peer nor to two peers.\<close>
theorem node_serves_otpk_once:
  "distinct (served (nd_out (node_run E evs (new_node i deniable (empty_store dek) clock))))"
proof -
  have "otpks_once (new_node i deniable (empty_store dek) clock)"
    by (simp add: otpks_once_def new_node_def empty_store_def served_inv_def)
  then show ?thesis using once.run by (auto simp: otpks_once_def)
qed

section \<open>The settings of a node\<close>

definition settings :: "node \<Rightarrow> identity \<times> bool \<times> bytes" where
  "settings n = (nd_identity n, nd_deniable_dm n, st_dek (nd_store n))"

lemma settings_replenish [simp]: "settings (replenish_otpk_pool E n) = settings n"
proof -
  have "settings ((generate_otpk E ^^ k) n) = settings n" for k
    by (induction k) (simp_all add: settings_def generate_otpk_def draw_def Let_def add_my_otpk_def)
  then show ?thesis by (simp add: replenish_otpk_pool_def)
qed

lemma settings_answer: "settings (answer_prekey_request E p n) = settings n"
proof -
  have "settings (n'\<lparr> nd_store := s \<rparr>) = settings n'" if "pop_unused_otpk now (nd_store n') = (r, s)" for n' r s now
    using that by (auto simp: settings_def pop_unused_otpk_def split: list.splits)
  moreover have "settings (n'\<lparr> nd_otpk_fetches := f \<rparr>) = settings n'" "settings (emit a n') = settings n'" for n' f a
    by (simp_all add: settings_def emit_def)
  ultimately show ?thesis
    by (auto simp: answer_prekey_request_def should_attach_otpk_def pop_one_otpk_bundle_def Let_def split: prod.splits)
qed

interpretation fixed: prekey_invariant E "\<lambda>n. settings n = c" for E c
proof
  fix n n' peer i resp r k pq
  assume i: "settings n = c"
  show "core n' = core n \<Longrightarrow> settings n' = c" using i by (simp add: settings_def core_def store_core_def)
  show "settings (load_pq_cache peer n) = c" using i by (simp add: settings_def load_pq_cache_def split: option.split)
  show "settings (n\<lparr> nd_cached_otpks := (nd_cached_otpks n)(peer := None) \<rparr>) = c" using i by (simp add: settings_def)
  show "settings (consume_otpk i n) = c"
    using i by (simp add: settings_def consume_otpk_def delete_otpk_def mark_otpk_consumed_def split: option.split)
  show "settings (answer_prekey_request E peer n) = c" using i by (simp add: settings_answer)
  show "verify_and_store_prekey E peer resp n = (r, n') \<Longrightarrow> settings n' = c"
    using i by (auto simp: settings_def verify_and_store_prekey_def save_prekey_def split: if_splits)
  show "settings (cache_otpk E peer k n) = c" using i by (simp add: settings_def cache_otpk_def split: option.split)
  show "settings (cache_pq E peer pq n) = c" using i by (simp add: settings_def cache_pq_def save_pq_prekey_def split: option.split)
qed

end
