(* ===== verification/Scramble.thy ===== *)
theory Scramble
  imports Primitives
begin

text \<open>
  \<open>src/src/network/scramble.rs\<close>: the obfuscation layer.  ChaCha20 and Elligator2 are crates: the
  keystream is the argument \<open>K\<close> (key, nonce, position to byte, unbounded here), the Elligator2
  maps are the record \<open>elligator\<close>.  The wrapped stream is the list of answers it will give to the polls: a source
  answers with bytes, an error or \<open>Pending\<close>, and at the end of the stream with \<open>Ok(0)\<close> as often as it is asked
  (\<open>SEof\<close> stays at the head of the list); after the last answer of the list it is \<open>Pending\<close>.  A sink accepts a number of
  bytes, fails or is \<open>Pending\<close>.  The jitter delay drawn by a write and whether a polled timer has fired are arguments.
\<close>

datatype io_error = UnexpectedEof | WriteZero | InvalidData | NoRepresentable | InnerError nat

datatype 'a poll = Pending | Ready "io_error + 'a"

datatype source_answer = SPending | SFail io_error | SBytes bytes | SEof

fun inner_read :: "nat \<Rightarrow> source_answer list \<Rightarrow> bytes poll \<times> source_answer list" where
  "inner_read want [] = (Pending, [])"
| "inner_read want (SPending # as) = (Pending, as)"
| "inner_read want (SFail e # as) = (Ready (Inl e), as)"
| "inner_read want (SEof # as) = (Ready (Inr []), SEof # as)"
| "inner_read want (SBytes bs # as) =
     (Ready (Inr (take want bs)), if drop want bs = [] then as else SBytes (drop want bs) # as)"

datatype sink_answer = WPending | WFail io_error | WAccept nat

record sink =
  sk_script :: "sink_answer list"
  sk_wire :: bytes

definition inner_write :: "bytes \<Rightarrow> sink \<Rightarrow> nat poll \<times> sink" where
  "inner_write bs sk =
     (case sk_script sk of
        [] \<Rightarrow> (Pending, sk)
      | WPending # as \<Rightarrow> (Pending, sk\<lparr> sk_script := as \<rparr>)
      | WFail e # as \<Rightarrow> (Ready (Inl e), sk\<lparr> sk_script := as \<rparr>)
      | WAccept n # as \<Rightarrow>
          (Ready (Inr (min n (length bs))), sk\<lparr> sk_script := as, sk_wire := sk_wire sk @ take (min n (length bs)) bs \<rparr>))"

text \<open>\<open>poll_flush\<close> and \<open>poll_close\<close> of the wrapped stream.\<close>
definition inner_flush :: "sink \<Rightarrow> unit poll \<times> sink" where
  "inner_flush sk =
     (case sk_script sk of
        [] \<Rightarrow> (Pending, sk)
      | WPending # as \<Rightarrow> (Pending, sk\<lparr> sk_script := as \<rparr>)
      | WFail e # as \<Rightarrow> (Ready (Inl e), sk\<lparr> sk_script := as \<rparr>)
      | WAccept n # as \<Rightarrow> (Ready (Inr ()), sk\<lparr> sk_script := as \<rparr>))"

section \<open>The keystream\<close>

record cipher =
  ch_key :: bytes
  ch_nonce :: bytes
  ch_pos :: nat

type_synonym keystream = "bytes \<Rightarrow> bytes \<Rightarrow> nat \<Rightarrow> byte"

primrec xor_at :: "(nat \<Rightarrow> byte) \<Rightarrow> nat \<Rightarrow> bytes \<Rightarrow> bytes" where
  "xor_at ks pos [] = []"
| "xor_at ks pos (b # bs) = (b XOR ks pos) # xor_at ks (Suc pos) bs"

definition new_cipher :: "bytes \<Rightarrow> bytes \<Rightarrow> cipher" where
  "new_cipher key nonce = \<lparr> ch_key = key, ch_nonce = nonce, ch_pos = 0 \<rparr>"

definition apply_keystream :: "keystream \<Rightarrow> cipher \<Rightarrow> bytes \<Rightarrow> bytes \<times> cipher" where
  "apply_keystream K c bs = (xor_at (K (ch_key c) (ch_nonce c)) (ch_pos c) bs, c\<lparr> ch_pos := ch_pos c + length bs \<rparr>)"

lemma length_xor_at [simp]: "length (xor_at ks pos bs) = length bs"
  by (induction bs arbitrary: pos) auto

lemma xor_at_append [simp]: "xor_at ks pos (xs @ ys) = xor_at ks pos xs @ xor_at ks (pos + length xs) ys"
  by (induction xs arbitrary: pos) auto

lemma xor_at_involutive [simp]: "xor_at ks pos (xor_at ks pos bs) = bs"
  by (induction bs arbitrary: pos) (simp_all add: xor.assoc)

section \<open>Framing\<close>

definition FRAME_QUANTUM :: nat where "FRAME_QUANTUM = 256"
definition MAX_PENDING_BYTES :: nat where "MAX_PENDING_BYTES = 4 * FRAME_QUANTUM"
definition MAX_PAYLOAD_PER_FRAME :: nat where "MAX_PAYLOAD_PER_FRAME = MAX_PENDING_BYTES - 2"

lemmas frame_consts = FRAME_QUANTUM_def MAX_PENDING_BYTES_def MAX_PAYLOAD_PER_FRAME_def

text \<open>\<open>div_ceil\<close> times the quantum.\<close>
definition padded_frame_size :: "nat \<Rightarrow> nat" where
  "padded_frame_size frame_total = (frame_total + FRAME_QUANTUM - 1) div FRAME_QUANTUM * FRAME_QUANTUM"

text \<open>\<open>NeedHeader\<close> holds \<open>partial[..filled]\<close>.\<close>
datatype read_state = NeedHeader bytes | InBody u16 u16

record scramble_stream =
  ss_out :: cipher
  ss_in :: cipher
  ss_pending :: bytes
  ss_read :: read_state
  ss_jitter_max_ms :: "nat option"
  ss_sleeping :: bool

definition with_split_keys :: "bytes \<Rightarrow> bytes \<Rightarrow> bytes \<Rightarrow> bytes \<Rightarrow> nat option \<Rightarrow> scramble_stream" where
  "with_split_keys out_key out_nonce in_key in_nonce jitter =
     \<lparr> ss_out = new_cipher out_key out_nonce, ss_in = new_cipher in_key in_nonce, ss_pending = [],
       ss_read = NeedHeader [], ss_jitter_max_ms = jitter, ss_sleeping = False \<rparr>"

section \<open>Reading\<close>

text \<open>The state after a complete header.\<close>
definition enter_body :: "bytes \<Rightarrow> read_state" where
  "enter_body header =
     (let payload_len = of_be header :: u16; frame_total = 2 + unat payload_len
      in InBody payload_len (of_nat (padded_frame_size frame_total - frame_total)))"

text \<open>One iteration of the loop of \<open>poll_read\<close>: \<open>Inl\<close> returns, \<open>Inr\<close> goes round again.\<close>
definition read_step ::
  "keystream \<Rightarrow> nat \<Rightarrow> scramble_stream \<times> source_answer list
     \<Rightarrow> (bytes poll \<times> scramble_stream \<times> source_answer list) + scramble_stream \<times> source_answer list" where
  "read_step K buf_len = (\<lambda>(ss, src).
     (case ss_read ss of
        NeedHeader partial \<Rightarrow>
          (case inner_read (2 - length partial) src of
             (Pending, src) \<Rightarrow> Inl (Pending, ss, src)
           | (Ready (Inl e), src) \<Rightarrow> Inl (Ready (Inl e), ss, src)
           | (Ready (Inr bs), src) \<Rightarrow>
               if bs = [] then Inl (Ready (if partial = [] then Inr [] else Inl UnexpectedEof), ss, src)
               else let (plain, c) = apply_keystream K (ss_in ss) bs; partial = partial @ plain
                    in Inr (ss\<lparr> ss_in := c,
                              ss_read := (if length partial = 2 then enter_body partial else NeedHeader partial) \<rparr>, src))
      | InBody payload pad \<Rightarrow>
          if payload > 0 then
            (case inner_read (min buf_len (unat payload)) src of
               (Pending, src) \<Rightarrow> Inl (Pending, ss, src)
             | (Ready (Inl e), src) \<Rightarrow> Inl (Ready (Inl e), ss, src)
             | (Ready (Inr bs), src) \<Rightarrow>
                 if bs = [] then Inl (Ready (Inl UnexpectedEof), ss, src)
                 else let (plain, c) = apply_keystream K (ss_in ss) bs
                      in Inl (Ready (Inr plain),
                              ss\<lparr> ss_in := c, ss_read := InBody (payload - of_nat (length bs)) pad \<rparr>, src))
          else if pad > 0 then
            (case inner_read (min (unat pad) 512) src of
               (Pending, src) \<Rightarrow> Inl (Pending, ss, src)
             | (Ready (Inl e), src) \<Rightarrow> Inl (Ready (Inl e), ss, src)
             | (Ready (Inr bs), src) \<Rightarrow>
                 if bs = [] then Inl (Ready (Inl UnexpectedEof), ss, src)
                 else let (_, c) = apply_keystream K (ss_in ss) bs
                      in Inr (ss\<lparr> ss_in := c, ss_read := InBody payload (pad - of_nat (length bs)) \<rparr>, src))
          else Inr (ss\<lparr> ss_read := NeedHeader [] \<rparr>, src)))"

partial_function (option) poll_read_loop ::
  "keystream \<Rightarrow> nat \<Rightarrow> scramble_stream \<times> source_answer list
     \<Rightarrow> (bytes poll \<times> scramble_stream \<times> source_answer list) option" where
  "poll_read_loop K buf_len x =
     (case read_step K buf_len x of Inl r \<Rightarrow> Some r | Inr y \<Rightarrow> poll_read_loop K buf_len y)"

definition poll_read ::
  "keystream \<Rightarrow> nat \<Rightarrow> scramble_stream \<Rightarrow> source_answer list
     \<Rightarrow> (bytes poll \<times> scramble_stream \<times> source_answer list) option" where
  "poll_read K buf_len ss src =
     (if buf_len = 0 then Some (Ready (Inr []), ss, src) else poll_read_loop K buf_len (ss, src))"

section \<open>Writing\<close>

lemma inner_write_accepted:
  "inner_write bs sk = (Ready (Inr n), sk') \<Longrightarrow> n \<le> length bs \<and> sk_wire sk' = sk_wire sk @ take n bs"
  by (auto simp: inner_write_def split: list.splits sink_answer.splits)

lemma inner_write_refused:
  "inner_write bs sk = (Pending, sk') \<Longrightarrow> sk_wire sk' = sk_wire sk"
  "inner_write bs sk = (Ready (Inl e), sk') \<Longrightarrow> sk_wire sk' = sk_wire sk"
  by (auto simp: inner_write_def split: list.splits sink_answer.splits)

function drain_pending :: "bytes \<Rightarrow> sink \<Rightarrow> unit poll \<times> bytes \<times> sink" where
  "drain_pending pending sk =
     (if pending = [] then (Ready (Inr ()), [], sk)
      else case inner_write pending sk of
        (Ready (Inr n), sk) \<Rightarrow>
          if n = 0 then (Ready (Inl WriteZero), pending, sk) else drain_pending (drop n pending) sk
      | (Ready (Inl e), sk) \<Rightarrow> (Ready (Inl e), pending, sk)
      | (Pending, sk) \<Rightarrow> (Pending, pending, sk))"
  by auto
termination
  by (relation "measure (\<lambda>(pending, _). length pending)") auto

declare drain_pending.simps [simp del]

definition build_frame :: "bytes \<Rightarrow> bytes" where
  "build_frame payload =
     be16 (of_nat (length payload)) @ payload
       @ replicate (padded_frame_size (2 + length payload) - (2 + length payload)) 0"

text \<open>The jitter gate: whether the write may go on, and the sleep that is then in progress.\<close>
definition jitter_gate :: "nat \<Rightarrow> bool \<Rightarrow> scramble_stream \<Rightarrow> bool \<times> bool" where
  "jitter_gate delay fired ss =
     (if ss_sleeping ss then (fired, \<not> fired)
      else case ss_jitter_max_ms ss of
        Some cap \<Rightarrow> if cap > 0 \<and> delay > 0 then (fired, \<not> fired) else (True, False)
      | None \<Rightarrow> (True, False))"

definition emit_frame :: "keystream \<Rightarrow> bytes \<Rightarrow> scramble_stream \<Rightarrow> sink \<Rightarrow> nat poll \<times> scramble_stream \<times> sink" where
  "emit_frame K buf ss sk =
     (let payload = take MAX_PAYLOAD_PER_FRAME buf;
          (frame, c) = apply_keystream K (ss_out ss) (build_frame payload);
          ss = ss\<lparr> ss_out := c \<rparr>
      in case inner_write frame sk of
           (Ready (Inr n), sk) \<Rightarrow>
             (Ready (Inr (length payload)), ss\<lparr> ss_pending := ss_pending ss @ drop n frame \<rparr>, sk)
         | (Ready (Inl e), sk) \<Rightarrow> (Ready (Inl e), ss, sk)
         | (Pending, sk) \<Rightarrow>
             (Ready (Inr (length payload)), ss\<lparr> ss_pending := ss_pending ss @ frame \<rparr>, sk))"

definition poll_write ::
  "keystream \<Rightarrow> nat \<Rightarrow> bool \<Rightarrow> bytes \<Rightarrow> scramble_stream \<Rightarrow> sink \<Rightarrow> nat poll \<times> scramble_stream \<times> sink" where
  "poll_write K delay fired buf ss sk =
     (if buf = [] then (Ready (Inr 0), ss, sk)
      else case drain_pending (ss_pending ss) sk of
        (Pending, p, sk) \<Rightarrow> (Pending, ss\<lparr> ss_pending := p \<rparr>, sk)
      | (Ready (Inl e), p, sk) \<Rightarrow> (Ready (Inl e), ss\<lparr> ss_pending := p \<rparr>, sk)
      | (Ready (Inr _), p, sk) \<Rightarrow>
          (let (go, sleeping) = jitter_gate delay fired ss;
               ss = ss\<lparr> ss_pending := p, ss_sleeping := sleeping \<rparr>
           in if go then emit_frame K buf ss sk else (Pending, ss, sk)))"

text \<open>\<open>poll_flush\<close> and \<open>poll_close\<close>: both drain first.\<close>
definition poll_flush :: "scramble_stream \<Rightarrow> sink \<Rightarrow> unit poll \<times> scramble_stream \<times> sink" where
  "poll_flush ss sk =
     (case drain_pending (ss_pending ss) sk of
        (Ready (Inr _), p, sk) \<Rightarrow> (let (r, sk) = inner_flush sk in (r, ss\<lparr> ss_pending := p \<rparr>, sk))
      | (Ready (Inl e), p, sk) \<Rightarrow> (Ready (Inl e), ss\<lparr> ss_pending := p \<rparr>, sk)
      | (Pending, p, sk) \<Rightarrow> (Pending, ss\<lparr> ss_pending := p \<rparr>, sk))"

definition poll_close :: "scramble_stream \<Rightarrow> sink \<Rightarrow> unit poll \<times> scramble_stream \<times> sink" where
  "poll_close ss sk =
     (case drain_pending (ss_pending ss) sk of
        (Ready (Inr _), p, sk) \<Rightarrow> (let (r, sk) = inner_flush sk in (r, ss\<lparr> ss_pending := p \<rparr>, sk))
      | (Ready (Inl e), p, sk) \<Rightarrow> (Ready (Inl e), ss\<lparr> ss_pending := p \<rparr>, sk)
      | (Pending, p, sk) \<Rightarrow> (Pending, ss\<lparr> ss_pending := p \<rparr>, sk))"

section \<open>The handshake\<close>

record elligator =
  el_to_repr :: "bytes \<Rightarrow> byte \<Rightarrow> bytes option"   \<comment> \<open>\<open>Randomized::to_representative\<close>\<close>
  el_from_repr :: "bytes \<Rightarrow> bytes option"            \<comment> \<open>\<open>from_representative\<close>, then the Montgomery form\<close>

definition derive_ntor_keystream_pairs :: "prims \<Rightarrow> bytes \<Rightarrow> bytes \<Rightarrow> (bytes \<times> bytes) \<times> (bytes \<times> bytes)" where
  "derive_ntor_keystream_pairs P shared_secret obfs_key =
     (let ikm = shared_secret @ obfs_key;
          okm_d2l = hkdf_sha256 P (ascii ''ME55-ntor-v1'') ikm (ascii ''ME55-chacha-d2l-v1'') 44;
          okm_l2d = hkdf_sha256 P (ascii ''ME55-ntor-v1'') ikm (ascii ''ME55-chacha-l2d-v1'') 44
      in ((take 32 okm_d2l, drop 32 okm_d2l), (take 32 okm_l2d, drop 32 okm_l2d)))"

definition RETRY_LIMIT :: nat where "RETRY_LIMIT = 64"

text \<open>The loop over the draws of \<open>OsRng\<close>: a private key and a tweak each.\<close>
fun find_representable :: "elligator \<Rightarrow> (bytes \<times> byte) list \<Rightarrow> io_error + bytes \<times> bytes" where
  "find_representable L [] = Inl NoRepresentable"
| "find_representable L ((priv, tweak) # draws) =
     (case el_to_repr L priv tweak of Some repr \<Rightarrow> Inr (priv, repr) | None \<Rightarrow> find_representable L draws)"

definition generate_representable_keypair :: "elligator \<Rightarrow> (nat \<Rightarrow> bytes \<times> byte) \<Rightarrow> io_error + bytes \<times> bytes" where
  "generate_representable_keypair L draws = find_representable L (map draws [0..<RETRY_LIMIT])"

text \<open>Steps 3 to 5, on the representative received.\<close>
definition handshake_keys ::
  "prims \<Rightarrow> elligator \<Rightarrow> bytes \<Rightarrow> bool \<Rightarrow> nat option \<Rightarrow> bytes \<Rightarrow> bytes \<Rightarrow> io_error + scramble_stream" where
  "handshake_keys P L obfs_key is_dialer jitter my_priv their_repr =
     (case el_from_repr L their_repr of
        None \<Rightarrow> Inl InvalidData
      | Some their_pub \<Rightarrow>
          (let shared_secret = x25519_dh P my_priv their_pub in
           if shared_secret = replicate 32 0 then Inl InvalidData
           else let (d2l, l2d) = derive_ntor_keystream_pairs P shared_secret obfs_key;
                    (out, inn) = (if is_dialer then (d2l, l2d) else (l2d, d2l))
                in Inr (with_split_keys (fst out) (snd out) (fst inn) (snd inn) jitter)))"

text \<open>\<open>sent\<close> is the outcome of writing and flushing the own representative, \<open>received\<close> of \<open>read_exact\<close>; the
  dialer writes first, the listener reads first.  The result comes with what was written.\<close>
definition scramble_handshake ::
  "prims \<Rightarrow> elligator \<Rightarrow> (nat \<Rightarrow> bytes \<times> byte) \<Rightarrow> bytes \<Rightarrow> bool \<Rightarrow> nat option \<Rightarrow> (bytes \<Rightarrow> io_error + unit) \<Rightarrow> io_error + bytes
     \<Rightarrow> (io_error + scramble_stream) \<times> bytes option" where
  "scramble_handshake P L draws obfs_key is_dialer jitter sent received =
     (case generate_representable_keypair L draws of
        Inl e \<Rightarrow> (Inl e, None)
      | Inr (my_priv, my_repr) \<Rightarrow>
          (if is_dialer then
             (case sent my_repr of
                Inl e \<Rightarrow> (Inl e, None)
              | Inr _ \<Rightarrow>
                  (case received of
                     Inl e \<Rightarrow> (Inl e, Some my_repr)
                   | Inr their_repr \<Rightarrow> (handshake_keys P L obfs_key is_dialer jitter my_priv their_repr, Some my_repr)))
           else
             (case received of
                Inl e \<Rightarrow> (Inl e, None)
              | Inr their_repr \<Rightarrow>
                  (case sent my_repr of
                     Inl e \<Rightarrow> (Inl e, None)
                   | Inr _ \<Rightarrow> (handshake_keys P L obfs_key is_dialer jitter my_priv their_repr, Some my_repr)))))"

section \<open>The wrapped or plain stream\<close>

text \<open>The plain variant carries no state of its own.\<close>
datatype maybe_scrambled = Plain | Scrambled scramble_stream

definition maybe_poll_read ::
  "keystream \<Rightarrow> nat \<Rightarrow> maybe_scrambled \<Rightarrow> source_answer list \<Rightarrow> (bytes poll \<times> maybe_scrambled \<times> source_answer list) option" where
  "maybe_poll_read K buf_len s src =
     (case s of
        Plain \<Rightarrow> (let (r, src) = inner_read buf_len src in Some (r, Plain, src))
      | Scrambled ss \<Rightarrow> map_option (\<lambda>(r, ss, src). (r, Scrambled ss, src)) (poll_read K buf_len ss src))"

definition maybe_poll_write ::
  "keystream \<Rightarrow> nat \<Rightarrow> bool \<Rightarrow> bytes \<Rightarrow> maybe_scrambled \<Rightarrow> sink \<Rightarrow> nat poll \<times> maybe_scrambled \<times> sink" where
  "maybe_poll_write K delay fired buf s sk =
     (case s of
        Plain \<Rightarrow> (let (r, sk) = inner_write buf sk in (r, Plain, sk))
      | Scrambled ss \<Rightarrow> (let (r, ss, sk) = poll_write K delay fired buf ss sk in (r, Scrambled ss, sk)))"

end
