(* ===== verification/ScrambleProps.thy ===== *)
theory ScrambleProps
  imports Scramble
begin

text \<open>
  The scrambled transport refines a byte pipe.  A reference decoder that consumes one byte at a time is
  the specification of the reader: whatever the fragmentation of the wire and the sizes of the
  caller's buffers, the reads deliver what the decoder delivers.  The writer keeps its wire and its parked
  bytes a scrambled sequence of frames; together a byte accepted is a byte delivered.
\<close>

section \<open>The reference decoder\<close>

text \<open>An exhausted frame and a fresh header are the same state.\<close>
definition normal :: "read_state \<Rightarrow> read_state" where
  "normal rs = (if rs = InBody 0 0 then NeedHeader [] else rs)"

fun decode_byte :: "read_state \<Rightarrow> byte \<Rightarrow> read_state \<times> bytes" where
  "decode_byte (NeedHeader partial) b =
     (let h = partial @ [b] in (if length h = 2 then enter_body h else NeedHeader h, []))"
| "decode_byte (InBody payload pad) b =
     (if payload > 0 then (InBody (payload - 1) pad, [b]) else (InBody 0 (pad - 1), []))"

primrec decode :: "read_state \<Rightarrow> bytes \<Rightarrow> bytes \<times> read_state" where
  "decode rs [] = ([], normal rs)"
| "decode rs (b # bs) =
     (let (rs, out) = decode_byte (normal rs) b; (outs, rs) = decode rs bs in (out @ outs, rs))"

lemma normal_normal [simp]: "normal (normal rs) = normal rs" "normal (NeedHeader p) = NeedHeader p"
  by (simp_all add: normal_def)

lemma decode_normal [simp]: "decode (normal rs) bs = decode rs bs"
  by (cases bs) simp_all

lemma decode_state_normal [simp]: "normal (snd (decode rs bs)) = snd (decode rs bs)"
  by (induction bs arbitrary: rs) (simp_all add: case_prod_unfold Let_def)

lemma decode_append:
  "decode rs (xs @ ys) = (fst (decode rs xs) @ fst (decode (snd (decode rs xs)) ys), snd (decode (snd (decode rs xs)) ys))"
  by (induction xs arbitrary: rs) (simp_all add: case_prod_unfold Let_def)

lemma word_pred16: "0 < (p :: u16) \<Longrightarrow> unat (p - 1) = unat p - 1"
  by (simp add: unat_minus_one word_gt_0)

lemma decode_payload: "length bs \<le> unat p \<Longrightarrow> decode (InBody p q) bs = (bs, normal (InBody (p - of_nat (length bs)) q))"
proof (induction bs arbitrary: p)
  case (Cons b bs)
  then have "0 < p" by (metis le_zero_eq length_0_conv list.distinct(1) unat_eq_zero word_gt_0)
  then have "unat (p - 1) = unat p - 1" "normal (InBody p q) = InBody p q" by (auto simp: word_pred16 normal_def)
  then show ?case using Cons \<open>0 < p\<close> by (simp add: algebra_simps)
qed simp

lemma decode_pad: "length bs \<le> unat q \<Longrightarrow> decode (InBody 0 q) bs = ([], normal (InBody 0 (q - of_nat (length bs))))"
proof (induction bs arbitrary: q)
  case (Cons b bs)
  then have "0 < q" by (metis le_zero_eq length_0_conv list.distinct(1) unat_eq_zero word_gt_0)
  then have "unat (q - 1) = unat q - 1" "normal (InBody 0 q) = InBody 0 q" by (auto simp: word_pred16 normal_def)
  then show ?case using Cons by (simp add: algebra_simps)
qed simp

lemma decode_header:
  assumes "length (partial @ bs) \<le> 2" "bs \<noteq> []"
  shows "decode (NeedHeader partial) bs
    = ([], if length (partial @ bs) = 2 then normal (enter_body (partial @ bs)) else NeedHeader (partial @ bs))"
proof (cases bs rule: list.exhaust)
  case (Cons b rest)
  show ?thesis
  proof (cases rest)
    case Nil
    then show ?thesis using Cons assms by auto
  next
    case (Cons c more)
    then have "partial = []" "more = []" using \<open>bs = b # rest\<close> assms(1) by auto
    then show ?thesis using \<open>bs = b # rest\<close> Cons by simp
  qed
qed (use assms in simp)

section \<open>The source\<close>

primrec delivered :: "bytes poll \<Rightarrow> bytes" where
  "delivered Pending = []"
| "delivered (Ready r) = (case r of Inl _ \<Rightarrow> [] | Inr bs \<Rightarrow> bs)"

text \<open>The bytes a source will give, which are those before its end, and what is left of it then.\<close>
fun src_bytes :: "source_answer list \<Rightarrow> bytes" where
  "src_bytes [] = []"
| "src_bytes (SEof # src) = []"
| "src_bytes (SBytes bs # src) = bs @ src_bytes src"
| "src_bytes (_ # src) = src_bytes src"

definition at_end :: "source_answer list \<Rightarrow> source_answer list" where
  "at_end src = dropWhile (\<lambda>a. a \<noteq> SEof) src"

text \<open>The number of its answers and bytes.\<close>
fun src_measure :: "source_answer list \<Rightarrow> nat" where
  "src_measure [] = 0"
| "src_measure (SEof # src) = 0"
| "src_measure (SBytes bs # src) = Suc (length bs) + src_measure src"
| "src_measure (_ # src) = Suc (src_measure src)"

lemma inner_read_source:
  assumes "inner_read want src = (r, src')"
  shows "src_bytes src = delivered r @ src_bytes src'" "length (delivered r) \<le> want" "at_end src' = at_end src"
    "src_measure src' \<le> src_measure src" "0 < want \<Longrightarrow> 0 < src_measure src \<Longrightarrow> src_measure src' < src_measure src"
    "delivered r \<noteq> [] \<Longrightarrow> src_measure src' < src_measure src"
proof -
  have "src_bytes src = delivered r @ src_bytes src' \<and> length (delivered r) \<le> want \<and> at_end src' = at_end src
     \<and> src_measure src' \<le> src_measure src \<and> (0 < want \<and> 0 < src_measure src \<longrightarrow> src_measure src' < src_measure src)
     \<and> (delivered r \<noteq> [] \<longrightarrow> src_measure src' < src_measure src)"
    using assms by (cases "(want, src)" rule: inner_read.cases) (auto simp: at_end_def split: if_splits)
  then show "src_bytes src = delivered r @ src_bytes src'" "length (delivered r) \<le> want" "at_end src' = at_end src"
    "src_measure src' \<le> src_measure src" "0 < want \<Longrightarrow> 0 < src_measure src \<Longrightarrow> src_measure src' < src_measure src"
    "delivered r \<noteq> [] \<Longrightarrow> src_measure src' < src_measure src"
    by blast+
qed

lemma src_measure_0: "src_measure src = 0 \<Longrightarrow> src_bytes src = [] \<and> at_end src = src"
  by (induction src rule: src_measure.induct) (simp_all add: at_end_def)

section \<open>The reader implements the decoder\<close>

text \<open>From \<open>x\<close> to \<open>y\<close> some bytes of the source were used, and \<open>out\<close> is what the decoder makes of them.\<close>
definition reads ::
  "keystream \<Rightarrow> scramble_stream \<times> source_answer list \<Rightarrow> bytes \<Rightarrow> scramble_stream \<times> source_answer list \<Rightarrow> bool" where
  "reads K x out y \<longleftrightarrow> (\<exists>used. src_bytes (snd x) = used @ src_bytes (snd y)
     \<and> ss_in (fst y) = (ss_in (fst x))\<lparr> ch_pos := ch_pos (ss_in (fst x)) + length used \<rparr>
     \<and> decode (ss_read (fst x)) (fst (apply_keystream K (ss_in (fst x)) used)) = (out, normal (ss_read (fst y))))"

lemma reads_refl [intro]: "src_bytes (snd x) = src_bytes (snd y) \<Longrightarrow> ss_in (fst y) = ss_in (fst x) \<Longrightarrow>
    normal (ss_read (fst y)) = normal (ss_read (fst x)) \<Longrightarrow> reads K x [] y"
  by (auto simp: reads_def apply_keystream_def)

lemma reads_trans:
  assumes "reads K x out y" "reads K y out' z"
  shows "reads K x (out @ out') z"
proof -
  obtain u where u: "src_bytes (snd x) = u @ src_bytes (snd y)"
    "ss_in (fst y) = (ss_in (fst x))\<lparr> ch_pos := ch_pos (ss_in (fst x)) + length u \<rparr>"
    "decode (ss_read (fst x)) (fst (apply_keystream K (ss_in (fst x)) u)) = (out, normal (ss_read (fst y)))"
    using assms(1) by (auto simp: reads_def)
  obtain v where v: "src_bytes (snd y) = v @ src_bytes (snd z)"
    "ss_in (fst z) = (ss_in (fst y))\<lparr> ch_pos := ch_pos (ss_in (fst y)) + length v \<rparr>"
    "decode (ss_read (fst y)) (fst (apply_keystream K (ss_in (fst y)) v)) = (out', normal (ss_read (fst z)))"
    using assms(2) by (auto simp: reads_def)
  show ?thesis unfolding reads_def
    by (rule exI [of _ "u @ v"]) (use u v in \<open>simp add: apply_keystream_def decode_append add.assoc\<close>)
qed

lemma reads_chunk:
  assumes "inner_read want src = (Ready (Inr bs), src')" "apply_keystream K (ss_in ss) bs = (plain, c)"
    and "decode (ss_read ss) plain = (out, normal rs)"
  shows "reads K (ss, src) out (ss\<lparr> ss_in := c, ss_read := rs \<rparr>, src')"
  unfolding reads_def using inner_read_source(1) [OF assms(1)] assms(2,3)
  by (intro exI [of _ bs]) (auto simp: apply_keystream_def)

definition read_wf :: "read_state \<Rightarrow> bool" where
  "read_wf rs = (case rs of NeedHeader partial \<Rightarrow> length partial < 2 | InBody _ _ \<Rightarrow> True)"

definition step_measure :: "scramble_stream \<times> source_answer list \<Rightarrow> nat" where
  "step_measure x = 2 * src_measure (snd x) + (case ss_read (fst x) of NeedHeader _ \<Rightarrow> 0 | InBody _ _ \<Rightarrow> 1)"

text \<open>What one iteration, and the whole loop, establish.\<close>
definition advance ::
  "keystream \<Rightarrow> scramble_stream \<times> source_answer list \<Rightarrow> bytes \<Rightarrow> scramble_stream \<times> source_answer list \<Rightarrow> bool" where
  "advance K x out y \<longleftrightarrow> reads K x out y \<and> src_measure (snd y) \<le> src_measure (snd x) \<and> at_end (snd y) = at_end (snd x)
     \<and> (read_wf (ss_read (fst x)) \<longrightarrow> read_wf (ss_read (fst y)))"

definition returns ::
  "keystream \<Rightarrow> scramble_stream \<times> source_answer list \<Rightarrow> bytes poll \<times> scramble_stream \<times> source_answer list \<Rightarrow> bool" where
  "returns K x ret \<longleftrightarrow> advance K x (delivered (fst ret)) (snd ret)
     \<and> (read_wf (ss_read (fst x)) \<and> 0 < src_measure (snd x) \<longrightarrow> src_measure (snd (snd ret)) < src_measure (snd x))"

text \<open>A poll of the source that delivers nothing.\<close>
lemma returns_nothing:
  assumes "inner_read want src = (r, src')" "delivered r = []" "delivered r' = []" "read_wf (ss_read ss) \<Longrightarrow> 0 < want"
  shows "returns K (ss, src) (r', ss, src')"
  using inner_read_source [OF assms(1)] assms(2-4) by (auto simp: returns_def advance_def)

lemma enter_body_wf [simp]: "read_wf (enter_body h)" "read_wf (InBody p q)"
  by (simp_all add: enter_body_def read_wf_def Let_def)

lemma step_returns:
  assumes "read_step K len x = Inl ret" "0 < len"
  shows "returns K x ret"
proof (cases "ss_read (fst x)")
  case (NeedHeader partial)
  then show ?thesis using assms
    by (cases x) (auto simp: read_step_def read_wf_def Let_def split: prod.splits poll.splits sum.splits if_splits intro!: returns_nothing)
next
  case (InBody payload pad)
  obtain ss src where x: "x = (ss, src)" by (cases x)
  consider "payload > 0" | "payload = 0" "pad > 0" | "payload = 0" "pad = 0" by (metis word_gt_0)
  then show ?thesis
  proof cases
    case 1
    have want: "0 < min len (unat payload)" using 1 assms(2) by (simp add: word_gt_0 unat_gt_0)
    obtain r src' where i: "inner_read (min len (unat payload)) src = (r, src')" by fastforce
    show ?thesis
    proof (cases "delivered r")
      case Nil
      then show ?thesis using assms(1) InBody x i 1 want
        by (auto simp: read_step_def split: poll.splits sum.splits intro!: returns_nothing [OF i])
    next
      case (Cons b rest)
      then obtain bs where r: "r = Ready (Inr bs)" "bs \<noteq> []" by (cases r) (auto split: sum.splits)
      have l: "length bs \<le> unat payload" using inner_read_source(2) [OF i] r by simp
      obtain plain c where a: "apply_keystream K (ss_in ss) bs = (plain, c)" by fastforce
      then have "length plain = length bs" by (auto simp: apply_keystream_def)
      then have "decode (ss_read ss) plain = (plain, normal (InBody (payload - of_nat (length bs)) pad))"
        using decode_payload l InBody x by simp
      from reads_chunk [OF i [unfolded r(1)] a this] show ?thesis
        using assms(1) InBody x i 1 r a inner_read_source(3,4,6) [OF i]
        by (auto simp: read_step_def returns_def advance_def)
    qed
  next
    case 2
    have want: "0 < min (unat pad) 512" using 2 by (simp add: word_gt_0 unat_gt_0)
    obtain r src' where i: "inner_read (min (unat pad) 512) src = (r, src')" by fastforce
    then show ?thesis using assms(1) InBody x 2 want
      by (auto simp: read_step_def split: prod.splits poll.splits sum.splits if_splits intro!: returns_nothing [OF i])
  next
    case 3
    then show ?thesis using assms(1) InBody x by (simp add: read_step_def)
  qed
qed

lemma step_continues:
  assumes "read_step K len x = Inr y"
  shows "advance K x [] y \<and> step_measure y < step_measure x"
proof -
  obtain ss src where x: "x = (ss, src)" by (cases x)
  show ?thesis
  proof (cases "ss_read ss")
    case (NeedHeader partial)
    obtain r src' where i: "inner_read (2 - length partial) src = (r, src')" by fastforce
    obtain bs where r: "r = Ready (Inr bs)" "bs \<noteq> []"
      using assms x NeedHeader i by (auto simp: read_step_def split: poll.splits sum.splits if_splits)
    obtain plain c where a: "apply_keystream K (ss_in ss) bs = (plain, c)" by fastforce
    have "length plain = length bs" using a by (auto simp: apply_keystream_def)
    moreover have "length partial + length bs \<le> 2"
    proof -
      have "0 < length bs" "length bs \<le> 2 - length partial" using inner_read_source(2) [OF i] r by auto
      then show ?thesis by arith
    qed
    ultimately have len: "length (partial @ plain) \<le> 2" "plain \<noteq> []" using r(2) by auto
    let ?rs = "if length (partial @ plain) = 2 then enter_body (partial @ plain) else NeedHeader (partial @ plain)"
    have y: "y = (ss\<lparr> ss_in := c, ss_read := ?rs \<rparr>, src')"
      using assms x NeedHeader i r a by (simp add: read_step_def Let_def)
    have d: "decode (ss_read ss) plain = ([], normal ?rs)" using decode_header [OF len] NeedHeader by simp
    have "read_wf ?rs" using len(1) by (auto simp: read_wf_def enter_body_def Let_def)
    moreover have "src_measure src' < src_measure src" "at_end src' = at_end src" using inner_read_source(3,6) [OF i] r by simp_all
    ultimately show ?thesis using reads_chunk [OF i [unfolded r(1)] a d] x y NeedHeader
      by (simp add: advance_def step_measure_def split: read_state.split)
  next
    case (InBody payload pad)
    consider "payload > 0" | "payload = 0" "pad > 0" | "payload = 0" "pad = 0" by (metis word_gt_0)
    then show ?thesis
    proof cases
      case 1
      then show ?thesis using assms x InBody by (auto simp: read_step_def split: prod.splits poll.splits sum.splits if_splits)
    next
      case 2
      obtain r src' where i: "inner_read (min (unat pad) 512) src = (r, src')" by fastforce
      obtain bs where r: "r = Ready (Inr bs)" "bs \<noteq> []"
        using assms x InBody i 2 by (auto simp: read_step_def split: poll.splits sum.splits if_splits)
      obtain plain c where a: "apply_keystream K (ss_in ss) bs = (plain, c)" by fastforce
      then have "length plain = length bs" by (auto simp: apply_keystream_def)
      then have d: "decode (ss_read ss) plain = ([], normal (InBody payload (pad - of_nat (length bs))))"
        using inner_read_source(2) [OF i] r 2 InBody by (simp add: decode_pad)
      have y: "y = (ss\<lparr> ss_in := c, ss_read := InBody payload (pad - of_nat (length bs)) \<rparr>, src')"
        using assms x InBody i r a 2 by (simp add: read_step_def)
      have "src_measure src' < src_measure src" "at_end src' = at_end src" using inner_read_source(3,6) [OF i] r by simp_all
      then show ?thesis using reads_chunk [OF i [unfolded r(1)] a d] x y InBody
        by (simp add: advance_def step_measure_def)
    next
      case 3
      then have "y = (ss\<lparr> ss_read := NeedHeader [] \<rparr>, src)" using assms x InBody by (simp add: read_step_def)
      then show ?thesis using x InBody 3
        by (auto simp: advance_def step_measure_def read_wf_def normal_def)
    qed
  qed
qed

lemma loop_returns:
  assumes "0 < len"
  shows "\<exists>ret. poll_read_loop K len x = Some ret \<and> returns K x ret"
proof (induction "step_measure x" arbitrary: x rule: less_induct)
  case less
  show ?case
  proof (cases "read_step K len x")
    case (Inl ret)
    then show ?thesis using step_returns assms by (subst poll_read_loop.simps) auto
  next
    case (Inr y)
    note y = step_continues [OF Inr]
    obtain ret where ret: "poll_read_loop K len y = Some ret" "returns K y ret" using less y by blast
    have "src_measure (snd y) \<le> src_measure (snd x)" using y by (simp add: advance_def)
    moreover have "at_end (snd y) = at_end (snd x)" using y by (simp add: advance_def)
    ultimately have "returns K x ret" using y ret(2) reads_trans [of K x "[]" y]
      by (auto simp: returns_def advance_def)
    then show ?thesis using Inr ret(1) by (subst poll_read_loop.simps) simp
  qed
qed

lemma poll_read_ok:
  "\<exists>ret. poll_read K len ss src = Some ret \<and> advance K (ss, src) (delivered (fst ret)) (snd ret)
     \<and> (0 < len \<and> read_wf (ss_read ss) \<and> 0 < src_measure src \<longrightarrow> src_measure (snd (snd ret)) < src_measure src)"
proof (cases "len = 0")
  case False
  then show ?thesis using loop_returns [of len K "(ss, src)"] by (auto simp: poll_read_def returns_def)
qed (auto simp: poll_read_def advance_def)

text \<open>At the end of the stream.\<close>
lemma read_at_end:
  "poll_read K (Suc len) ss (SEof # rest) = Some
     (Ready (if normal (ss_read ss) = NeedHeader [] then Inr [] else Inl UnexpectedEof), ss\<lparr> ss_read := normal (ss_read ss) \<rparr>, SEof # rest)"
proof -
  have between: "poll_read_loop K (Suc len) (t, SEof # rest)
      = Some (Ready (if ss_read t = NeedHeader [] then Inr [] else Inl UnexpectedEof), t, SEof # rest)"
    if "ss_read t \<noteq> InBody 0 0" for t
    using that by (subst poll_read_loop.simps) (auto simp: read_step_def word_gt_0 split: read_state.split)
  show ?thesis
  proof (cases "ss_read ss = InBody 0 0")
    case True
    then show ?thesis using between [of "ss\<lparr> ss_read := NeedHeader [] \<rparr>"]
      by (simp add: poll_read_def normal_def) (subst poll_read_loop.simps, simp add: read_step_def)
  next
    case False
    then show ?thesis using between [of ss] by (simp add: poll_read_def normal_def)
  qed
qed

section \<open>Sequences of reads\<close>

text \<open>Polls with the given buffer sizes; the bytes delivered by all of them.\<close>
fun read_run ::
  "keystream \<Rightarrow> nat list \<Rightarrow> scramble_stream \<Rightarrow> source_answer list \<Rightarrow> (bytes \<times> scramble_stream \<times> source_answer list) option" where
  "read_run K [] ss src = Some ([], ss, src)"
| "read_run K (len # lens) ss src =
     (case poll_read K len ss src of
        None \<Rightarrow> None
      | Some (r, ss, src) \<Rightarrow>
          (case read_run K lens ss src of
             None \<Rightarrow> None | Some (out, ss, src) \<Rightarrow> Some (delivered r @ out, ss, src)))"

lemma read_run_ok:
  "\<exists>out y. read_run K lens ss src = Some (out, y) \<and> advance K (ss, src) out y
     \<and> (read_wf (ss_read ss) \<and> 0 \<notin> set lens \<longrightarrow> src_measure (snd y) \<le> src_measure src - length lens)"
proof (induction lens arbitrary: ss src)
  case Nil
  then show ?case by (auto simp: advance_def)
next
  case (Cons len lens)
  obtain r ss1 src1 where p: "poll_read K len ss src = Some (r, ss1, src1)" "advance K (ss, src) (delivered r) (ss1, src1)"
    "0 < len \<and> read_wf (ss_read ss) \<and> 0 < src_measure src \<longrightarrow> src_measure src1 < src_measure src"
    using poll_read_ok [of K len ss src] by auto
  obtain out y where q: "read_run K lens ss1 src1 = Some (out, y)" "advance K (ss1, src1) out y"
    "read_wf (ss_read ss1) \<and> 0 \<notin> set lens \<longrightarrow> src_measure (snd y) \<le> src_measure src1 - length lens"
    using Cons.IH by blast
  have "advance K (ss, src) (delivered r @ out) y"
    using p(2) q(2) reads_trans [of K "(ss, src)" "delivered r" "(ss1, src1)" out y] by (simp add: advance_def)
  moreover have "src_measure (snd y) \<le> src_measure src - length (len # lens)"
    if wf: "read_wf (ss_read ss)" and pos: "0 \<notin> set (len # lens)"
  proof -
    have "src_measure (snd y) \<le> src_measure src1 - length lens" using q(3) p(2) wf pos by (simp add: advance_def)
    moreover have "src_measure src1 < src_measure src \<or> src_measure src = 0" using p(3) wf pos by auto
    moreover have "src_measure src1 \<le> src_measure src" using p(2) by (simp add: advance_def)
    ultimately show ?thesis by auto
  qed
  ultimately show ?case using p(1) q(1) by auto
qed

section \<open>Frames\<close>

definition frames :: "bytes list \<Rightarrow> bytes" where
  "frames chunks = concat (map build_frame chunks)"

lemma padded_size:
  "n \<le> padded_frame_size n" "padded_frame_size n < n + FRAME_QUANTUM" "FRAME_QUANTUM dvd padded_frame_size n"
proof -
  have "(n + 255) div 256 * 256 = n + 255 - (n + 255) mod 256" by (simp add: minus_mod_eq_div_mult)
  moreover have "(n + 255) mod 256 < 256" "(n + 255) mod 256 \<le> n + 255" by auto
  ultimately show "n \<le> padded_frame_size n" "padded_frame_size n < n + FRAME_QUANTUM"
    unfolding padded_frame_size_def FRAME_QUANTUM_def by linarith+
  show "FRAME_QUANTUM dvd padded_frame_size n" by (simp add: padded_frame_size_def)
qed

lemma padded_size_mono: "m \<le> n \<Longrightarrow> padded_frame_size m \<le> padded_frame_size n"
  by (simp add: padded_frame_size_def div_le_mono)

lemma length_build_frame: "length (build_frame payload) = padded_frame_size (2 + length payload)"
  using padded_size(1) [of "2 + length payload"] by (simp add: build_frame_def)

lemma length_build_frame_le: "length payload \<le> MAX_PAYLOAD_PER_FRAME \<Longrightarrow> length (build_frame payload) \<le> MAX_PENDING_BYTES"
  using padded_size_mono [of "2 + length payload" 1024]
  by (simp add: length_build_frame frame_consts padded_frame_size_def)

lemma decode_frame:
  assumes "length payload \<le> MAX_PAYLOAD_PER_FRAME"
  shows "decode (NeedHeader []) (build_frame payload) = (payload, NeedHeader [])"
proof -
  let ?n = "length payload" and ?pad = "padded_frame_size (2 + length payload) - (2 + length payload)"
  have n: "?n \<le> 1022" using assms by (simp add: frame_consts)
  have pad: "?pad < 256" using padded_size [of "2 + ?n"] by (simp add: FRAME_QUANTUM_def)
  have u: "unat (of_nat ?n :: u16) = ?n" "unat (of_nat ?pad :: u16) = ?pad"
    using n pad by (auto simp: unat_of_nat take_bit_nat_eq_self)
  have e: "enter_body (be16 (of_nat ?n)) = InBody (of_nat ?n) (of_nat ?pad)"
    unfolding enter_body_def Let_def by (simp add: u(1))
  have h: "decode (NeedHeader []) (be16 (of_nat ?n)) = ([], normal (InBody (of_nat ?n) (of_nat ?pad)))"
    using decode_header [of "[]" "be16 (of_nat ?n)"] e by (auto simp: list_eq_iff_nth_eq)
  have p: "decode (InBody (of_nat ?n) (of_nat ?pad)) payload = (payload, normal (InBody 0 (of_nat ?pad)))"
    using decode_payload [of payload "of_nat ?n"] u by simp
  have q: "decode (InBody 0 (of_nat ?pad)) (replicate ?pad 0) = ([], NeedHeader [])"
    using decode_pad [of "replicate ?pad 0" "of_nat ?pad"] u by (simp add: normal_def)
  show ?thesis unfolding build_frame_def by (simp only: decode_append h p q decode_normal fst_conv snd_conv append.simps append_Nil2)
qed

lemma decode_frames:
  "\<forall>c \<in> set chunks. length c \<le> MAX_PAYLOAD_PER_FRAME \<Longrightarrow> decode (NeedHeader []) (frames chunks) = (concat chunks, NeedHeader [])"
  by (induction chunks) (simp_all add: frames_def decode_append decode_frame)

section \<open>The writer\<close>

datatype write_call = WriteCall nat bool bytes | FlushCall | CloseCall

primrec call_buf :: "write_call \<Rightarrow> bytes" where
  "call_buf (WriteCall delay fired buf) = buf"
| "call_buf FlushCall = []"
| "call_buf CloseCall = []"

primrec map_poll :: "('a \<Rightarrow> 'b) \<Rightarrow> 'a poll \<Rightarrow> 'b poll" where
  "map_poll f Pending = Pending"
| "map_poll f (Ready r) = Ready (map_sum id f r)"

primrec do_call :: "keystream \<Rightarrow> write_call \<Rightarrow> scramble_stream \<Rightarrow> sink \<Rightarrow> nat poll \<times> scramble_stream \<times> sink" where
  "do_call K (WriteCall delay fired buf) ss sk = poll_write K delay fired buf ss sk"
| "do_call K FlushCall ss sk = (let (r, x) = poll_flush ss sk in (map_poll (\<lambda>_. 0) r, x))"
| "do_call K CloseCall ss sk = (let (r, x) = poll_close ss sk in (map_poll (\<lambda>_. 0) r, x))"

text \<open>Calls up to the first error: the bytes reported as written, and whether all calls went through.\<close>
fun write_run :: "keystream \<Rightarrow> write_call list \<Rightarrow> scramble_stream \<Rightarrow> sink \<Rightarrow> bytes \<times> bool \<times> scramble_stream \<times> sink" where
  "write_run K [] ss sk = ([], True, ss, sk)"
| "write_run K (c # cs) ss sk =
     (case do_call K c ss sk of
        (Ready (Inl _), ss, sk) \<Rightarrow> ([], False, ss, sk)
      | (Pending, ss, sk) \<Rightarrow> write_run K cs ss sk
      | (Ready (Inr n), ss, sk) \<Rightarrow> (let (acc, x) = write_run K cs ss sk in (take n (call_buf c) @ acc, x)))"

definition writes :: "keystream \<Rightarrow> bytes \<Rightarrow> bytes \<Rightarrow> bytes list \<Rightarrow> scramble_stream \<Rightarrow> sink \<Rightarrow> bool" where
  "writes K key nonce chunks ss sk \<longleftrightarrow> (\<forall>c \<in> set chunks. length c \<le> MAX_PAYLOAD_PER_FRAME)
     \<and> sk_wire sk @ ss_pending ss = xor_at (K key nonce) 0 (frames chunks)
     \<and> ss_out ss = \<lparr> ch_key = key, ch_nonce = nonce, ch_pos = length (frames chunks) \<rparr>
     \<and> length (ss_pending ss) \<le> MAX_PENDING_BYTES"

lemma drain_stream:
  "drain_pending p sk = (r, p', sk') \<Longrightarrow>
     sk_wire sk' @ p' = sk_wire sk @ p \<and> length p' \<le> length p \<and> (r = Ready (Inr ()) \<longrightarrow> p' = [])"
proof (induction p sk arbitrary: r p' sk' rule: drain_pending.induct)
  case (1 p sk)
  show ?case
  proof (cases "p = []")
    case True
    then show ?thesis using 1(2) by (simp add: drain_pending.simps)
  next
    case False
    obtain a sk1 where w: "inner_write p sk = (a, sk1)" by fastforce
    note step = 1(2) [unfolded drain_pending.simps [of p sk]]
    show ?thesis
    proof (cases a)
      case Pending
      then show ?thesis using step False w inner_write_refused(1) [of p sk] by auto
    next
      case (Ready ans)
      show ?thesis
      proof (cases ans)
        case (Inl e)
        then show ?thesis using step False w Ready inner_write_refused(2) [of p sk] by auto
      next
        case (Inr n)
        have acc: "sk_wire sk1 = sk_wire sk @ take n p" using inner_write_accepted w Ready Inr by blast
        show ?thesis
        proof (cases "n = 0")
          case True
          then show ?thesis using step False w Ready Inr acc by auto
        next
          case pos: False
          then have "drain_pending (drop n p) sk1 = (r, p', sk')" using step False w Ready Inr by simp
          moreover note 1(1) [OF False w [symmetric] Ready Inr pos]
          ultimately show ?thesis using acc by auto
        qed
      qed
    qed
  qed
qed

lemma drain_writes:
  assumes "drain_pending (ss_pending ss) sk = (r, p, sk')" "writes K key nonce chunks ss sk"
  shows "writes K key nonce chunks (ss\<lparr> ss_pending := p \<rparr>) sk'"
  using drain_stream [OF assms(1)] assms(2) by (auto simp: writes_def)

lemma frames_snoc: "frames (chunks @ [c]) = frames chunks @ build_frame c"
  by (simp add: frames_def)

lemma emit_writes:
  assumes "emit_frame K buf ss sk = (r, ss', sk')" "writes K key nonce chunks ss sk" "ss_pending ss = []"
  shows "case r of Ready (Inr n) \<Rightarrow> writes K key nonce (chunks @ [take n buf]) ss' sk' | Ready (Inl _) \<Rightarrow> True | Pending \<Rightarrow> False"
proof -
  let ?c = "take MAX_PAYLOAD_PER_FRAME buf"
  obtain frame c where f: "apply_keystream K (ss_out ss) (build_frame ?c) = (frame, c)" by fastforce
  have frame: "frame = xor_at (K key nonce) (length (frames chunks)) (build_frame ?c)"
    "c = \<lparr> ch_key = key, ch_nonce = nonce, ch_pos = length (frames chunks) + length (build_frame ?c) \<rparr>"
    using f assms(2) by (auto simp: apply_keystream_def writes_def)
  have wire: "sk_wire sk = xor_at (K key nonce) 0 (frames chunks)" using assms(2,3) by (simp add: writes_def)
  have len: "length frame \<le> MAX_PENDING_BYTES" using length_build_frame_le [of ?c] frame(1) by simp
  have take: "take (length ?c) buf = ?c" by (simp add: min_def)
  have all: "\<forall>x \<in> set (chunks @ [?c]). length x \<le> MAX_PAYLOAD_PER_FRAME" using assms(2) by (auto simp: writes_def)
  obtain a sk1 where w: "inner_write frame sk = (a, sk1)" by fastforce
  show ?thesis
  proof (cases a)
    case Pending
    then have "r = Ready (Inr (length ?c))" "ss' = ss\<lparr> ss_out := c, ss_pending := frame \<rparr>" "sk' = sk1"
      using assms(1,3) f w by (auto simp: emit_frame_def Let_def)
    then show ?thesis using w Pending inner_write_refused(1) [of frame sk sk1] all frame wire len take
      by (simp add: writes_def frames_snoc)
  next
    case (Ready ans)
    show ?thesis
    proof (cases ans)
      case (Inl e)
      then show ?thesis using assms(1) f w Ready by (auto simp: emit_frame_def Let_def)
    next
      case (Inr n)
      then have "r = Ready (Inr (length ?c))" "ss' = ss\<lparr> ss_out := c, ss_pending := drop n frame \<rparr>" "sk' = sk1"
        using assms(1,3) f w Ready by (auto simp: emit_frame_def Let_def)
      moreover have "sk_wire sk1 @ drop n frame = sk_wire sk @ frame"
        using inner_write_accepted [of frame sk n sk1] w Ready Inr by simp
      ultimately show ?thesis using all frame wire len take by (simp add: writes_def frames_snoc)
    qed
  qed
qed

lemma jitter_writes: "writes K key nonce chunks (ss\<lparr> ss_pending := p, ss_sleeping := b \<rparr>) sk
    = writes K key nonce chunks (ss\<lparr> ss_pending := p \<rparr>) sk"
  by (simp add: writes_def)

lemma poll_write_writes:
  assumes "poll_write K delay fired buf ss sk = (r, ss', sk')" "writes K key nonce chunks ss sk"
  shows "case r of Ready (Inr n) \<Rightarrow> \<exists>cs. concat cs = take n buf \<and> writes K key nonce (chunks @ cs) ss' sk'
    | Ready (Inl _) \<Rightarrow> True | Pending \<Rightarrow> writes K key nonce chunks ss' sk'"
proof (cases "buf = []")
  case True
  then show ?thesis using assms by (auto simp: poll_write_def intro!: exI [of _ "[]"])
next
  case False
  obtain d p sk1 where d: "drain_pending (ss_pending ss) sk = (d, p, sk1)" using prod_cases3 by blast
  note dw = drain_writes [OF d assms(2)]
  obtain go sl where g: "jitter_gate delay fired ss = (go, sl)" by fastforce
  consider "d = Pending" | e where "d = Ready (Inl e)" | "d = Ready (Inr ())" by (metis poll.exhaust sum.exhaust old.unit.exhaust)
  then show ?thesis
  proof cases
    case 3
    then have p: "p = []" using drain_stream [OF d] by simp
    show ?thesis
    proof (cases go)
      case True
      let ?ss = "ss\<lparr> ss_pending := p, ss_sleeping := sl \<rparr>"
      have "emit_frame K buf ?ss sk1 = (r, ss', sk')" using assms(1) False d 3 g True by (simp add: poll_write_def)
      from emit_writes [OF this dw [folded jitter_writes [where b = sl]]] show ?thesis using p
        by (cases r) (auto split: sum.splits intro: exI [of _ "[_]"])
    next
      case no: False
      then show ?thesis using assms(1) False d 3 g dw by (auto simp: poll_write_def jitter_writes)
    qed
  qed (use assms(1) False d dw in \<open>auto simp: poll_write_def\<close>)
qed

lemma inner_flush_wire: "inner_flush sk = (r, sk') \<Longrightarrow> sk_wire sk' = sk_wire sk"
  by (auto simp: inner_flush_def split: list.splits sink_answer.splits)

lemma writes_wire: "sk_wire sk' = sk_wire sk \<Longrightarrow> writes K key nonce chunks ss sk' = writes K key nonce chunks ss sk"
  by (simp add: writes_def)

lemma poll_flush_writes:
  assumes "writes K key nonce chunks ss sk"
  shows "poll_flush ss sk = (r, ss', sk') \<Longrightarrow> writes K key nonce chunks ss' sk'"
    "poll_close ss sk = (r, ss', sk') \<Longrightarrow> writes K key nonce chunks ss' sk'"
  using drain_writes [OF _ assms] writes_wire [OF inner_flush_wire]
  by (auto simp: poll_flush_def poll_close_def split: prod.splits poll.splits sum.splits)

lemma do_call_writes:
  assumes "do_call K c ss sk = (r, ss', sk')" "writes K key nonce chunks ss sk"
  shows "case r of Ready (Inr n) \<Rightarrow> \<exists>cs. concat cs = take n (call_buf c) \<and> writes K key nonce (chunks @ cs) ss' sk'
    | Ready (Inl _) \<Rightarrow> True | Pending \<Rightarrow> writes K key nonce chunks ss' sk'"
proof (cases c)
  case (WriteCall delay fired buf)
  then show ?thesis using poll_write_writes assms by simp
next
  case FlushCall
  then have "writes K key nonce chunks ss' sk'" using assms poll_flush_writes(1) by (auto split: prod.splits)
  then show ?thesis using FlushCall by (auto split: poll.split sum.split intro: exI [of _ "[]"])
next
  case CloseCall
  then have "writes K key nonce chunks ss' sk'" using assms poll_flush_writes(2) by (auto split: prod.splits)
  then show ?thesis using CloseCall by (auto split: poll.split sum.split intro: exI [of _ "[]"])
qed

lemma write_run_writes:
  assumes "write_run K cs ss sk = (acc, True, ss', sk')" "writes K key nonce chunks ss sk"
  shows "\<exists>more. concat more = acc \<and> writes K key nonce (chunks @ more) ss' sk'"
  using assms
proof (induction cs arbitrary: ss sk acc chunks)
  case Nil
  then show ?case by (auto intro: exI [of _ "[]"])
next
  case (Cons c cs)
  obtain r ss1 sk1 where c: "do_call K c ss sk = (r, ss1, sk1)" using prod_cases3 by blast
  note w = do_call_writes [OF c Cons.prems(2)]
  show ?case
  proof (cases r)
    case Pending
    then show ?thesis using Cons.IH [of ss1 sk1 acc chunks] Cons.prems(1) c w by simp
  next
    case (Ready ans)
    show ?thesis
    proof (cases ans)
      case (Inl e)
      then show ?thesis using Cons.prems(1) c Ready by simp
    next
      case (Inr n)
      obtain acc1 ok x where run: "write_run K cs ss1 sk1 = (acc1, ok, x)" using prod_cases3 by blast
      then have "acc = take n (call_buf c) @ acc1" "write_run K cs ss1 sk1 = (acc1, True, ss', sk')"
        using Cons.prems(1) c Ready Inr by auto
      moreover obtain new where new: "concat new = take n (call_buf c)" "writes K key nonce (chunks @ new) ss1 sk1"
        using w Ready Inr by auto
      moreover obtain more where "concat more = acc1" "writes K key nonce ((chunks @ new) @ more) ss' sk'"
        using Cons.IH [OF calculation(2) new(2)] by blast
      ultimately show ?thesis by (intro exI [of _ "new @ more"]) simp
    qed
  qed
qed

lemma fresh_writes:
  "writes K key nonce [] (with_split_keys key nonce ik inn j) \<lparr> sk_script = script, sk_wire = [] \<rparr>"
  by (simp add: writes_def with_split_keys_def new_cipher_def frames_def)

lemma frames_quantum: "FRAME_QUANTUM dvd length (frames chunks)"
  by (induction chunks) (simp_all add: frames_def length_build_frame padded_size(3))

section \<open>Properties\<close>

text \<open>C36: A read returns.  From every state, hostile frame headers included, the loop of \<open>poll_read\<close> ends on every
  source that has finitely many answers and bytes before it is \<open>Pending\<close> or at its end, where it answers \<open>Ok(0)\<close> for
  ever.  A read at the end of the stream reports the end exactly between two frames and \<open>UnexpectedEof\<close> inside one, and
  so does every later read.\<close>
theorem poll_read_returns:
  "(\<exists>ret. poll_read K buf_len ss src = Some ret)
   \<and> (let ss' = ss\<lparr> ss_read := normal (ss_read ss) \<rparr>
      in poll_read K (Suc len) ss (SEof # rest)
           = Some (Ready (if ss_read ss' = NeedHeader [] then Inr [] else Inl UnexpectedEof), ss', SEof # rest))"
  using poll_read_ok [of K buf_len ss src] read_at_end [of K len ss rest] by (auto simp: Let_def)

text \<open>C11: The reader refines the byte decoder.  Whatever the wrapped stream answers (any fragmentation,
  stalls, errors, truncation, garbage) and whatever buffer sizes the caller uses, the bytes delivered and the state reached are
  those of decoding, one byte at a time, the bytes taken from the wire.\<close>
theorem reader_refines_decoder:
  "\<exists>out ss' src' used. read_run K lens ss src = Some (out, ss', src') \<and> src_bytes src = used @ src_bytes src'
     \<and> decode (ss_read ss) (fst (apply_keystream K (ss_in ss) used)) = (out, normal (ss_read ss'))"
proof -
  obtain out ss' src' where "read_run K lens ss src = Some (out, ss', src')" "reads K (ss, src) out (ss', src')"
    using read_run_ok [of K lens ss src] by (auto simp: advance_def)
  then show ?thesis by (auto simp: reads_def)
qed

text \<open>C16: The writer's stream.  After any calls of write, flush and close that did not fail, whatever
  part of each frame the wrapped stream accepted, the bytes on the wire followed by the parked ones decode to
  exactly the bytes the caller was told were written; the parked bytes are at most 1024 and the total
  is a multiple of 256.\<close>
theorem writer_stream:
  assumes "write_run K calls (with_split_keys key nonce ik inn j) \<lparr> sk_script = script, sk_wire = [] \<rparr> = (acc, True, ss, sk)"
  shows "decode (NeedHeader []) (xor_at (K key nonce) 0 (sk_wire sk @ ss_pending ss)) = (acc, NeedHeader [])
     \<and> length (ss_pending ss) \<le> 1024 \<and> 256 dvd length (sk_wire sk @ ss_pending ss)"
proof -
  obtain chunks where "concat chunks = acc" "writes K key nonce chunks ss sk"
    using write_run_writes [OF assms fresh_writes] by auto
  then show ?thesis using decode_frames [of chunks] frames_quantum [of chunks]
    by (simp add: writes_def frame_consts del: length_append)
qed

definition toy_keystream :: keystream where
  "toy_keystream key nonce i = of_nat (17 * i + length key)"

definition toy_calls :: "write_call list" where
  "toy_calls = [WriteCall 0 False (ascii ''hi''), FlushCall, WriteCall 5 False (ascii ''you''), WriteCall 0 True (ascii ''you''), CloseCall]"

definition toy_sink :: sink where
  "toy_sink = \<lparr> sk_script = [WAccept 100, WPending, WAccept 156, WAccept 256, WAccept 1], sk_wire = [] \<rparr>"

definition toy_writer :: "bytes \<times> bool \<times> scramble_stream \<times> sink" where
  "toy_writer = write_run toy_keystream toy_calls (with_split_keys [1] [2] [3] [4] (Some 9)) toy_sink"

lemmas toy_writer_simps = toy_writer_def toy_calls_def toy_sink_def with_split_keys_def new_cipher_def poll_write_def poll_flush_def
  poll_close_def emit_frame_def jitter_gate_def apply_keystream_def inner_write_def inner_flush_def drain_pending.simps
  length_build_frame padded_frame_size_def frame_consts

lemma toy_writer_result:
  "fst toy_writer = ascii ''hiyou''" "fst (snd toy_writer)" "ss_pending (fst (snd (snd toy_writer))) = []"
  "length (sk_wire (snd (snd (snd toy_writer)))) = 512"
  by (simp_all add: toy_writer_simps ascii_def Let_def)

lemma toy_writer_run:
  "write_run toy_keystream toy_calls (with_split_keys [1] [2] [3] [4] (Some 9)) \<lparr> sk_script = sk_script toy_sink, sk_wire = [] \<rparr>
     = (ascii ''hiyou'', True, fst (snd (snd toy_writer)), snd (snd (snd toy_writer)))"
  using toy_writer_result(1,2) by (cases toy_writer) (simp add: toy_writer_def toy_sink_def)

theorem writer_stream_witness:
  "decode (NeedHeader []) (xor_at (toy_keystream [1] [2]) 0 (sk_wire (snd (snd (snd toy_writer))))) = (ascii ''hiyou'', NeedHeader [])"
  using writer_stream [OF toy_writer_run] toy_writer_result(3) by simp

text \<open>C6: The two ends form a reliable byte pipe.  If the writer's calls succeeded, nothing is parked and
  the wire reaches the reader in any fragmentation, then as many polls with non-empty buffers as the source has
  answers and bytes deliver exactly the accepted bytes and leave the source at its end.\<close>
theorem scrambled_pipe_delivers:
  assumes "write_run K calls (with_split_keys key nonce ik inn j) \<lparr> sk_script = script, sk_wire = [] \<rparr> = (acc, True, ss, sk)"
    and "ss_pending ss = []" "src_bytes src = sk_wire sk" "src_measure src \<le> length lens" "0 \<notin> set lens"
  shows "\<exists>ss'. read_run K lens (with_split_keys ok on key nonce j') src = Some (acc, ss', at_end src)"
proof -
  let ?r = "with_split_keys ok on key nonce j'"
  obtain chunks where chunks: "concat chunks = acc" "writes K key nonce chunks ss sk"
    using write_run_writes [OF assms(1) fresh_writes] by auto
  obtain out ss' src' where run: "read_run K lens ?r src = Some (out, ss', src')" "reads K (?r, src) out (ss', src')"
    "read_wf (ss_read ?r) \<and> 0 \<notin> set lens \<longrightarrow> src_measure src' \<le> src_measure src - length lens" "at_end src' = at_end src"
    using read_run_ok [of K lens ?r src] by (auto simp: advance_def)
  have "src_measure src' = 0" using run(3) assms(4,5) by (simp add: read_wf_def with_split_keys_def)
  moreover have "at_end src' = at_end src" using run(4) by simp
  ultimately have fin: "src' = at_end src" "src_bytes src' = []" using src_measure_0 [of src'] by simp_all
  then have "decode (NeedHeader []) (fst (apply_keystream K (new_cipher key nonce) (src_bytes src))) = (out, normal (ss_read ss'))"
    using run(2) fin(2) by (auto simp: reads_def with_split_keys_def)
  moreover have "fst (apply_keystream K (new_cipher key nonce) (src_bytes src)) = frames chunks"
    using assms(2,3) chunks(2) by (simp add: writes_def apply_keystream_def new_cipher_def)
  ultimately have "out = acc" using decode_frames [of chunks] chunks by (simp add: writes_def)
  then show ?thesis using run(1) fin(1) by simp
qed

theorem scrambled_pipe_delivers_witness:
  "\<exists>ss'. read_run toy_keystream (replicate 520 3) (with_split_keys [5] [6] [1] [2] None)
     [SBytes (take 1 (sk_wire (snd (snd (snd toy_writer))))), SPending, SBytes (drop 1 (sk_wire (snd (snd (snd toy_writer))))), SEof]
   = Some (ascii ''hiyou'', ss', [SEof])"
proof -
  let ?src = "[SBytes (take 1 (sk_wire (snd (snd (snd toy_writer))))), SPending, SBytes (drop 1 (sk_wire (snd (snd (snd toy_writer))))), SEof]"
  have "at_end ?src = [SEof]" by (simp add: at_end_def)
  then show ?thesis
    using scrambled_pipe_delivers [OF toy_writer_run toy_writer_result(3), where src = ?src and lens = "replicate 520 3"]
    by (simp add: toy_writer_result(4))
qed

section \<open>The handshake\<close>

text \<open>A representative decodes to a public key with the Diffie-Hellman results of the private key it was made from.\<close>
definition elligator_correct :: "prims \<Rightarrow> elligator \<Rightarrow> bool" where
  "elligator_correct P L \<longleftrightarrow> (\<forall>priv tweak repr. el_to_repr L priv tweak = Some repr \<longrightarrow>
     (\<exists>pub. el_from_repr L repr = Some pub \<and> (\<forall>a. x25519_dh P a pub = x25519_dh P a (x25519_pub P priv))))"

lemma find_representable_found:
  "find_representable L draws = Inr (priv, repr) \<Longrightarrow> \<exists>tweak. el_to_repr L priv tweak = Some repr"
  by (induction L draws rule: find_representable.induct) (auto split: option.splits)

lemma generated_repr:
  assumes "elligator_correct P L" "generate_representable_keypair L draws = Inr (priv, repr)"
  shows "\<exists>pub. el_from_repr L repr = Some pub \<and> (\<forall>a. x25519_dh P a pub = x25519_dh P a (x25519_pub P priv))"
  using assms find_representable_found unfolding generate_representable_keypair_def elligator_correct_def by blast

text \<open>C35: When both sides complete the exchange with the same pre-shared key, the two streams are
  mirror images: what one side writes with, the other reads with, in both directions.\<close>
theorem handshake_mirrors:
  assumes "dh_agree P" "elligator_correct P L"
    and "generate_representable_keypair L draws_d = Inr (a, repr_a)" "generate_representable_keypair L draws_l = Inr (b, repr_b)"
    and "x25519_dh P a (x25519_pub P b) \<noteq> replicate 32 0"
  shows "\<exists>k n k' n'. scramble_handshake P L draws_d obfs_key True j (\<lambda>_. Inr ()) (Inr repr_b) = (Inr (with_split_keys k n k' n' j), Some repr_a)
     \<and> scramble_handshake P L draws_l obfs_key False j' (\<lambda>_. Inr ()) (Inr repr_a) = (Inr (with_split_keys k' n' k n j'), Some repr_b)"
proof -
  obtain pa pb where p: "el_from_repr L repr_a = Some pa" "\<And>x. x25519_dh P x pa = x25519_dh P x (x25519_pub P a)"
    "el_from_repr L repr_b = Some pb" "\<And>x. x25519_dh P x pb = x25519_dh P x (x25519_pub P b)"
    using generated_repr [OF assms(2)] assms(3,4) by metis
  have same: "x25519_dh P b pa = x25519_dh P a (x25519_pub P b)" using p(2) dh_agreeD [OF assms(1)] by simp
  show ?thesis using assms(3-5) p same
    by (simp add: scramble_handshake_def handshake_keys_def Let_def case_prod_unfold) blast
qed

definition toy_elligator :: elligator where
  "toy_elligator = \<lparr> el_to_repr = (\<lambda>priv tweak. if tweak = 0 then None else Some priv), el_from_repr = Some \<rparr>"

lemma toy_elligator_ok: "elligator_correct toy_prims toy_elligator"
  by (simp add: elligator_correct_def toy_elligator_def)

theorem handshake_mirrors_witness:
  "\<exists>k n k' n'.
     scramble_handshake toy_prims toy_elligator (\<lambda>i. (replicate 32 7, of_nat i)) [9] True None (\<lambda>_. Inr ()) (Inr (replicate 32 8))
       = (Inr (with_split_keys k n k' n' None), Some (replicate 32 7))
   \<and> scramble_handshake toy_prims toy_elligator (\<lambda>i. (replicate 32 8, 1)) [9] False None (\<lambda>_. Inr ()) (Inr (replicate 32 7))
       = (Inr (with_split_keys k' n' k n None), Some (replicate 32 8))"
proof (rule handshake_mirrors [OF toy_laws(3) toy_elligator_ok])
  show "generate_representable_keypair toy_elligator (\<lambda>i. (replicate 32 7, of_nat i)) = Inr (replicate 32 7, replicate 32 7)"
    "generate_representable_keypair toy_elligator (\<lambda>i. (replicate 32 8, 1)) = Inr (replicate 32 8, replicate 32 8)"
    "x25519_dh toy_prims (replicate 32 7) (x25519_pub toy_prims (replicate 32 8)) \<noteq> replicate 32 0"
    by code_simp+
qed

end
