(* ===== verification/ToyCodec.thy ===== *)
theory ToyCodec
  imports NodeState
begin

text \<open>
  A concrete codec for the witnesses: payloads, messages and group envelopes field by field, a byte string with its length in unary.
  The remaining types are not encoded at all, which the laws of a codec allow.
\<close>

definition put_field :: "bytes \<Rightarrow> bytes" where
  "put_field bs = replicate (length bs) 1 @ 0 # bs"

definition get_field :: "bytes \<Rightarrow> bytes \<times> bytes" where
  "get_field s = (let k = length (takeWhile (\<lambda>x. x = 1) s); r = drop (Suc k) s in (take k r, drop k r))"

definition put_opt :: "bytes option \<Rightarrow> bytes" where
  "put_opt x = (case x of None \<Rightarrow> [0] | Some bs \<Rightarrow> 1 # put_field bs)"

definition get_opt :: "bytes \<Rightarrow> bytes option \<times> bytes" where
  "get_opt s = (if hd s = 0 then (None, tl s) else (let (bs, r) = get_field (tl s) in (Some bs, r)))"

definition put_int :: "int \<Rightarrow> bytes" where
  "put_int i = (if i < 0 then 1 else 0) # replicate (nat \<bar>i\<bar>) 0"

definition get_int :: "bytes \<Rightarrow> int" where
  "get_int s = (if hd s = 1 then - int (length (tl s)) else int (length (tl s)))"

definition get_word :: "nat \<Rightarrow> bytes \<Rightarrow> 'a::len word \<times> bytes" where
  "get_word k s = (of_be (take k s), drop k s)"

lemma takeWhile_ones: "takeWhile (\<lambda>x. x = 1) (replicate n 1 @ (0 :: byte) # r) = replicate n 1"
  by (induction n) simp_all

lemma get_field_put [simp]: "get_field (put_field bs @ r) = (bs, r)"
  by (simp add: get_field_def put_field_def takeWhile_ones)

lemma get_opt_put [simp]: "get_opt (put_opt x @ r) = (x, r)"
  by (cases x) (simp_all add: get_opt_def put_opt_def)

lemma get_int_put [simp]: "get_int (put_int i) = i"
  by (simp add: get_int_def put_int_def)

lemma get_word_put [simp]:
  "get_word 4 (be32 w @ r) = (w, r)" "get_word 8 (be64 v @ r) = (v, r)"
  by (simp_all add: get_word_def)

definition toy_enc_payload :: "encrypted_payload \<Rightarrow> bytes" where
  "toy_enc_payload p = put_field (ep_dh p) @ be32 (ep_pn p) @ be32 (ep_n p) @ put_field (ep_ct p) @ put_opt (ep_x3dh_eph p)
     @ put_opt (map_option put_int (ep_otpk_id p)) @ put_opt (ep_ml_kem_ct p) @ [ep_kind p]"

definition toy_dec_payload :: "bytes \<Rightarrow> encrypted_payload option" where
  "toy_dec_payload s =
     (let (dh, s) = get_field s; (pn, s) = get_word 4 s; (n, s) = get_word 4 s; (ct, s) = get_field s; (eph, s) = get_opt s;
          (otpk, s) = get_opt s; (kem, s) = get_opt s
      in Some \<lparr> ep_dh = dh, ep_pn = pn, ep_n = n, ep_ct = ct, ep_x3dh_eph = eph, ep_otpk_id = map_option get_int otpk,
                ep_kind = hd s, ep_ml_kem_ct = kem \<rparr>)"

definition type_of_byte :: "byte \<Rightarrow> message_type" where
  "type_of_byte b = (if b = 0 then Direct else if b = 1 then MTGroup else if b = 2 then File else if b = 3 then Voice else Control)"

definition toy_enc_message :: "protocol_message \<Rightarrow> bytes" where
  "toy_enc_message m = put_field (pm_to m) @ put_field (pm_from m) @ put_field (pm_sealed_sender m) @ put_field (pm_payload m)
     @ be64 (pm_timestamp m) @ be64 (pm_ttl m) @ put_field (pm_signature m) @ [msg_type_byte (pm_msg_type m)]"

definition toy_dec_message :: "bytes \<Rightarrow> protocol_message option" where
  "toy_dec_message s =
     (let (to, s) = get_field s; (from', s) = get_field s; (sealed, s) = get_field s; (payload, s) = get_field s;
          (ts, s) = get_word 8 s; (ttl, s) = get_word 8 s; (sig, s) = get_field s
      in Some \<lparr> pm_to = to, pm_from = from', pm_sealed_sender = sealed, pm_payload = payload, pm_timestamp = ts, pm_ttl = ttl,
                pm_msg_type = type_of_byte (hd s), pm_signature = sig \<rparr>)"

lemma toy_payload_roundtrip [simp]: "toy_dec_payload (toy_enc_payload p) = Some p"
  by (cases p) (simp add: toy_enc_payload_def toy_dec_payload_def option.map_comp o_def option.map_ident)

lemma type_of_byte_inv [simp]: "type_of_byte (msg_type_byte t) = t"
  by (cases t) (simp_all add: type_of_byte_def)

lemma toy_message_roundtrip [simp]: "toy_dec_message (toy_enc_message m) = Some m"
  by (cases m) (simp add: toy_enc_message_def toy_dec_message_def)

definition toy_enc_envelope :: "group_message_envelope \<Rightarrow> bytes" where
  "toy_enc_envelope e = put_field (ge_group_id e) @ be32 (eg_index (ge_msg e)) @ put_field (eg_ciphertext (ge_msg e))
     @ put_field (eg_signature (ge_msg e))"

definition toy_dec_envelope :: "bytes \<Rightarrow> group_message_envelope option" where
  "toy_dec_envelope s =
     (let (gid, s) = get_field s; (i, s) = get_word 4 s; (ct, s) = get_field s; (sig, s) = get_field s
      in Some \<lparr> ge_group_id = gid, ge_msg = \<lparr> eg_index = i, eg_ciphertext = ct, eg_signature = sig \<rparr> \<rparr>)"

lemma toy_envelope_roundtrip [simp]: "toy_dec_envelope (toy_enc_envelope e) = Some e"
  using get_field_put [of "eg_signature (ge_msg e)" "[]"]
  by (simp add: toy_enc_envelope_def toy_dec_envelope_def)

definition toy_codecs :: codecs where
  "toy_codecs = \<lparr> enc_payload = (\<lambda>p. Some (toy_enc_payload p)), dec_payload = toy_dec_payload,
     enc_message = (\<lambda>m. Some (toy_enc_message m)), dec_message = toy_dec_message,
     enc_control = Map.empty, dec_control = Map.empty, enc_envelope = (\<lambda>e. Some (toy_enc_envelope e)), dec_envelope = toy_dec_envelope,
     enc_session = Map.empty, dec_session = Map.empty, enc_sender = Map.empty, dec_sender = Map.empty,
     enc_receiver = Map.empty, dec_receiver = Map.empty \<rparr>"

lemma toy_codecs_ok [simp]: "codecs_ok toy_codecs"
  by (simp add: codecs_ok_def toy_codecs_def)

text \<open>Constant randomness, a local record store that never refuses.\<close>
definition toy_env :: "byte \<Rightarrow> env" where
  "toy_env r = \<lparr> en_prims = toy_prims, en_codecs = toy_codecs, en_rnd = (\<lambda>i len. replicate len r),
     en_put_ok = (\<lambda>out key v. True), en_dialable = (\<lambda>addr peer. addr @ peer) \<rparr>"

lemma toy_env_simps [simp]:
  "en_prims (toy_env r) = toy_prims" "en_codecs (toy_env r) = toy_codecs" "en_rnd (toy_env r) i len = replicate len r"
  by (simp_all add: toy_env_def)

end
