(* ===== verification/NodeDelivery.thy ===== *)
theory NodeDelivery
  imports NodeLoop ToyCodec
begin

text \<open>
  The path of a first message from one node to another: prekey bootstrap, ratchet, envelope, wire, and
  back up to the message store of the recipient.  Both nodes run the definitions of the
  event loop over the same crypto and codecs with randomness of their own.
\<close>

section \<open>The two ends of a bootstrap\<close>

lemma first_message_decrypts:
  assumes "dh_agree P" "aead_correct P"
    and "ratchet_encrypt P (new_initiator P d sk (x25519_pub P s)) text ad = (Inr m, st)"
  shows "\<exists>st'. ratchet_decrypt P f (new_responder P sk s) m ad = (Inr text, st')"
proof -
  obtain rk cks where k: "kdf_rk P sk (x25519_dh P d (x25519_pub P s)) = (rk, cks)" by fastforce
  obtain ck mk where c: "kdf_ck P cks = (ck, mk)" by fastforce
  have m: "rm_header m = \<lparr> hdr_dh = x25519_pub P d, hdr_pn = 0, hdr_n = 0 \<rparr>"
    "rm_ct m = aead_encrypt P mk text ad (rm_header m)"
    using assms(3) k c by (auto simp: ratchet_encrypt_def new_initiator_def Let_def)
  have k': "kdf_rk P sk (x25519_dh P s (x25519_pub P d)) = (rk, cks)" using k dh_agreeD [OF assms(1)] by simp
  let ?r = "new_responder P sk s"
  have "try_skipped P ?r m ad = (None, ?r)" by (simp add: try_skipped_def new_responder_def)
  moreover obtain st2 where st2: "dh_phase P f ?r (rm_header m) = (Inr (), st2)" "rs_ckr st2 = Some cks"
    "rs_dhr st2 = Some (x25519_pub P d)" "rs_nr st2 = 0" "rs_skipped st2 = []"
    by (simp add: dh_phase_def new_responder_def skip_message_keys_def dh_ratchet_step_def m k' case_prod_unfold Let_def)
  moreover have "skip_message_keys P st2 0 = (Inr (), st2)"
    using st2 by (intro skip_nothing) (auto simp: MAX_SKIP_def)
  ultimately show ?thesis using c assms(2) by (simp add: ratchet_decrypt_def chain_phase_def m)
qed

text \<open>The prekeys \<open>a\<close> holds for \<open>b\<close> are those of \<open>b\<close>: the signed prekey, and where cached the
  one-time prekey, unused at \<open>b\<close>, and the ML-KEM key.\<close>
definition holds_prekeys_of :: "prims \<Rightarrow> node \<Rightarrow> node \<Rightarrow> bool" where
  "holds_prekeys_of P a b \<longleftrightarrow> cached_prekey a (my_pid b) = Some (id_x25519_public (nd_identity b))
     \<and> (\<forall>k. nd_cached_otpks a (my_pid b) = Some k \<longrightarrow>
          (\<exists>s. load_otpk_private P (nd_store b) (otp_id k) = Inr (Some s) \<and> otp_x25519 k = x25519_pub P s))
     \<and> (\<forall>ek. nd_cached_pq (load_pq_cache (my_pid b) a) (my_pid b) = Some ek \<longrightarrow> ek = kem_ek P (id_ml_kem_dk (nd_identity b)))"

definition no_session :: "env \<Rightarrow> bytes \<Rightarrow> node \<Rightarrow> bool" where
  "no_session E peer n \<longleftrightarrow> \<not> fst (restore_session_if_persisted E peer n)"

lemma no_session_restore: "no_session E peer n \<Longrightarrow> restore_session_if_persisted E peer n = (False, n) \<and> map_of (nd_sessions n) peer = None"
  by (auto simp: no_session_def restore_session_if_persisted_def split: if_splits sum.splits option.splits)

lemma load_pq_cache_frame [simp]:
  "nd_store (load_pq_cache p n) = nd_store n" "nd_identity (load_pq_cache p n) = nd_identity n"
  "nd_cached_otpks (load_pq_cache p n) = nd_cached_otpks n" "nd_clock (load_pq_cache p n) = nd_clock n"
  "nd_deniable_dm (load_pq_cache p n) = nd_deniable_dm n" "nd_sessions (load_pq_cache p n) = nd_sessions n"
  by (simp_all add: load_pq_cache_def split: option.split)

lemma derive_agrees:
  assumes "dh_agree P" "en_prims E' = P" "id_x25519_secret (nd_identity b) = s"
    and "derive_for_peer P eph i (x25519_pub P s) otpk pq = (epub, sk)" "ep_otpk_id payload = map_option otp_id otpk"
    and "\<And>k. otpk = Some k \<Longrightarrow> \<exists>o'. load_otpk_private P (nd_store b) (otp_id k) = Inr (Some o') \<and> otp_x25519 k = x25519_pub P o'"
  shows "responder_secret E' b payload (map_option snd pq) epub (x25519_pub P i) = Some sk"
proof (cases otpk)
  case None
  then show ?thesis using assms(2-5) x3dh_agree(1,3) [OF assms(1)]
    by (cases pq) (auto simp: responder_secret_def derive_for_peer_def Let_def)
next
  case (Some k)
  then obtain o' where "load_otpk_private P (nd_store b) (otp_id k) = Inr (Some o')" "otp_x25519 k = x25519_pub P o'"
    using assms(6) by blast
  then show ?thesis using Some assms(2-5) x3dh_agree(2,4) [OF assms(1)]
    by (cases pq) (auto simp: responder_secret_def derive_for_peer_def Let_def)
qed

text \<open>What the bootstrap leaves behind, and that the recipient derives the same secret from the hello.\<close>
lemma build_hello_agrees:
  assumes "dh_agree P" "kem_correct P" "en_prims E = P" "en_prims E' = P"
    and "identity_ok P (nd_identity a)" "identity_ok P (nd_identity b)" "holds_prekeys_of P a b"
    and "build_x3dh_hello E (my_pid b) (id_x25519_public (nd_identity b)) a = (hello, a')"
  shows "\<exists>d sk. map_of (nd_sessions a') (my_pid b) = Some (new_initiator P d sk (id_x25519_public (nd_identity b)))
     \<and> nd_store a' = nd_store a \<and> nd_identity a' = nd_identity a \<and> nd_clock a' = nd_clock a
     \<and> (\<forall>payload. ep_otpk_id payload = fh_otpk_id hello \<longrightarrow> ep_ml_kem_ct payload = fh_ml_kem_ct hello \<longrightarrow>
          (\<exists>pq. pq_secret_of E' b payload = Some pq
             \<and> responder_secret E' b payload pq (fh_x3dh_eph hello) (id_x25519_public (nd_identity a)) = Some sk))"
proof -
  let ?ib = "nd_identity b" and ?ia = "nd_identity a" and ?otpk = "nd_cached_otpks a (my_pid b)"
  have pub: "id_x25519_public ?ib = x25519_pub P (id_x25519_secret ?ib)" "id_x25519_public ?ia = x25519_pub P (id_x25519_secret ?ia)"
    using assms(5,6) by (simp_all add: identity_ok_def)
  obtain pq_pair a1 where e: "encapsulate_for E (my_pid b) (load_pq_cache (my_pid b) a) = (pq_pair, a1)" by fastforce
  have a1: "nd_store a1 = nd_store a" "nd_identity a1 = ?ia" "nd_cached_otpks a1 = nd_cached_otpks a"
    "nd_clock a1 = nd_clock a" "nd_deniable_dm a1 = nd_deniable_dm a"
    using e by (auto simp: encapsulate_for_def draw_def split: option.splits)
  obtain eph d sk where h: "derive_for_peer P eph (id_x25519_secret ?ia) (id_x25519_public ?ib) ?otpk pq_pair = (fh_x3dh_eph hello, sk)"
    "fh_otpk_id hello = map_option otp_id ?otpk" "fh_ml_kem_ct hello = map_option fst pq_pair"
    "map_of (nd_sessions a') (my_pid b) = Some (new_initiator P d sk (id_x25519_public ?ib))"
    and fr: "nd_store a' = nd_store a" "nd_identity a' = ?ia" "nd_clock a' = nd_clock a" "nd_deniable_dm a' = nd_deniable_dm a"
    using assms(3,8) e a1 by (auto simp: build_x3dh_hello_def draw_def Let_def split: prod.splits)
  have "pq_secret_of E' b payload = Some (map_option snd pq_pair)" if "ep_ml_kem_ct payload = fh_ml_kem_ct hello" for payload
    using e assms(2,3,4,7) h(3) that
    by (auto simp: pq_secret_of_def encapsulate_for_def draw_def holds_prekeys_of_def pq_encapsulate_def pq_decapsulate_def
        kem_correct_def split: option.splits)
  moreover have "responder_secret E' b payload (map_option snd pq_pair) (fh_x3dh_eph hello) (id_x25519_public ?ia) = Some sk"
    if "ep_otpk_id payload = fh_otpk_id hello" for payload
    unfolding pub(2)
    by (rule derive_agrees [OF assms(1,4) refl h(1) [unfolded pub(1)]]) (use assms(7) that h(2) in \<open>auto simp: holds_prekeys_of_def\<close>)
  ultimately show ?thesis using h(4) fr by blast
qed

section \<open>The envelope\<close>

lemma not_expired:
  assumes "0 \<le> t" "t < 2 ^ 62" "0 \<le> u" "u \<le> t + 604800" "pm_timestamp m = word_of_int t" "pm_ttl m = SEVEN_DAYS"
  shows "\<not> is_expired (word_of_int u) m"
proof -
  have s: "sint (word_of_int x :: u64) = x" if "0 \<le> x" "x < 2 ^ 63" for x
    using that by (simp add: sint_sbintrunc' signed_take_bit_int_eq_self)
  have "(word_of_int t :: u64) + SEVEN_DAYS = word_of_int (t + 604800)" by (simp add: SEVEN_DAYS_def)
  then show ?thesis using assms s [of "t + 604800"] s [of u] by (simp add: is_expired_def)
qed

text \<open>Randomness that seals: public keys of 32 bytes and no low-order result against the recipient's prekey.\<close>
definition seals_to :: "env \<Rightarrow> bytes \<Rightarrow> bool" where
  "seals_to E prekey \<longleftrightarrow> (\<forall>i. length (x25519_pub (en_prims E) (en_rnd E i 32)) = 32
     \<and> x25519_dh (en_prims E) (en_rnd E i 32) prekey \<noteq> replicate 32 0)"

definition crypto_ok :: "prims \<Rightarrow> bool" where
  "crypto_ok P \<longleftrightarrow> aead_correct P \<and> aead_tagged P \<and> dh_agree P \<and> kem_correct P"

definition owns_identity :: "prims \<Rightarrow> node \<Rightarrow> bool" where
  "owns_identity P n \<longleftrightarrow> identity_ok P (nd_identity n) \<and> identity_key_correct P (id_signing_key (nd_identity n))
     \<and> length (my_pid n) < 2 ^ 32"

lemma owns_keypair:
  "owns_identity P n \<Longrightarrow> peer_key_correct P (id_keypair (nd_identity n)) \<and> my_pid n = kp_peer P (id_keypair (nd_identity n))"
  by (simp add: owns_identity_def identity_ok_def identity_key_correct_def)

lemma build_envelope_opens:
  assumes "crypto_ok (en_prims E)" "owns_identity (en_prims E) n" "seals_to E (x25519_pub (en_prims E) priv)"
    and "cached_prekey n peer = Some (x25519_pub (en_prims E) priv)"
  shows "\<exists>m n'. build_envelope E peer payload n = (Inr m, n') \<and> verify_sealed (en_prims E) priv m = Inr (my_pid n) \<and> is_sealed m
     \<and> pm_payload m = payload \<and> pm_timestamp m = word_of_int (nd_clock n) \<and> pm_ttl m = SEVEN_DAYS
     \<and> nd_store n' = nd_store n \<and> nd_identity n' = nd_identity n \<and> nd_clock n' = nd_clock n \<and> nd_sessions n' = nd_sessions n
     \<and> nd_out n' = nd_out n"
proof -
  let ?P = "en_prims E" and ?kp = "id_keypair (nd_identity n)" and ?eph = "en_rnd E (nd_draws n) 32" and ?ts = "word_of_int (nd_clock n)"
  note kp = owns_keypair [OF assms(2)]
  have eph: "length (x25519_pub ?P ?eph) = 32" "x25519_dh ?P ?eph (x25519_pub ?P priv) \<noteq> replicate 32 0"
    using assms(3) by (auto simp: seals_to_def)
  have "\<exists>m. new_sealed_deniable ?P ?ts ?eph peer (my_pid n) payload (x25519_pub ?P priv) = Inr m"
    using eph(2) by (simp add: new_sealed_deniable_def seal_sender_cert_def case_prod_unfold Let_def)
  moreover have "\<exists>m. new_sealed ?P ?ts ?eph peer (my_pid n) payload ?kp (x25519_pub ?P priv) = Inr m"
  proof -
    obtain sig where "kp_sign ?P ?kp (sealed_signing_bytes (fresh_message ?ts peer [] payload) (my_pid n)) = Some sig"
      using kp by (auto simp: peer_key_correct_def)
    then show ?thesis using eph(2) by (simp add: new_sealed_def seal_sender_cert_def case_prod_unfold Let_def)
  qed
  ultimately obtain m where m: "(if nd_deniable_dm n then new_sealed_deniable ?P ?ts ?eph peer (my_pid n) payload (x25519_pub ?P priv)
      else new_sealed ?P ?ts ?eph peer (my_pid n) payload ?kp (x25519_pub ?P priv)) = Inr m"
    by (cases "nd_deniable_dm n") auto
  have "length (kp_peer ?P ?kp) < 2 ^ 32" using assms(2) kp by (auto simp: owns_identity_def)
  then have "verify_sealed ?P priv m = Inr (kp_peer ?P ?kp) \<and> is_sealed m \<and> pm_from m = [] \<and> pm_signature m = []
     \<and> pm_payload m = payload \<and> pm_timestamp m = ?ts \<and> pm_ttl m = SEVEN_DAYS"
    using kp m assms(1) eph(1)
    by (intro sealed_opens [where eph = ?eph and to = peer]) (auto simp: crypto_ok_def split: if_splits)
  then have "verify_sealed ?P priv m = Inr (my_pid n)" "is_sealed m" "pm_payload m = payload" "pm_timestamp m = ?ts" "pm_ttl m = SEVEN_DAYS"
    using kp by simp_all
  moreover have "build_envelope E peer payload n = (Inr m, snd (draw E 32 n))"
    using m assms(4) by (simp add: build_envelope_def draw_def Let_def)
  ultimately show ?thesis by (intro exI [of _ m] exI [of _ "snd (draw E 32 n)"]) (simp add: draw_def)
qed

section \<open>Sending\<close>

text \<open>\<open>serde_json\<close> does not fail on payloads and envelopes.\<close>
definition codecs_total :: "codecs \<Rightarrow> bool" where
  "codecs_total C \<longleftrightarrow> (\<forall>p. enc_payload C p \<noteq> None) \<and> (\<forall>m. enc_message C m \<noteq> None)"

text \<open>What a wire message that carries \<open>payload\<close> from \<open>sender\<close> looks like to the holder of \<open>priv\<close>.\<close>
definition carries :: "env \<Rightarrow> bytes \<Rightarrow> bytes \<Rightarrow> int \<Rightarrow> encrypted_payload \<Rightarrow> bytes \<Rightarrow> bool" where
  "carries E priv sender t payload wire \<longleftrightarrow> (\<exists>m pb. enc_message (en_codecs E) m = Some wire
     \<and> verify_sealed (en_prims E) priv m = Inr sender \<and> is_sealed m \<and> pm_timestamp m = word_of_int t \<and> pm_ttl m = SEVEN_DAYS
     \<and> pm_payload m = pb \<and> enc_payload (en_codecs E) payload = Some pb)"

lemma wrap_carries:
  assumes "crypto_ok (en_prims E)" "owns_identity (en_prims E) n" "seals_to E (x25519_pub (en_prims E) priv)"
    and "cached_prekey n peer = Some (x25519_pub (en_prims E) priv)" "codecs_total (en_codecs E)"
    and "map_of (nd_sessions n) peer = Some st" "ratchet_encrypt (en_prims E) st text (ratchet_ad (my_pid n) peer) = (Inr rm, st')"
  shows "\<exists>wire ttl n'. ratchet_encrypt_and_wrap_bytes E peer text hello kind n = (Some (wire, ttl), n')
     \<and> carries E priv (my_pid n) (nd_clock n) (payload_of rm hello kind) wire"
proof -
  let ?C = "en_codecs E" and ?n = "n\<lparr> nd_sessions := AList.update peer st' (nd_sessions n) \<rparr>"
  obtain pb where pb: "enc_payload ?C (payload_of rm hello kind) = Some pb"
    using assms(5) by (auto simp: codecs_total_def)
  have "cached_prekey ?n peer = Some (x25519_pub (en_prims E) priv)" "owns_identity (en_prims E) ?n"
    using assms(2,4) by (simp_all add: cached_prekey_def owns_identity_def)
  from build_envelope_opens [OF assms(1) this(2) assms(3) this(1), of pb]
  obtain m n' where m: "build_envelope E peer pb ?n = (Inr m, n')" "verify_sealed (en_prims E) priv m = Inr (my_pid n)" "is_sealed m"
    "pm_payload m = pb" "pm_timestamp m = word_of_int (nd_clock n)" "pm_ttl m = SEVEN_DAYS" by auto
  obtain wire where "enc_message ?C m = Some wire" using assms(5) by (auto simp: codecs_total_def)
  then show ?thesis using assms(6,7) pb m
    by (auto simp: ratchet_encrypt_and_wrap_bytes_def carries_def Let_def)
qed

lemma encrypt_and_send_emits:
  assumes "ratchet_encrypt_and_wrap_bytes E peer text hello 0 n = (Some (wire, ttl), n')"
  shows "SendDm peer wire \<in> set (nd_out (encrypt_and_send_existing E peer text hello n))"
  using assms by (auto simp: encrypt_and_send_existing_def ratchet_encrypt_and_wrap_def persist_session_def save_plaintext_def
      draw_def Let_def split: option.split)

section \<open>Receiving\<close>

lemma accept_carried:
  assumes "codecs_ok (en_codecs E)" "carries E (id_x25519_secret (nd_identity n)) sender t payload wire"
    and "0 \<le> t" "t < 2 ^ 62" "0 \<le> nd_clock n" "nd_clock n \<le> t + 604800"
  shows "accept_envelope E n transport wire = Some (sender, payload)"
proof -
  obtain m pb where m: "enc_message (en_codecs E) m = Some wire"
    "verify_sealed (en_prims E) (id_x25519_secret (nd_identity n)) m = Inr sender" "is_sealed m"
    "pm_timestamp m = word_of_int t" "pm_ttl m = SEVEN_DAYS" "pm_payload m = pb" "enc_payload (en_codecs E) payload = Some pb"
    using assms(2) by (auto simp: carries_def)
  then show ?thesis using codecs_okD(1,2) [OF assms(1)] not_expired [OF assms(3-6) m(4,5)]
    by (auto simp: accept_envelope_def verified_sender_def)
qed

text \<open>The text is in the store, readable, and the front end is told.\<close>
definition received :: "prims \<Rightarrow> node \<Rightarrow> bytes \<Rightarrow> bytes \<Rightarrow> bool" where
  "received P n sender text \<longleftrightarrow> GuiDmReceived sender \<in> set (nd_out n)
     \<and> (\<exists>m \<in> set (st_messages (nd_store n)). sm_sender m = sender \<and> sm_recipient m = my_pid n
          \<and> decrypt_at_rest P (nd_store n) (sm_ciphertext m) = Inr text)"

lemma receive_text_received:
  assumes "aead_correct (en_prims E)" "aead_tagged (en_prims E)" "\<And>i. length (en_rnd E i NONCE_LEN) = NONCE_LEN"
  shows "received (en_prims E) (receive_text E peer text n) peer text"
  using assms at_rest_roundtrip [OF assms(1,2), of "en_rnd E (nd_draws n) NONCE_LEN"]
  by (simp add: received_def receive_text_def save_plaintext_def store_message_def draw_def Let_def emit_def)

lemma consume_received: "received P n sender text \<Longrightarrow> received P (consume_otpk i n) sender text"
proof -
  assume r: "received P n sender text"
  have "st_messages (nd_store (consume_otpk i n)) = st_messages (nd_store n)" "st_dek (nd_store (consume_otpk i n)) = st_dek (nd_store n)"
    "nd_out (consume_otpk i n) = nd_out n" "my_pid (consume_otpk i n) = my_pid n"
    by (simp_all add: consume_otpk_def delete_otpk_def mark_otpk_consumed_def split: option.split)
  then show ?thesis using r by (simp add: received_def decrypt_at_rest_dek [of "nd_store (consume_otpk i n)" "nd_store n"])
qed

lemma bootstrap_receives:
  assumes "crypto_ok (en_prims E)" "\<And>i. length (en_rnd E i NONCE_LEN) = NONCE_LEN"
    and "pq_secret_of E n payload = Some pq" "responder_secret E n payload pq eph initiator = Some sk"
    and "ratchet_encrypt (en_prims E) (new_initiator (en_prims E) d sk (x25519_pub (en_prims E) (id_x25519_secret (nd_identity n))))
           text (ratchet_ad sender (my_pid n)) = (Inr rm, st)"
    and "message_of payload = rm" "ep_kind payload = 0"
  shows "fst (bootstrap_responder_and_decrypt E sender eph initiator payload n)
     \<and> received (en_prims E) (snd (bootstrap_responder_and_decrypt E sender eph initiator payload n)) sender text"
proof -
  let ?P = "en_prims E" and ?sec = "id_x25519_secret (nd_identity n)"
  let ?n = "n\<lparr> nd_sessions := AList.update sender (new_responder ?P sk ?sec) (nd_sessions n) \<rparr>"
  obtain st' where dec: "ratchet_decrypt ?P (en_rnd E (nd_draws n) 32) (new_responder ?P sk ?sec) rm (ratchet_ad sender (my_pid n)) = (Inr text, st')"
    using first_message_decrypts [OF _ _ assms(5)] assms(1) by (auto simp: crypto_ok_def)
  obtain n2 where n2: "decrypt_and_store E sender payload ?n = (True, receive_text E sender text n2)"
    using dec assms(6,7) by (auto simp: decrypt_and_store_def draw_def Let_def dispatch_decrypted_content_def)
  have "received ?P (receive_text E sender text n2) sender text"
    using receive_text_received assms(1,2) by (simp add: crypto_ok_def)
  then have "received ?P (consume_otpk (ep_otpk_id payload) (receive_text E sender text n2)) sender text"
    by (rule consume_received)
  then show ?thesis using assms(3,4) n2
    by (simp add: bootstrap_responder_and_decrypt_def decrypt_first_message_def Let_def)
qed

text \<open>\<open>a\<close> can initiate to \<open>b\<close>: both run the same crates and codecs, own their identities, and \<open>a\<close> holds the keys of \<open>b\<close>.\<close>
definition can_initiate :: "env \<Rightarrow> env \<Rightarrow> node \<Rightarrow> node \<Rightarrow> bool" where
  "can_initiate E E' a b \<longleftrightarrow> crypto_ok (en_prims E) \<and> en_prims E' = en_prims E
     \<and> codecs_ok (en_codecs E) \<and> codecs_total (en_codecs E) \<and> en_codecs E' = en_codecs E
     \<and> seals_to E (id_x25519_public (nd_identity b)) \<and> (\<forall>i. length (en_rnd E' i NONCE_LEN) = NONCE_LEN)
     \<and> owns_identity (en_prims E) a \<and> owns_identity (en_prims E) b \<and> holds_prekeys_of (en_prims E) a b"

text \<open>What \<open>a\<close> puts on the wire after the X3DH bootstrap opens at \<open>b\<close>, whoever hands it over.\<close>
lemma first_message_opens:
  assumes ok: "can_initiate E E' a b" and clocks: "0 \<le> nd_clock a" "nd_clock a < 2 ^ 62" "0 \<le> nd_clock b" "nd_clock b \<le> nd_clock a + 604800"
    and h: "build_x3dh_hello E (my_pid b) (id_x25519_public (nd_identity b)) a = (hello, a1)"
  shows "\<exists>wire ttl n' payload eph. ratchet_encrypt_and_wrap_bytes E (my_pid b) text (Some hello) 0 a1 = (Some (wire, ttl), n')
     \<and> accept_envelope E' b transport wire = Some (my_pid a, payload) \<and> ep_x3dh_eph payload = Some eph \<and> ep_kind payload = 0
     \<and> fst (bootstrap_responder_and_decrypt E' (my_pid a) eph (id_x25519_public (nd_identity a)) payload b)
     \<and> received (en_prims E) (snd (bootstrap_responder_and_decrypt E' (my_pid a) eph (id_x25519_public (nd_identity a)) payload b))
         (my_pid a) text"
proof -
  note ok = ok [unfolded can_initiate_def]
  let ?P = "en_prims E" and ?b = "my_pid b" and ?sec = "id_x25519_secret (nd_identity b)" and ?pub = "id_x25519_public (nd_identity b)"
  have pub: "?pub = x25519_pub ?P ?sec" using ok by (simp add: owns_identity_def identity_ok_def)
  have laws: "dh_agree ?P" "kem_correct ?P" "aead_correct ?P" using ok by (simp_all add: crypto_ok_def)
  have prekey: "cached_prekey a ?b = Some ?pub" using ok by (simp add: holds_prekeys_of_def)
  have "identity_ok ?P (nd_identity a)" "identity_ok ?P (nd_identity b)" "en_prims E' = ?P" "holds_prekeys_of ?P a b"
    using ok by (simp_all add: owns_identity_def)
  from build_hello_agrees [OF laws(1,2) refl this(3,1,2,4) h]
  obtain d sk where a1: "map_of (nd_sessions a1) ?b = Some (new_initiator ?P d sk ?pub)" "nd_store a1 = nd_store a"
    "nd_identity a1 = nd_identity a" "nd_clock a1 = nd_clock a"
    and agrees: "\<And>payload. ep_otpk_id payload = fh_otpk_id hello \<Longrightarrow> ep_ml_kem_ct payload = fh_ml_kem_ct hello \<Longrightarrow>
      \<exists>pq. pq_secret_of E' b payload = Some pq
        \<and> responder_secret E' b payload pq (fh_x3dh_eph hello) (id_x25519_public (nd_identity a)) = Some sk" by blast
  obtain rm st where enc: "ratchet_encrypt ?P (new_initiator ?P d sk ?pub) text (ratchet_ad (my_pid a) ?b) = (Inr rm, st)"
    by (simp add: ratchet_encrypt_def new_initiator_def case_prod_unfold Let_def)
  let ?payload = "payload_of rm (Some hello) 0"
  have p: "ep_otpk_id ?payload = fh_otpk_id hello" "ep_ml_kem_ct ?payload = fh_ml_kem_ct hello" "ep_x3dh_eph ?payload = Some (fh_x3dh_eph hello)"
    "message_of ?payload = rm" "ep_kind ?payload = 0"
    by (simp_all add: payload_of_def message_of_def)
  obtain pq where pq: "pq_secret_of E' b ?payload = Some pq"
    "responder_secret E' b ?payload pq (fh_x3dh_eph hello) (id_x25519_public (nd_identity a)) = Some sk"
    using agrees [OF p(1,2)] by blast
  have "owns_identity ?P a1" "cached_prekey a1 ?b = Some (x25519_pub ?P ?sec)"
    using ok a1 prekey pub by (simp_all add: owns_identity_def cached_prekey_def)
  then obtain wire ttl n' where w: "ratchet_encrypt_and_wrap_bytes E ?b text (Some hello) 0 a1 = (Some (wire, ttl), n')"
    "carries E ?sec (my_pid a) (nd_clock a) ?payload wire"
    using wrap_carries [of E a1 ?sec ?b _ "text" rm st "Some hello" 0] enc a1 ok pub by auto
  have "accept_envelope E' b transport wire = Some (my_pid a, ?payload)"
    using accept_carried [of E' b "my_pid a" "nd_clock a" ?payload wire transport] w(2) ok clocks by (simp add: carries_def)
  moreover have "fst (bootstrap_responder_and_decrypt E' (my_pid a) (fh_x3dh_eph hello) (id_x25519_public (nd_identity a)) ?payload b)
     \<and> received ?P (snd (bootstrap_responder_and_decrypt E' (my_pid a) (fh_x3dh_eph hello) (id_x25519_public (nd_identity a)) ?payload b))
      (my_pid a) text"
    using bootstrap_receives [of E' b ?payload pq, OF _ _ pq(1,2) _ p(4,5)] ok enc pub by simp
  ultimately show ?thesis using p(3,5) w(1) by blast
qed

text \<open>The two halves of a first contact: \<open>b\<close> knows the signed prekey of \<open>a\<close> too, and neither has a session.\<close>
definition contact_ok :: "env \<Rightarrow> env \<Rightarrow> node \<Rightarrow> node \<Rightarrow> bool" where
  "contact_ok E E' a b \<longleftrightarrow> can_initiate E E' a b \<and> cached_prekey b (my_pid a) = Some (id_x25519_public (nd_identity a))
     \<and> no_session E (my_pid b) a \<and> no_session E' (my_pid a) b"

lemma first_message_accepted:
  assumes "contact_ok E E' a b" "0 \<le> nd_clock a" "nd_clock a < 2 ^ 62" "0 \<le> nd_clock b" "nd_clock b \<le> nd_clock a + 604800"
    and "build_x3dh_hello E (my_pid b) (id_x25519_public (nd_identity b)) a = (hello, a1)"
  shows "\<exists>wire ttl n'. ratchet_encrypt_and_wrap_bytes E (my_pid b) text (Some hello) 0 a1 = (Some (wire, ttl), n')
     \<and> fst (process_incoming_dm E' transport wire b)
     \<and> received (en_prims E) (snd (process_incoming_dm E' transport wire b)) (my_pid a) text"
proof -
  have ok: "can_initiate E E' a b" using assms(1) by (simp add: contact_ok_def)
  obtain wire ttl n' payload eph where w: "ratchet_encrypt_and_wrap_bytes E (my_pid b) text (Some hello) 0 a1 = (Some (wire, ttl), n')"
    "accept_envelope E' b transport wire = Some (my_pid a, payload)" "ep_x3dh_eph payload = Some eph"
    and r: "fst (bootstrap_responder_and_decrypt E' (my_pid a) eph (id_x25519_public (nd_identity a)) payload b)"
    "received (en_prims E) (snd (bootstrap_responder_and_decrypt E' (my_pid a) eph (id_x25519_public (nd_identity a)) payload b)) (my_pid a) text"
    using first_message_opens [OF ok assms(2-6)] by blast
  have "process_incoming_dm E' transport wire b = bootstrap_responder_and_decrypt E' (my_pid a) eph (id_x25519_public (nd_identity a)) payload b"
    using no_session_restore [of E' "my_pid a" b] assms(1) w(2,3) by (simp add: process_incoming_dm_def contact_ok_def)
  then show ?thesis using w(1) r by simp
qed

section \<open>Properties\<close>

text \<open>C2: First contact is delivered end to end.  Node \<open>a\<close> holds the prekeys of \<open>b\<close> (with or without a
  one-time prekey, with or without an ML-KEM key), \<open>b\<close> the signed prekey of \<open>a\<close>, neither has a
  session with the other and \<open>a\<close> is connected.  Then the send command makes \<open>a\<close> emit a message that, handed to \<open>b\<close>
  by any transport peer within seven days, stores exactly the text under the identity of \<open>a\<close> and
  notifies the front end of \<open>b\<close>.\<close>
theorem first_contact_delivery:
  assumes crypto: "crypto_ok (en_prims E)" "en_prims E' = en_prims E" "codecs_ok (en_codecs E)" "codecs_total (en_codecs E)"
    "en_codecs E' = en_codecs E" "seals_to E (id_x25519_public (nd_identity b))" "\<And>i. length (en_rnd E' i NONCE_LEN) = NONCE_LEN"
    and ids: "owns_identity (en_prims E) a" "owns_identity (en_prims E) b"
    and keys: "holds_prekeys_of (en_prims E) a b" "cached_prekey b (my_pid a) = Some (id_x25519_public (nd_identity a))"
    and fresh: "no_session E (my_pid b) a" "no_session E' (my_pid a) b" "nd_connected a (my_pid b) \<noteq> None"
    and clocks: "0 \<le> nd_clock a" "nd_clock a < 2 ^ 62" "0 \<le> nd_clock b" "nd_clock b \<le> nd_clock a + 604800"
  shows "\<exists>wire. SendDm (my_pid b) wire \<in> set (nd_out (node_step E (Command (Send (my_pid b) text)) a))
     \<and> received (en_prims E) (node_step E' (Behaviour (DmRequest transport wire)) b) (my_pid a) text"
proof -
  obtain hello a1 where h: "build_x3dh_hello E (my_pid b) (id_x25519_public (nd_identity b)) a = (hello, a1)" by fastforce
  have "contact_ok E E' a b" using crypto ids keys fresh by (simp add: contact_ok_def can_initiate_def)
  from first_message_accepted [OF this clocks h] obtain wire ttl n' where
    w: "ratchet_encrypt_and_wrap_bytes E (my_pid b) text (Some hello) 0 a1 = (Some (wire, ttl), n')"
    and r: "received (en_prims E) (snd (process_incoming_dm E' transport wire b)) (my_pid a) text" by blast
  have "node_step E (Command (Send (my_pid b) text)) a = encrypt_and_send_existing E (my_pid b) text (Some hello) a1"
    using no_session_restore [OF fresh(1)] keys(1) fresh(3) h
    by (auto simp: try_send_or_queue_def bootstrap_initiator_and_send_def holds_prekeys_of_def)
  then show ?thesis using encrypt_and_send_emits [OF w] r by auto
qed

text \<open>Two nodes for the witness: \<open>toy_bob\<close> has a one-time prekey in its pool, and \<open>toy_alice\<close> has fetched all of his keys.\<close>
definition toy_identity :: "byte \<Rightarrow> identity" where
  "toy_identity r = generate_identity toy_prims (replicate 32 r) (replicate 32 (r + 1)) (replicate 32 (r + 2))"

lemma toy_identity_simps [simp]:
  "id_peer_id (toy_identity r) = replicate 32 r" "id_x25519_public (toy_identity r) = replicate 32 (r + 1)"
  "id_x25519_secret (toy_identity r) = replicate 32 (r + 1)" "id_ml_kem_dk (toy_identity r) = replicate 32 (r + 2)"
  by (simp_all add: toy_identity_def generate_identity_def assemble_identity_def generate_signed_prekey_def
      generate_signed_ml_kem_prekey_def Let_def toy_prims_def)

lemma toy_signed [simp]: "ed_verify toy_prims k m (ed_sign toy_prims k m)"
  by (simp add: toy_prims_def)

lemma toy_owns: "nd_identity n = toy_identity r \<Longrightarrow> owns_identity toy_prims n"
  by (simp add: owns_identity_def toy_identity_def generate_identity_def assemble_ok generate_signed_prekey_def
      generate_signed_ml_kem_prekey_def Let_def) (simp add: assemble_identity_def)

definition toy_bob :: node where
  "toy_bob = new_node (toy_identity 20) False
     (snd (add_my_otpk toy_prims (replicate 12 0) 0 (save_prekey 0 (empty_store [1]) (replicate 32 10) (replicate 32 11) (replicate 64 0))
        (replicate 32 30) (replicate 32 30) [])) 50"

definition toy_alice :: node where
  "toy_alice = (new_node (toy_identity 10) False
     (save_pq_prekey (save_prekey 0 (empty_store [2]) (replicate 32 20) (replicate 32 21) (replicate 64 0)) (replicate 32 20) (replicate 32 22)) 40)
     \<lparr> nd_connected := [replicate 32 20 \<mapsto> [1]],
       nd_cached_otpks := [replicate 32 20 \<mapsto> \<lparr> otp_id = 1, otp_x25519 = replicate 32 30, otp_signature = [] \<rparr>] \<rparr>"

lemma toy_nodes [simp]:
  "nd_identity toy_alice = toy_identity 10" "nd_identity toy_bob = toy_identity 20" "nd_clock toy_alice = 40" "nd_clock toy_bob = 50"
  "nd_connected toy_alice (replicate 32 20) \<noteq> None"
  "nd_cached_otpks toy_alice = [replicate 32 20 \<mapsto> \<lparr> otp_id = 1, otp_x25519 = replicate 32 30, otp_signature = [] \<rparr>]"
  by (simp_all add: toy_alice_def toy_bob_def new_node_def)

lemma toy_otpk: "load_otpk_private toy_prims (nd_store toy_bob) 1 = Inr (Some (replicate 32 30))"
proof -
  have "decrypt_at_rest toy_prims (nd_store toy_bob) (encrypt_at_rest toy_prims (empty_store [1]) (replicate 12 0) (replicate 32 30))
      = Inr (replicate 32 30)"
    by (rule at_rest_roundtrip) (simp_all add: toy_bob_def new_node_def add_my_otpk_def save_prekey_def empty_store_def NONCE_LEN_def)
  then show ?thesis
    by (simp add: load_otpk_private_def toy_bob_def new_node_def add_my_otpk_def save_prekey_def empty_store_def encrypt_at_rest_def)
qed

lemma toy_holds: "holds_prekeys_of toy_prims toy_alice toy_bob"
  using toy_otpk
  by (auto simp: holds_prekeys_of_def toy_alice_def new_node_def cached_prekey_def load_prekey_def save_pq_prekey_def save_prekey_def
      empty_store_def upsert_by_def find_by_def load_pq_cache_def load_pq_prekey_def)

lemma toy_fresh: "no_session (toy_env r) p toy_alice" "no_session (toy_env r) p toy_bob"
  by (simp_all add: no_session_def restore_session_if_persisted_def toy_alice_def toy_bob_def new_node_def load_session_def
      save_pq_prekey_def save_prekey_def add_my_otpk_def empty_store_def find_by_def)

lemma toy_bob_knows: "cached_prekey toy_bob (replicate 32 10) = Some (replicate 32 11)"
  by (simp add: cached_prekey_def toy_bob_def new_node_def load_prekey_def add_my_otpk_def save_prekey_def empty_store_def
      upsert_by_def find_by_def)

theorem first_contact_delivery_witness:
  "\<exists>wire. SendDm (replicate 32 20) wire \<in> set (nd_out (node_step (toy_env 1) (Command (Send (replicate 32 20) (ascii ''hello''))) toy_alice))
     \<and> received toy_prims (node_step (toy_env 3) (Behaviour (DmRequest [9] wire)) toy_bob) (replicate 32 10) (ascii ''hello'')"
proof -
  have "x25519_dh toy_prims (replicate 32 1) (replicate 32 21) = replicate 32 22" by code_simp
  moreover have "replicate 32 (22 :: byte) \<noteq> replicate 32 0" by simp
  ultimately have "seals_to (toy_env 1) (id_x25519_public (nd_identity toy_bob))" by (simp add: seals_to_def)
  moreover have "codecs_total toy_codecs" by (simp add: codecs_total_def toy_codecs_def)
  moreover have "crypto_ok toy_prims" by (simp add: crypto_ok_def)
  ultimately show ?thesis
    using first_contact_delivery [of "toy_env 1" "toy_env 3" toy_bob toy_alice "ascii ''hello''" "[9]"]
      toy_owns [of toy_alice] toy_owns [of toy_bob] toy_holds toy_bob_knows toy_fresh
    by (simp add: NONCE_LEN_def)
qed

end
