(* ===== verification/NodeSafety.thy ===== *)
theory NodeSafety
  imports NodeFrame NodeDelivery
begin

text \<open>
  Safety of the handlers against hostile or unlucky input, and the places where the code falls short
  of its own comments: rejected messages leave no trace, replayed membership updates do nothing, a group can be
  taken over by a second creation, offline sends repeat a message key after a restart, the mailbox
  poll skips slots for good.
\<close>

section \<open>Rejected messages\<close>

lemma restore_store: "restore_session_if_persisted E p n = (r, n') \<Longrightarrow> nd_store n' = nd_store n \<and> nd_out n' = nd_out n"
  by (auto simp: restore_session_if_persisted_def split: if_splits option.splits sum.splits)

lemma decrypt_rejected:
  "decrypt_and_store E p payload n = (False, n') \<Longrightarrow> nd_store n' = nd_store n \<and> nd_out n' = nd_out n"
  by (auto simp: decrypt_and_store_def draw_def Let_def split: option.splits prod.splits sum.splits)

lemma bootstrap_rejected:
  "bootstrap_responder_and_decrypt E p eph i payload n = (False, n') \<Longrightarrow> nd_store n' = nd_store n \<and> nd_out n' = nd_out n"
  by (auto simp: bootstrap_responder_and_decrypt_def decrypt_first_message_def Let_def dest!: decrypt_rejected
      split: option.splits prod.splits if_splits)

text \<open>C17: A direct message that is not accepted (malformed, forged, expired, from the wrong peer, undecryptable)
  leaves the message store as it was, the persisted sessions included, and is invisible to
  the user: the only thing it can cause is a prekey request.\<close>
theorem rejected_dm_no_trace:
  assumes "process_incoming_dm E peer request n = (False, n')"
  shows "nd_store n' = nd_store n \<and> (nd_out n' = nd_out n \<or> (\<exists>p. nd_out n' = nd_out n @ [SendPrekeyRequest p]))"
  using assms
  by (auto simp: process_incoming_dm_def request_prekey_def emit_def dest!: decrypt_rejected bootstrap_rejected restore_store
      split: option.splits prod.splits bool.splits if_splits)

text \<open>A well-formed deniable message that names a sender other than the peer it came from.\<close>
theorem rejected_dm_no_trace_witness:
  "nd_store (snd (process_incoming_dm (toy_env 1) [8] (toy_enc_message (new_direct_deniable 40 [1] [7] [])) toy_bob)) = nd_store toy_bob"
proof -
  have "dec_message toy_codecs = toy_dec_message" by (simp add: toy_codecs_def)
  then have "accept_envelope (toy_env 1) toy_bob [8] (toy_enc_message (new_direct_deniable 40 [1] [7] [])) = None"
    by (simp add: accept_envelope_def verified_sender_def verify_def is_sealed_def new_direct_deniable_def fresh_message_def)
  then have "process_incoming_dm (toy_env 1) [8] (toy_enc_message (new_direct_deniable 40 [1] [7] [])) toy_bob = (False, toy_bob)"
    by (simp add: process_incoming_dm_def)
  from rejected_dm_no_trace [OF this] show ?thesis
    using \<open>process_incoming_dm (toy_env 1) _ _ _ = _\<close> by simp
qed

section \<open>Membership updates\<close>

definition groups_of :: "node \<Rightarrow> group_row list \<times> identity \<times> int" where
  "groups_of n = (st_groups (nd_store n), nd_identity n, nd_clock n)"

lemma groups_effects:
  "draw E l n = (r1, n') \<Longrightarrow> groups_of n' = groups_of n"
  "restore_session_if_persisted E p n = (r2, n') \<Longrightarrow> groups_of n' = groups_of n"
  "build_envelope E p c n = (r3, n') \<Longrightarrow> groups_of n' = groups_of n"
  "new_sender_chain E n = (r4, n') \<Longrightarrow> groups_of n' = groups_of n"
  by (auto simp: groups_of_def draw_def restore_session_if_persisted_def build_envelope_def new_sender_chain_def Let_def
      split: if_splits option.splits sum.splits)

lemma groups_saves [simp]:
  "groups_of (emit a n) = groups_of n" "groups_of (persist_session E p n) = groups_of n"
  "groups_of (save_my_chain E g b n) = groups_of n" "groups_of (n\<lparr> nd_sessions := ss \<rparr>) = groups_of n"
  by (simp_all add: groups_of_def persist_session_def save_session_def save_my_chain_def my_sender_key_save_def draw_def
      split: option.split)

lemma groups_wrap: "ratchet_encrypt_and_wrap_bytes E p c h k n = (r, n') \<Longrightarrow> groups_of n' = groups_of n"
  by (auto simp: ratchet_encrypt_and_wrap_bytes_def Let_def dest!: groups_effects(3) split: option.splits prod.splits sum.splits)

lemma groups_deliver: "deliver_kind_to_member E p k b n = (r, n') \<Longrightarrow> groups_of n' = groups_of n"
  by (auto simp: deliver_kind_to_member_def dest!: groups_wrap groups_effects(2) split: prod.splits option.splits bool.splits)

lemma groups_fan_out: "groups_of (snd (fan_out E k b ms n)) = groups_of n"
  by (induction ms arbitrary: n) (simp_all add: Let_def case_prod_unfold groups_deliver [OF surjective_pairing])

lemma groups_rotate: "groups_of (rotate_my_sender_chain_and_broadcast E g ep n) = groups_of n"
  by (auto simp: rotate_my_sender_chain_and_broadcast_def Let_def groups_fan_out dest!: groups_effects(4)
      split: prod.splits option.splits)

lemma groups_bundle: "groups_of (snd (send_my_bundle_to E g p n)) = groups_of n"
  by (auto simp: send_my_bundle_to_def groups_deliver [OF surjective_pairing] split: option.splits)

lemma groups_onboard:
  "groups_of (fold (\<lambda>p n. if peer_valid P p then snd (send_my_bundle_to E g p n) else n) ps n) = groups_of n"
  by (induction ps arbitrary: n) (simp_all add: groups_bundle)

lemma members_groups [simp]:
  "st_groups (add_members now g ms s) = st_groups s" "st_groups (drop_members g ms s) = st_groups s"
proof -
  show "st_groups (add_members now g ms s) = st_groups s"
    unfolding add_members_def by (induction ms arbitrary: s) (simp_all add: group_member_add_def)
  show "st_groups (drop_members g ms s) = st_groups s"
    unfolding drop_members_def
    by (induction ms arbitrary: s) (simp_all add: group_member_remove_def their_sender_key_delete_def)
qed

lemma group_get_cong: "st_groups s = st_groups s' \<Longrightarrow> group_get s g = group_get s' g"
  by (simp add: group_get_def)

lemma group_get_bumped:
  "group_get s g = Some row \<Longrightarrow> group_get (group_bump_epoch s g ep) g = Some (row\<lparr> gr_epoch := ep \<rparr>)"
proof -
  have f: "find_by gr_group_id g (map (\<lambda>r. if gr_group_id r = g then r\<lparr> gr_epoch := ep \<rparr> else r) rows)
      = map_option (\<lambda>r. r\<lparr> gr_epoch := ep \<rparr>) (find_by gr_group_id g rows)" for rows
    by (induction rows) (auto simp: find_by_def)
  show "group_get s g = Some row \<Longrightarrow> ?thesis"
    by (auto simp: group_get_def group_bump_epoch_def f group_row_ok_def split: option.splits if_splits)
qed

text \<open>An accepted update leaves the group at its epoch.\<close>
lemma update_sets_epoch:
  assumes "group_get (nd_store n) gid = Some row" "\<not> epoch \<le> gr_epoch row"
    "verify_membership_update (en_prims E) (MembershipUpdate gid added removed epoch sig) (gr_founder_pid row) = Inr u"
  shows "group_get (nd_store (process_group_control E sender (MembershipUpdate gid added removed epoch sig) n)) gid
    = Some (row\<lparr> gr_epoch := epoch \<rparr>)"
proof -
  let ?s = "drop_members gid removed (add_members (nd_clock n) gid added (nd_store n))"
  obtain n2 where n2: "process_group_control E sender (MembershipUpdate gid added removed epoch sig) n = n2" by blast
  have "groups_of n2 = groups_of (n\<lparr> nd_store := group_bump_epoch ?s gid epoch \<rparr>)"
    using assms unfolding n2 [symmetric] by (simp add: on_membership_update_def Let_def groups_onboard groups_rotate)
  then have "st_groups (nd_store n2) = st_groups (group_bump_epoch ?s gid epoch)" by (simp add: groups_of_def)
  from group_get_cong [OF this] have "group_get (nd_store n2) gid = group_get (group_bump_epoch ?s gid epoch) gid" .
  also have "\<dots> = Some (row\<lparr> gr_epoch := epoch \<rparr>)"
    using group_get_bumped group_get_cong [of ?s "nd_store n" gid] assms(1) by simp
  finally show ?thesis using n2 by simp
qed

text \<open>What a control message leaves of the epoch recorded for \<open>gid\<close>.\<close>
definition epoch_at_least :: "bytes \<Rightarrow> u64 \<Rightarrow> node \<Rightarrow> bool" where
  "epoch_at_least gid epoch n \<longleftrightarrow> (\<forall>row. group_get (nd_store n) gid = Some row \<longrightarrow> epoch \<le> gr_epoch row)"

lemma epoch_at_least_cong: "st_groups (nd_store n') = st_groups (nd_store n) \<Longrightarrow> epoch_at_least gid epoch n' = epoch_at_least gid epoch n"
  using group_get_cong [of "nd_store n'" "nd_store n" gid] by (simp add: epoch_at_least_def)

lemma group_get_bumped_other: "g' \<noteq> g \<Longrightarrow> group_get (group_bump_epoch s g' ep) g = group_get s g"
proof -
  assume g: "g' \<noteq> g"
  have "find_by gr_group_id g (map (\<lambda>r. if gr_group_id r = g' then r\<lparr> gr_epoch := ep \<rparr> else r) rows) = find_by gr_group_id g rows" for rows :: "group_row list"
    using g by (induction rows) (auto simp: find_by_def)
  then show ?thesis by (simp add: group_get_def group_bump_epoch_def)
qed

lemma group_get_upsert_other: "g' \<noteq> g \<Longrightarrow> group_get (group_upsert now s g' name founder ep) g = group_get s g"
proof -
  assume g: "g' \<noteq> g"
  have "find_by gr_group_id g (upsert_by gr_group_id (\<lambda>r. r\<lparr> gr_name := name, gr_founder_pid := founder, gr_epoch := ep \<rparr>) r rows)
      = find_by gr_group_id g rows" if "gr_group_id r = g'" for r and rows :: "group_row list"
  proof -
    have "List.find (\<lambda>x. gr_group_id x = g) (map (\<lambda>x. if gr_group_id x = g' then x\<lparr> gr_name := name, gr_founder_pid := founder, gr_epoch := ep \<rparr> else x) rows)
        = List.find (\<lambda>x. gr_group_id x = g) rows" using g by (induction rows) auto
    then show ?thesis using that g by (simp add: upsert_by_def find_by_def find_append split: option.split)
  qed
  then show ?thesis by (simp add: group_get_def group_upsert_def)
qed

text \<open>Only a creation message for \<open>gid\<close> can lower its epoch.\<close>
definition creates :: "bytes \<Rightarrow> group_control \<Rightarrow> bool" where
  "creates gid ctrl \<longleftrightarrow> (case ctrl of CreateGroup g _ _ _ _ _ \<Rightarrow> g = gid | _ \<Rightarrow> False)"

lemma control_keeps_epoch:
  assumes "epoch_at_least gid epoch n" "\<not> creates gid ctrl"
  shows "epoch_at_least gid epoch (process_group_control E sender ctrl n)"
proof (cases ctrl)
  case (CreateGroup g name founder members ep sig)
  then have "g \<noteq> gid" using assms(2) by (simp add: creates_def)
  then have "epoch_at_least gid epoch (n\<lparr> nd_store := add_members now g members (group_upsert now (nd_store n) g name founder ep) \<rparr>)" for now
    using assms(1) group_get_upsert_other group_get_cong [OF members_groups(1)] by (simp add: epoch_at_least_def)
  then show ?thesis using CreateGroup assms(1) by (simp add: on_create_group_def split: sum.split)
next
  case (MembershipUpdate g added removed ep sig)
  let ?s = "group_bump_epoch (drop_members g removed (add_members (nd_clock n) g added (nd_store n))) g ep"
  let ?n' = "process_group_control E sender ctrl n"
  show ?thesis
  proof (cases "?n' = n")
    case False
    obtain row where row: "group_get (nd_store n) g = Some row" "gr_epoch row < ep"
      using False MembershipUpdate by (auto simp: on_membership_update_def not_le split: option.splits if_splits)
    have "groups_of ?n' = groups_of (n\<lparr> nd_store := ?s \<rparr>)"
      using False MembershipUpdate by (auto simp: on_membership_update_def Let_def groups_onboard groups_rotate split: option.splits if_splits sum.splits)
    then have "epoch_at_least gid epoch ?n' = epoch_at_least gid epoch (n\<lparr> nd_store := ?s \<rparr>)"
      by (intro epoch_at_least_cong) (simp add: groups_of_def)
    moreover have "group_get (drop_members g removed (add_members (nd_clock n) g added (nd_store n))) x = group_get (nd_store n) x" for x
      by (rule group_get_cong) simp
    then have "epoch_at_least gid epoch (n\<lparr> nd_store := ?s \<rparr>)"
      using assms(1) row group_get_bumped [of _ g row ep] group_get_bumped_other [of g gid]
      by (cases "g = gid") (auto simp: epoch_at_least_def)
    ultimately show ?thesis by simp
  qed (use assms(1) in simp)
next
  case (SenderKeyDistribution g keys ep)
  have "epoch_at_least gid epoch (save_their_chain E g sender blob n) = epoch_at_least gid epoch n" for blob
    by (rule epoch_at_least_cong) (simp add: save_their_chain_def their_sender_key_save_def draw_def)
  then show ?thesis using SenderKeyDistribution assms(1) by (simp add: on_sender_key_distribution_def split: option.split)
next
  case (Leave g leaver ep sig)
  let ?n = "n\<lparr> nd_store := drop_members g [leaver] (nd_store n) \<rparr>"
  have "st_groups (nd_store (rotate_my_sender_chain_and_broadcast E g e ?n)) = st_groups (nd_store n)" for e
    using groups_rotate [of E g e ?n] by (simp add: groups_of_def)
  then have "epoch_at_least gid epoch (rotate_my_sender_chain_and_broadcast E g e ?n) = epoch_at_least gid epoch n" for e
    by (rule epoch_at_least_cong)
  then show ?thesis using Leave assms(1) by (simp add: on_leave_def Let_def split: sum.split)
qed

lemma controls_keep_epoch:
  "epoch_at_least gid epoch n \<Longrightarrow> \<forall>(sender, ctrl) \<in> set msgs. \<not> creates gid ctrl
     \<Longrightarrow> epoch_at_least gid epoch (fold (\<lambda>(sender, ctrl). process_group_control E sender ctrl) msgs n)"
  by (induction msgs arbitrary: n) (auto simp: control_keeps_epoch)

lemma old_epoch_ignored:
  "epoch_at_least gid epoch n \<Longrightarrow> stale \<le> epoch \<Longrightarrow> process_group_control E sender (MembershipUpdate gid added removed stale sig) n = n"
  by (auto simp: epoch_at_least_def on_membership_update_def split: option.split)

text \<open>C14: Once a membership update has been processed, it and every other update of an epoch that is not newer stay
  ignored, whoever delivers them and whatever control messages of whatever peers (updates, leaves, sender keys, creations of other
  groups) are processed in between, as long as none of them is a creation message for the same group.  That one
  resets the epoch, as C19 shows, and with it reopens the older updates of its founder.\<close>
theorem stale_update_ignored:
  assumes "group_get (nd_store n) gid = Some row" "gr_epoch row < epoch" "stale \<le> epoch"
    and "verify_membership_update (en_prims E) (MembershipUpdate gid added removed epoch sig) (gr_founder_pid row) = Inr u"
    and "\<forall>(peer, ctrl) \<in> set msgs. \<not> creates gid ctrl"
  shows "let updated = process_group_control E sender (MembershipUpdate gid added removed epoch sig) n;
             later = fold (\<lambda>(peer, ctrl). process_group_control E peer ctrl) msgs updated
         in process_group_control E sender' (MembershipUpdate gid added' removed' stale sig') later = later"
proof -
  have "epoch_at_least gid epoch (process_group_control E sender (MembershipUpdate gid added removed epoch sig) n)"
    using update_sets_epoch [OF assms(1) _ assms(4), of sender] assms(2) by (simp add: epoch_at_least_def)
  then show ?thesis using old_epoch_ignored [OF controls_keep_epoch [OF _ assms(5)] assms(3)] by (simp add: Let_def)
qed

definition toy_group :: bytes where "toy_group = replicate 32 77"

definition toy_member :: node where
  "toy_member = new_node (toy_identity 20) False (group_upsert 0 (empty_store [1]) toy_group [] [3] 5) 50"

lemma toy_member_group: "group_get (nd_store toy_member) toy_group = Some \<lparr> gr_group_id = toy_group, gr_name = [], gr_founder_pid = [3],
    gr_epoch = 5, gr_created_at = 0 \<rparr>"
  by (simp add: toy_member_def new_node_def group_upsert_def empty_store_def upsert_by_def group_get_def find_by_def group_row_ok_def toy_group_def)

theorem stale_update_ignored_witness:
  "\<exists>sig. let updated = process_group_control (toy_env 1) [3] (MembershipUpdate toy_group [[4]] [] 6 sig) toy_member;
            later = fold (\<lambda>(peer, ctrl). process_group_control (toy_env 1) peer ctrl)
              [([5], CreateGroup [1] [] [5] [replicate 32 20] 0 (toy_sign [5] (canonical_create_bytes [1] [] [5] [replicate 32 20] 0))),
               ([4], Leave toy_group [4] 6 (toy_sign [4] (canonical_leave_bytes toy_group [4] 6)))] updated
        in process_group_control (toy_env 1) [9] (MembershipUpdate toy_group [[4]] [] 6 sig) later = later"
proof -
  obtain sig where "kp_sign toy_prims [3] (canonical_update_bytes toy_group [[4]] [] 6) = Some sig" by simp
  from verify_own_sig [OF _ this] have v: "verify_membership_update toy_prims (MembershipUpdate toy_group [[4]] [] 6 sig) [3] = Inr [3]"
    by simp
  have "length ([1] :: bytes) \<noteq> length toy_group" by (simp add: toy_group_def)
  then have other: "[1] \<noteq> toy_group" by metis
  show ?thesis
    by (rule exI [of _ sig], rule stale_update_ignored [OF toy_member_group]) (use v other in \<open>simp_all add: creates_def\<close>)
qed

section \<open>A second creation takes a group over\<close>

lemma group_get_upsert:
  assumes "length gid = 32"
  shows "\<exists>row. group_get (group_upsert now s gid name founder epoch) gid = Some row \<and> gr_founder_pid row = founder \<and> gr_epoch row = epoch"
proof -
  have "\<exists>row. find_by gr_group_id gid (map (\<lambda>r. if gr_group_id r = gid
      then r\<lparr> gr_name := name, gr_founder_pid := founder, gr_epoch := epoch \<rparr> else r) rows) = Some row
      \<and> gr_group_id row = gid \<and> gr_founder_pid row = founder \<and> gr_epoch row = epoch" if "list_ex (\<lambda>x. gr_group_id x = gid) rows" for rows
    using that by (induction rows) (auto simp: find_by_def)
  moreover have "find_by gr_group_id gid (rows @ [r]) = Some r" if "\<not> list_ex (\<lambda>x. gr_group_id x = gid) rows" "gr_group_id r = gid" for r rows
    using that by (induction rows) (auto simp: find_by_def)
  ultimately show ?thesis using assms
    by (cases "list_ex (\<lambda>x. gr_group_id x = gid) (st_groups s)")
      (fastforce simp: group_upsert_def group_get_def upsert_by_def group_row_ok_def)+
qed

text \<open>C19: Any peer that knows a group id can take the group over at a member.  A creation message naming that id,
  validly signed by the peer itself and listing the member, replaces the recorded founder and epoch
  whatever they were; from then on the peer's updates are the ones that pass the founder check.\<close>
theorem create_group_takeover:
  assumes "peer_key_correct (en_prims E) kp" "length gid = 32" "my_pid n \<in> set members"
    and "new_create_group (en_prims E) gid name (kp_peer (en_prims E) kp) members epoch kp = Inr ctrl"
  shows "\<exists>row. group_get (nd_store (process_group_control E (kp_peer (en_prims E) kp) ctrl n)) gid = Some row
     \<and> gr_founder_pid row = kp_peer (en_prims E) kp \<and> gr_epoch row = epoch"
proof -
  let ?P = "en_prims E" and ?f = "kp_peer (en_prims E) kp"
  obtain sig where sig: "kp_sign ?P kp (canonical_create_bytes gid name ?f members epoch) = Some sig"
    "ctrl = CreateGroup gid name ?f members epoch sig"
    using assms(4) by (auto simp: new_create_group_def split: option.splits if_splits)
  have "verify_signature ?P ctrl = Inr ()"
    using verify_own_sig [OF assms(1) sig(1)] assms(1) sig(2) by (auto simp: peer_key_correct_def)
  then have "nd_store (process_group_control E ?f ctrl n)
      = add_members (nd_clock n) gid members (group_upsert (nd_clock n) (nd_store n) gid name ?f epoch)"
    using assms(3) sig(2) by (simp add: on_create_group_def)
  then show ?thesis
    using group_get_upsert [OF assms(2), of "nd_clock n" "nd_store n" name ?f epoch] group_get_cong [OF members_groups(1)] by metis
qed

theorem create_group_takeover_witness:
  "gr_founder_pid (the (group_get (nd_store toy_member) toy_group)) = [3]
   \<and> (\<exists>ctrl row. group_get (nd_store (process_group_control (toy_env 1) [66] ctrl toy_member)) toy_group = Some row
        \<and> gr_founder_pid row = [66] \<and> gr_epoch row = 0)"
proof -
  obtain ctrl where "new_create_group toy_prims toy_group [] [66] [replicate 32 20] 0 [66] = Inr ctrl"
    by (simp add: new_create_group_def)
  then show ?thesis
    using create_group_takeover [of "toy_env 1" "[66]" toy_group toy_member "[replicate 32 20]" "[]" 0 ctrl] toy_member_group
    by (auto simp: toy_member_def new_node_def toy_group_def)
qed

section \<open>Offline sends and restarts\<close>

definition session_view :: "node \<Rightarrow> (bytes \<times> ratchet_state) list \<times> blob_row list \<times> bytes \<times> identity" where
  "session_view n = (nd_sessions n, st_sessions (nd_store n), st_dek (nd_store n), nd_identity n)"

lemma session_view_effects:
  "draw E l n = (r1, n') \<Longrightarrow> session_view n' = session_view n"
  "put_record E k v n = (r2, n') \<Longrightarrow> session_view n' = session_view n"
  "build_envelope E p c n = (r3, n') \<Longrightarrow> session_view n' = session_view n"
  "session_view (emit a n) = session_view n"
  by (auto simp: session_view_def draw_def put_record_def emit_def build_envelope_def Let_def split: if_splits option.splits)

lemma put_mailbox_view: "session_view (put_mailbox_drop_bytes E p w n) = session_view n"
proof -
  have "session_view (put_mailbox_drop_bytes E p w n) = session_view (emit (KadStartProviding (slot_kad_key (en_prims E) p (slot_id_for (nd_clock n)))) n)"
    by (auto simp: put_mailbox_drop_bytes_def Let_def session_view_def mailbox_drop_record_def draw_def put_record_def emit_def
        split: prod.splits option.splits bool.splits if_splits)
  then show ?thesis by (simp add: session_view_effects(4))
qed

lemma wrap_view:
  assumes "map_of (nd_sessions n) p = Some st" "ratchet_encrypt (en_prims E) st t (ratchet_ad (my_pid n) p) = (Inr m, st')"
    and "ratchet_encrypt_and_wrap_bytes E p t hello kind n = (r, n')"
  shows "session_view n' = session_view (n\<lparr> nd_sessions := AList.update p st' (nd_sessions n) \<rparr>)"
  using assms by (auto simp: ratchet_encrypt_and_wrap_bytes_def Let_def dest!: session_view_effects(3) split: option.splits prod.splits sum.splits)

lemma queue_offline_view:
  assumes "map_of (nd_sessions n1) p = Some st" "restore_session_if_persisted E p n = (True, n1)"
    and "ratchet_encrypt (en_prims E) st t (ratchet_ad (my_pid n1) p) = (Inr m, st')"
  shows "session_view (queue_offline E p t n) = session_view (n1\<lparr> nd_sessions := AList.update p st' (nd_sessions n1) \<rparr>)"
proof -
  obtain r n2 where w: "ratchet_encrypt_and_wrap_bytes E p t None 0 n1 = (r, n2)" by fastforce
  then have t: "try_encrypt_offline E p t n = (map_option fst r, n2)"
    using assms(2) by (simp add: try_encrypt_offline_def ratchet_encrypt_and_wrap_def)
  have add: "session_view (n\<lparr> nd_draws := k, nd_store := snd (outbox_add P nonce now (nd_store n) a b ttl) \<rparr>) = session_view n"
    "session_view (n\<lparr> nd_draws := k, nd_store := snd (outbox_add_wire P nonce now (nd_store n) a b ttl) \<rparr>) = session_view n" for k P nonce now a b ttl n
    by (simp_all add: session_view_def outbox_add_def outbox_add_wire_def outbox_insert_def Let_def)
  have "session_view (queue_offline E p t n) = session_view n2"
    using t put_mailbox_view [of E p _ n2]
    by (cases r) (simp_all add: queue_offline_def draw_def add)
  then show ?thesis using wrap_view [OF assms(1,3) w] by simp
qed

lemma restore_view:
  assumes "session_view n' = (ss, st_sessions s, st_dek s, i)" "load_session (en_prims E) s p = Inr (Some blob)"
    and "dec_session (en_codecs E) blob = Some st"
  shows "\<exists>n2. restore_session_if_persisted E p (restart n') = (True, n2) \<and> map_of (nd_sessions n2) p = Some st \<and> my_pid n2 = my_pid n'"
proof -
  have "load_session (en_prims E) (nd_store n') p = load_session (en_prims E) s p"
    using assms(1) decrypt_at_rest_dek [of "nd_store n'" s] by (simp add: session_view_def load_session_def split: option.split)
  then show ?thesis using assms(2,3) by (simp add: restore_session_if_persisted_def restart_def new_node_def)
qed

text \<open>C18: Sending to an offline peer, restarting and sending again encrypts two texts under the same message
  key and header.  The offline path never saves the advanced session, so the restarted node continues
  from the persisted one: both messages are sealed by the key of the same chain index, with the
  ratchet's constant nonce.\<close>
theorem offline_send_reuses_key:
  assumes "map_of (nd_sessions n) peer = Some st" "nd_connected n peer = None" "rs_cks st = Some cks"
    and "load_session (en_prims E) (nd_store n) peer = Inr (Some blob)" "dec_session (en_codecs E) blob = Some st"
  shows "let first = node_step E (Command (Send peer t1)) n;
             second = node_step E (Command (Send peer t2)) (restart first);
             ad = ratchet_ad (my_pid n) peer
         in map_of (nd_sessions first) peer = Some (snd (ratchet_encrypt (en_prims E) st t1 ad))
          \<and> map_of (nd_sessions second) peer = Some (snd (ratchet_encrypt (en_prims E) st t2 ad))
          \<and> (\<exists>h mk. fst (ratchet_encrypt (en_prims E) st t1 ad) = Inr \<lparr> rm_header = h, rm_ct = aead_encrypt (en_prims E) mk t1 ad h \<rparr>
                  \<and> fst (ratchet_encrypt (en_prims E) st t2 ad) = Inr \<lparr> rm_header = h, rm_ct = aead_encrypt (en_prims E) mk t2 ad h \<rparr>)"
proof -
  let ?P = "en_prims E" and ?ad = "ratchet_ad (my_pid n) peer"
  have enc: "\<exists>m. ratchet_encrypt ?P st t ?ad = (Inr m, snd (ratchet_encrypt ?P st t ?ad))" for t
    using assms(3) by (simp add: ratchet_encrypt_def case_prod_unfold Let_def)
  obtain first where first: "node_step E (Command (Send peer t1)) n = first" by blast
  obtain m1 where m1: "ratchet_encrypt ?P st t1 ?ad = (Inr m1, snd (ratchet_encrypt ?P st t1 ?ad))" using enc by blast
  have "restore_session_if_persisted E peer n = (True, n)" using assms(1) by (simp add: restore_session_if_persisted_def)
  from queue_offline_view [OF assms(1) this m1]
  have v1: "session_view first = session_view (n\<lparr> nd_sessions := AList.update peer (snd (ratchet_encrypt ?P st t1 ?ad)) (nd_sessions n) \<rparr>)"
    using assms(2) first by (simp add: try_send_or_queue_def)
  then have sv: "session_view first = (nd_sessions first, st_sessions (nd_store n), st_dek (nd_store n), nd_identity n)"
    by (simp add: session_view_def)
  obtain n2 where n2: "restore_session_if_persisted E peer (restart first) = (True, n2)" "map_of (nd_sessions n2) peer = Some st"
    "my_pid n2 = my_pid first"
    using restore_view [OF sv assms(4,5)] by blast
  obtain m2 where m2: "ratchet_encrypt ?P st t2 ?ad = (Inr m2, snd (ratchet_encrypt ?P st t2 ?ad))" using enc by blast
  have "my_pid n2 = my_pid n" using n2(3) sv by (simp add: session_view_def)
  then have "session_view (queue_offline E peer t2 (restart first))
      = session_view (n2\<lparr> nd_sessions := AList.update peer (snd (ratchet_encrypt ?P st t2 ?ad)) (nd_sessions n2) \<rparr>)"
    using queue_offline_view [OF n2(2,1)] m2 by simp
  then have second: "map_of (nd_sessions (node_step E (Command (Send peer t2)) (restart first))) peer = Some (snd (ratchet_encrypt ?P st t2 ?ad))"
    by (simp add: try_send_or_queue_def restart_def new_node_def session_view_def)
  have "map_of (nd_sessions first) peer = Some (snd (ratchet_encrypt ?P st t1 ?ad))"
    using v1 by (simp add: session_view_def)
  moreover have "\<exists>h mk. fst (ratchet_encrypt ?P st t1 ?ad) = Inr \<lparr> rm_header = h, rm_ct = aead_encrypt ?P mk t1 ?ad h \<rparr>
      \<and> fst (ratchet_encrypt ?P st t2 ?ad) = Inr \<lparr> rm_header = h, rm_ct = aead_encrypt ?P mk t2 ?ad h \<rparr>"
    using assms(3) by (auto simp: ratchet_encrypt_def case_prod_unfold Let_def)
  ultimately show ?thesis using first second by (simp add: Let_def)
qed

definition toy_session :: ratchet_state where
  "toy_session = new_initiator toy_prims [1, 2] [3, 4] [5, 6]"

definition toy_session_env :: env where
  "toy_session_env = (toy_env 1)\<lparr> en_codecs := toy_codecs\<lparr> dec_session := (\<lambda>b. if b = [5] then Some toy_session else None) \<rparr> \<rparr>"

definition toy_returning :: node where
  "toy_returning = (new_node (toy_identity 10) False (save_session toy_prims (replicate 12 0) 0 (empty_store [1]) [7] [5]) 40)
     \<lparr> nd_sessions := [([7], toy_session)] \<rparr>"

theorem offline_send_reuses_key_witness:
  "let first = node_step toy_session_env (Command (Send [7] [100])) toy_returning;
       second = node_step toy_session_env (Command (Send [7] [200])) (restart first)
   in map_of (nd_sessions first) [7] = Some (snd (ratchet_encrypt toy_prims toy_session [100] (ratchet_ad (replicate 32 10) [7])))
    \<and> map_of (nd_sessions second) [7] = Some (snd (ratchet_encrypt toy_prims toy_session [200] (ratchet_ad (replicate 32 10) [7])))"
proof -
  have e: "en_prims toy_session_env = toy_prims" "dec_session (en_codecs toy_session_env) [5] = Some toy_session"
    by (simp_all add: toy_session_env_def toy_env_def)
  have n: "map_of (nd_sessions toy_returning) [7] = Some toy_session" "nd_connected toy_returning [7] = None"
    "my_pid toy_returning = replicate 32 10"
    by (simp_all add: toy_returning_def new_node_def)
  have "load_session toy_prims (nd_store toy_returning) [7] = Inr (Some [5])"
    using sess.load_save [where P = toy_prims and v = "(replicate 12 0, 0, [5])" and k = "[7]" and s = "empty_store [1]"]
    by (simp add: toy_returning_def new_node_def valid_save_def NONCE_LEN_def)
  moreover obtain cks where "rs_cks toy_session = Some cks" by (simp add: toy_session_def new_initiator_def case_prod_unfold Let_def)
  ultimately show ?thesis
    using offline_send_reuses_key [of toy_returning "[7]" toy_session cks toy_session_env "[5]" "[100]" "[200]"] e n
    by (simp add: Let_def)
qed

section \<open>The mailbox poll\<close>

definition registers :: "node \<Rightarrow> int set" where
  "registers n = ran (nd_provider_queries n) \<union> fst ` ran (nd_record_queries n)"

lemma poll_provider_registers: "registers (poll_provider_slot E slot n) \<subseteq> insert slot (registers n)"
  by (auto simp: registers_def poll_provider_slot_def get_providers_def emit_def ran_def split: if_splits)

lemma fetch_record_registers: "registers (fetch_record k slot p n) \<subseteq> insert slot (registers n)"
  by (force simp: registers_def fetch_record_def get_record_def emit_def ran_def split: if_splits)

lemma fold_registers:
  "(\<And>x n. x \<in> set xs \<Longrightarrow> registers (f x n) \<subseteq> S \<union> registers n) \<Longrightarrow> registers (fold f xs n) \<subseteq> S \<union> registers n"
proof (induction xs arbitrary: n)
  case (Cons x xs)
  have "registers (fold f xs (f x n)) \<subseteq> S \<union> registers (f x n)" by (rule Cons.IH) (use Cons.prems in auto)
  then show ?case using Cons.prems [of x n] by auto
qed simp

lemma poll_registers:
  "registers (poll_mailbox_slots E n)
     \<subseteq> {poll_start (mailbox_last_polled_slot (nd_store n)) (slot_id_for (nd_clock n))..slot_id_for (nd_clock n)} \<union> registers n"
proof -
  let ?now = "slot_id_for (nd_clock n)"
  let ?slots = "[poll_start (mailbox_last_polled_slot (nd_store n)) ?now..?now]"
  have p: "registers (fold (poll_provider_slot E) ?slots m) \<subseteq> set ?slots \<union> registers m" for m
    by (rule fold_registers) (use poll_provider_registers in fastforce)
  have s: "registers (fold (poll_session_slots E ?slots) ss m) \<subseteq> set ?slots \<union> registers m" for ss m
  proof (rule fold_registers)
    fix x :: "bytes \<times> ratchet_state" and m
    show "registers (poll_session_slots E ?slots x m) \<subseteq> set ?slots \<union> registers m"
      unfolding poll_session_slots_def by (rule fold_registers) (use fetch_record_registers in fastforce)
  qed
  have st: "registers (m\<lparr> nd_store := t \<rparr>) = registers m" for m t by (simp add: registers_def)
  show ?thesis
    using p [of n] s [of "nd_sessions (fold (poll_provider_slot E) ?slots n)" "fold (poll_provider_slot E) ?slots n"]
    by (auto simp: poll_mailbox_slots_def Let_def st)
qed

lemma poll_cursor:
  "mailbox_last_polled_slot (nd_store (poll_mailbox_slots E n)) =
     (let now = slot_id_for (nd_clock n) in
      if poll_start (mailbox_last_polled_slot (nd_store n)) now \<le> now \<and> 0 < now then now - 1 else mailbox_last_polled_slot (nd_store n))"
proof -
  have q: "nd_store (fold (poll_provider_slot E) slots m) = nd_store m" for slots m
    by (induction slots arbitrary: m) (simp_all add: poll_provider_slot_def get_providers_def)
  have r: "nd_store (poll_session_slots E slots ss m) = nd_store m" for slots ss m
    unfolding poll_session_slots_def by (induction slots arbitrary: m) (simp_all add: fetch_record_def get_record_def)
  have t: "nd_store (fold (poll_session_slots E slots) sss m) = nd_store m" for slots sss m
    by (induction sss arbitrary: m) (simp_all add: r)
  show ?thesis
    by (auto simp: poll_mailbox_slots_def Let_def q t mailbox_last_polled_slot_def mailbox_set_last_polled_slot_def split: option.splits)
qed

text \<open>C37: A mailbox drop more than a day old is lost to the poll for good.  A node that comes back asks only for the
  last 24 slots and moves its cursor past the rest, so neither this poll nor any later poll from the
  cursor it leaves, at any later time, ever asks for an older slot, although drops live for seven days and the sender
  keeps republishing them under their old slot.\<close>
theorem old_drops_never_polled:
  assumes "slot < slot_id_for (nd_clock n) - 23" "0 < slot_id_for (nd_clock n)"
    and "mailbox_last_polled_slot (nd_store n) < slot_id_for (nd_clock n)"
    and "mailbox_last_polled_slot (nd_store n') = mailbox_last_polled_slot (nd_store (poll_mailbox_slots E n))"
  shows "registers (poll_mailbox_slots E n) \<inter> {slot} \<subseteq> registers n
     \<and> registers (poll_mailbox_slots E' n') \<inter> {slot} \<subseteq> registers n'"
proof -
  have "mailbox_last_polled_slot (nd_store n') = slot_id_for (nd_clock n) - 1"
    using assms(2-4) by (simp add: poll_cursor Let_def poll_start_def)
  then show ?thesis using assms(1) poll_registers [of E n] poll_registers [of E' n'] by (auto simp: poll_start_def)
qed

theorem old_drops_never_polled_witness:
  "registers (poll_mailbox_slots (toy_env 1) (toy_bob\<lparr> nd_clock := 3600 * 100 \<rparr>)) \<inter> {76} \<subseteq> registers toy_bob"
proof -
  have "mailbox_last_polled_slot (nd_store toy_bob) = 0"
    by (simp add: toy_bob_def new_node_def add_my_otpk_def save_prekey_def empty_store_def mailbox_last_polled_slot_def)
  moreover have "slot_id_for (3600 * 100) = 100" by (simp add: slot_id_for_def SLOT_SECONDS_def)
  moreover have "registers (toy_bob\<lparr> nd_clock := t \<rparr>) = registers toy_bob" for t by (simp add: registers_def)
  ultimately show ?thesis
    using old_drops_never_polled [of 76 "toy_bob\<lparr> nd_clock := 3600 * 100 \<rparr>" "poll_mailbox_slots (toy_env 1) (toy_bob\<lparr> nd_clock := 3600 * 100 \<rparr>)" "toy_env 1" "toy_env 1"]
    by simp
qed

end
