(* ===== verification/Text.thy ===== *)
theory Text
  imports Prelude
begin

text \<open>
  What the program uses of Rust's \<open>str\<close>.  A string is its UTF-8 bytes; the functions below are
  \<open>str::trim\<close>, \<open>splitn(2, ..)\<close>, \<open>split_whitespace\<close>, \<open>parse::<usize>\<close>, \<open>from_utf8\<close> and the part of
  \<open>to_lowercase\<close> that matters for comparing with an ASCII word without the letter k (no character
  other than an ASCII one lowercases to such a word's letters).
\<close>

section \<open>White space\<close>

text \<open>The UTF-8 encodings of the 25 characters with the Unicode property \<open>White_Space\<close>.\<close>
definition white_space :: "bytes list" where
  "white_space = [[9], [10], [11], [12], [13], [32], [0xC2, 0x85], [0xC2, 0xA0], [0xE1, 0x9A, 0x80],
     [0xE2, 0x80, 0x80], [0xE2, 0x80, 0x81], [0xE2, 0x80, 0x82], [0xE2, 0x80, 0x83], [0xE2, 0x80, 0x84],
     [0xE2, 0x80, 0x85], [0xE2, 0x80, 0x86], [0xE2, 0x80, 0x87], [0xE2, 0x80, 0x88], [0xE2, 0x80, 0x89],
     [0xE2, 0x80, 0x8A], [0xE2, 0x80, 0xA8], [0xE2, 0x80, 0xA9], [0xE2, 0x80, 0xAF], [0xE2, 0x81, 0x9F],
     [0xE3, 0x80, 0x80]]"

text \<open>\<open>strip_char cs s\<close> takes one of the encodings \<open>cs\<close> off the front of \<open>s\<close>.\<close>
definition strip_char :: "bytes list \<Rightarrow> bytes \<Rightarrow> bytes option" where
  "strip_char cs s = map_option (\<lambda>w. drop (length w) s) (List.find (\<lambda>w. w \<noteq> [] \<and> take (length w) s = w) cs)"

lemma strip_char_shorter: "strip_char cs s = Some r \<Longrightarrow> length r < length s"
proof -
  assume "strip_char cs s = Some r"
  then obtain w where "w \<noteq> []" "take (length w) s = w" "r = drop (length w) s"
    by (auto simp: strip_char_def find_Some_iff)
  then show ?thesis by (metis append_take_drop_id length_append length_greater_0_conv less_add_same_cancel2)
qed

lemma strip_char_None: "strip_char cs s = None \<longleftrightarrow> (\<forall>w \<in> set cs. w \<noteq> [] \<longrightarrow> take (length w) s \<noteq> w)"
  by (auto simp: strip_char_def find_None_iff)

function trim_front :: "bytes list \<Rightarrow> bytes \<Rightarrow> bytes" where
  "trim_front cs s = (case strip_char cs s of None \<Rightarrow> s | Some r \<Rightarrow> trim_front cs r)"
  by pat_completeness auto
termination by (relation "measure (length \<circ> snd)") (auto simp: strip_char_shorter)

declare trim_front.simps [simp del]

definition trim :: "bytes \<Rightarrow> bytes" where
  "trim s = rev (trim_front (map rev white_space) (rev (trim_front white_space s)))"

section \<open>Splitting\<close>

text \<open>\<open>splitn(2, ' ')\<close> and \<open>splitn(2, char::is_whitespace)\<close>: the first part and, after a separator, the rest.\<close>
fun split_space :: "bytes \<Rightarrow> bytes \<times> bytes option" where
  "split_space [] = ([], None)"
| "split_space (b # s) = (if b = 32 then ([], Some s) else apfst ((#) b) (split_space s))"

fun split_ws :: "bytes \<Rightarrow> bytes \<times> bytes option" where
  "split_ws [] = ([], None)"
| "split_ws (b # s) = (case strip_char white_space (b # s) of
     Some r \<Rightarrow> ([], Some r) | None \<Rightarrow> apfst ((#) b) (split_ws s))"

lemma split_ws_shorter: "split_ws s = (w, Some r) \<Longrightarrow> length r < length s"
proof (induction s arbitrary: w)
  case (Cons b s)
  then show ?case using strip_char_shorter [of white_space "b # s"]
    by (cases "split_ws s") (fastforce split: option.splits simp: less_Suc_eq)
qed simp

function split_whitespace :: "bytes \<Rightarrow> bytes list" where
  "split_whitespace s = (case split_ws s of (w, r) \<Rightarrow>
     (if w = [] then [] else [w]) @ (case r of None \<Rightarrow> [] | Some r \<Rightarrow> split_whitespace r))"
  by pat_completeness auto
termination by (relation "measure length") (auto dest: split_ws_shorter [OF sym])

declare split_whitespace.simps [simp del]

section \<open>Case and numbers\<close>

definition lower :: "bytes \<Rightarrow> bytes" where
  "lower = map (\<lambda>b. if 65 \<le> b \<and> b \<le> 90 then b + 32 else b)"

definition is_digit :: "byte \<Rightarrow> bool" where
  "is_digit b \<longleftrightarrow> 48 \<le> b \<and> b \<le> 57"

definition parse_usize :: "bytes \<Rightarrow> nat option" where
  "parse_usize s =
     (let ds = (case s of [] \<Rightarrow> [] | b # r \<Rightarrow> if b = 43 then r else s);
          v = foldl (\<lambda>v b. 10 * v + (unat b - 48)) 0 ds
      in if ds \<noteq> [] \<and> list_all is_digit ds \<and> v < 2 ^ 64 then Some v else None)"

fun decimal :: "nat \<Rightarrow> bytes" where
  "decimal n = (if n < 10 then [of_nat (48 + n)] else decimal (n div 10) @ [of_nat (48 + n mod 10)])"

declare decimal.simps [simp del]

section \<open>UTF-8 validation\<close>

text \<open>The ranges of the continuation bytes that must follow a lead byte.\<close>
definition utf8_lead :: "byte \<Rightarrow> (byte \<times> byte) list option" where
  "utf8_lead b =
     (if b < 0x80 then Some []
      else if 0xC2 \<le> b \<and> b \<le> 0xDF then Some [(0x80, 0xBF)]
      else if b = 0xE0 then Some [(0xA0, 0xBF), (0x80, 0xBF)]
      else if b = 0xED then Some [(0x80, 0x9F), (0x80, 0xBF)]
      else if 0xE1 \<le> b \<and> b \<le> 0xEF then Some [(0x80, 0xBF), (0x80, 0xBF)]
      else if b = 0xF0 then Some [(0x90, 0xBF), (0x80, 0xBF), (0x80, 0xBF)]
      else if 0xF1 \<le> b \<and> b \<le> 0xF3 then Some [(0x80, 0xBF), (0x80, 0xBF), (0x80, 0xBF)]
      else if b = 0xF4 then Some [(0x80, 0x8F), (0x80, 0xBF), (0x80, 0xBF)]
      else None)"

fun utf8_run :: "(byte \<times> byte) list \<Rightarrow> bytes \<Rightarrow> bool" where
  "utf8_run rs [] = (rs = [])"
| "utf8_run [] (b # s) = (case utf8_lead b of None \<Rightarrow> False | Some rs \<Rightarrow> utf8_run rs s)"
| "utf8_run ((lo, hi) # rs) (b # s) = (lo \<le> b \<and> b \<le> hi \<and> utf8_run rs s)"

definition from_utf8 :: "bytes \<Rightarrow> bytes option" where
  "from_utf8 s = (if utf8_run [] s then Some s else None)"

text \<open>\<open>String::from_utf8_lossy\<close>: every maximal invalid piece becomes U+FFFD.  \<open>acc\<close> is the part of the current
  character already read, \<open>rs\<close> what may follow it.\<close>
definition replacement :: bytes where
  "replacement = [0xEF, 0xBF, 0xBD]"

fun lossy_from :: "bytes \<Rightarrow> (byte \<times> byte) list \<Rightarrow> bytes \<Rightarrow> bytes" where
  "lossy_from acc [] [] = []"
| "lossy_from acc (r # rs) [] = replacement"
| "lossy_from acc [] (b # s) = (case utf8_lead b of
     None \<Rightarrow> replacement @ lossy_from [] [] s
   | Some [] \<Rightarrow> b # lossy_from [] [] s
   | Some (r # rs) \<Rightarrow> lossy_from [b] (r # rs) s)"
| "lossy_from acc ((lo, hi) # rs) (b # s) =
     (if lo \<le> b \<and> b \<le> hi then
        (if rs = [] then acc @ b # lossy_from [] [] s else lossy_from (acc @ [b]) rs s)
      else replacement @ (case utf8_lead b of
          None \<Rightarrow> replacement @ lossy_from [] [] s
        | Some [] \<Rightarrow> b # lossy_from [] [] s
        | Some (r # rs) \<Rightarrow> lossy_from [b] (r # rs) s))"

definition from_utf8_lossy :: "bytes \<Rightarrow> bytes" where
  "from_utf8_lossy s = lossy_from [] [] s"

text \<open>\<open>&s[..k]\<close>, which panics (\<open>None\<close>) when \<open>k\<close> is past the end or inside a character.\<close>
definition is_char_boundary :: "bytes \<Rightarrow> nat \<Rightarrow> bool" where
  "is_char_boundary s k \<longleftrightarrow> k = 0 \<or> k = length s \<or> (k < length s \<and> \<not> (0x80 \<le> s ! k \<and> s ! k \<le> 0xBF))"

definition slice_to :: "nat \<Rightarrow> bytes \<Rightarrow> bytes option" where
  "slice_to k s = (if is_char_boundary s k then Some (take k s) else None)"

section \<open>Words and separators\<close>

text \<open>A string without white space.\<close>
definition solid :: "bytes \<Rightarrow> bool" where
  "solid s \<longleftrightarrow> snd (split_ws s) = None"

lemma white_space_32: "w \<in> set white_space \<Longrightarrow> 32 \<in> set w \<Longrightarrow> w = [32]"
  by (auto simp: white_space_def)

lemma strip_space [simp]: "strip_char white_space (32 # s) = Some s"
  by (simp add: strip_char_def white_space_def)

text \<open>A white-space character does not straddle a blank.\<close>
lemma strip_char_blank:
  assumes "s \<noteq> []" "cs = white_space \<or> cs = map rev white_space" "strip_char cs s = None"
  shows "strip_char cs (s @ 32 # r) = None"
proof -
  have "take (length w) (s @ 32 # r) \<noteq> w" if w: "w \<in> set cs" "w \<noteq> []" for w
  proof
    assume eq: "take (length w) (s @ 32 # r) = w"
    show False
    proof (cases "length w \<le> length s")
      case True
      then show False using eq assms(3) w by (simp add: strip_char_None)
    next
      case False
      then obtain k where "length w - length s = Suc k" by (metis not_le Suc_diff_Suc)
      then have "w = s @ 32 # take k r" using eq False by simp
      then have "32 \<in> set w" by (metis in_set_conv_decomp)
      then have "w = [32]" using w assms(2) white_space_32 [of w] white_space_32 [of "rev w"] by auto
      then show False using False assms(1) by (simp add: not_le)
    qed
  qed
  then show ?thesis by (simp add: strip_char_None)
qed

lemma split_ws_blank:
  assumes "solid w"
  shows "split_ws (w @ 32 # r) = (w, Some r)"
  using assms
proof (induction w)
  case (Cons b w)
  have n: "strip_char white_space (b # w) = None" and s: "solid w"
    using Cons.prems by (auto simp: solid_def split: option.splits)
  have "strip_char white_space ((b # w) @ 32 # r) = None" by (rule strip_char_blank) (simp_all add: n)
  then show ?case using Cons.IH [OF s] by simp
qed simp

lemma split_ws_solid: "solid w \<Longrightarrow> split_ws w = (w, None)"
proof (induction w)
  case (Cons b w)
  then show ?case by (auto simp: solid_def split: option.splits)
qed simp

lemma split_whitespace_blank: "solid w \<Longrightarrow> w \<noteq> [] \<Longrightarrow> split_whitespace (w @ 32 # r) = w # split_whitespace r"
  by (subst split_whitespace.simps) (simp add: split_ws_blank)

lemma split_whitespace_solid: "solid w \<Longrightarrow> w \<noteq> [] \<Longrightarrow> split_whitespace w = [w]"
  by (subst split_whitespace.simps) (simp add: split_ws_solid)

lemma split_space_blank: "32 \<notin> set w \<Longrightarrow> split_space (w @ 32 # r) = (w, Some r)"
  by (induction w) auto

lemma split_space_none: "32 \<notin> set w \<Longrightarrow> split_space w = (w, None)"
  by (induction w) auto

lemma solid_no_blank: "solid w \<Longrightarrow> 32 \<notin> set w"
proof (induction w)
  case (Cons b w)
  then show ?case by (cases "b = 32") (auto simp: solid_def split: option.splits)
qed simp

text \<open>A string that starts and ends with something other than white space.\<close>
definition trimmed :: "bytes \<Rightarrow> bool" where
  "trimmed s \<longleftrightarrow> strip_char white_space s = None \<and> strip_char (map rev white_space) (rev s) = None"

lemma trim_trimmed: "trimmed s \<Longrightarrow> trim s = s"
  by (simp add: trimmed_def trim_def trim_front.simps)

text \<open>A string that ends with something other than white space.\<close>
definition unspaced_end :: "bytes \<Rightarrow> bool" where
  "unspaced_end s \<longleftrightarrow> strip_char (map rev white_space) (rev s) = None"

lemma trimmed_join_end:
  assumes "trimmed a" "unspaced_end b" "a \<noteq> []" "b \<noteq> []"
  shows "trimmed (a @ 32 # b)"
  using assms strip_char_blank [of a white_space b] strip_char_blank [of "rev b" "map rev white_space" "rev a"]
  by (simp add: trimmed_def unspaced_end_def)

lemma trimmed_join:
  assumes "trimmed a" "trimmed b" "a \<noteq> []" "b \<noteq> []"
  shows "trimmed (a @ 32 # b)"
  using assms by (intro trimmed_join_end) (simp_all add: trimmed_def unspaced_end_def)

section \<open>ASCII literals\<close>

lemma byte_of_char: "(of_char c :: byte) = of_char d \<longleftrightarrow> c = d"
proof -
  have n: "unat (of_char c :: byte) = of_char c" for c
  proof -
    have "unat (of_nat (of_char c) :: byte) = of_char c" by (simp only: unat_of_nat) simp
    then show ?thesis by (simp only: of_nat_of_char)
  qed
  show ?thesis by (metis n of_char_eq_iff)
qed

lemma ascii_eq_iff [simp]: "ascii a = ascii b \<longleftrightarrow> a = b"
proof -
  have "inj (of_char :: char \<Rightarrow> byte)" by (rule injI) (simp add: byte_of_char)
  then show ?thesis by (simp add: ascii_def inj_map_eq_map)
qed

lemma ascii_empty [simp]: "ascii a = [] \<longleftrightarrow> a = []"
  by (simp add: ascii_def)

end
