(* ===== verification/Bootstrap.thy ===== *)
theory Bootstrap
  imports Text Store
begin

text \<open>
  \<open>src/src/network/bootstrap.rs\<close> and the seed list of \<open>P2PNode::start\<close>: where the first addresses a
  node dials come from, and which of the five sources can inject one.  Reqwest, hickory-resolver,
  serde_json, hex and the multiaddr and PeerId parsers are the argument \<open>W\<close>.
\<close>

datatype protocol = P2p bytes | OtherProtocol bytes

record bootstrap_entry =
  be_multiaddr :: bytes
  be_regions :: "bytes list"
  be_added_at :: u64

record manifest =
  mf_version :: u32
  mf_issued_at :: u64
  mf_expires_at :: u64
  mf_bootstraps :: "bootstrap_entry list"
  mf_min_client_version :: bytes

text \<open>The environment of the process.  A HTTP answer is whether its status is a success, and its body;
  a DNS answer is the list of its TXT records, each a list of chunks.\<close>
record outside =
  os_http_client :: bool
  os_http_get :: "bytes \<Rightarrow> (bool \<times> bytes) option"
  os_txt_lookup :: "bytes \<Rightarrow> bytes list list option"
  os_parse_manifest :: "bytes \<Rightarrow> manifest option"
  os_parse_addr :: "bytes \<Rightarrow> bytes option"
  os_show_addr :: "bytes \<Rightarrow> bytes"
  os_protocols :: "bytes \<Rightarrow> protocol list"
  os_parse_peer :: "bytes \<Rightarrow> bytes option"
  os_show_peer :: "bytes \<Rightarrow> bytes"
  os_hex_decode :: "bytes \<Rightarrow> bytes option"
  os_hex_encode :: "bytes \<Rightarrow> bytes"
  os_data_dir :: "bytes option"
  os_create_dir :: "bytes \<Rightarrow> bool"
  os_build_swarm :: bool
  os_listen :: "bytes \<Rightarrow> bool"
  os_dial :: "bytes \<Rightarrow> bool"

section \<open>Constants\<close>

definition DEFAULT_BOOTSTRAPS :: "bytes list" where
  "DEFAULT_BOOTSTRAPS = [ascii ''/ip4/45.9.40.37/tcp/4001/p2p/12D3KooWQ643AEmTK2CHDmhLAgXQ1oCZ12pNZHVvGgrrUTEVcPD9'']"

definition MAINTAINER_PUBKEY :: bytes where
  "MAINTAINER_PUBKEY = replicate 32 0"

definition DEFAULT_DNSADDR_DOMAIN :: bytes where
  "DEFAULT_DNSADDR_DOMAIN = ascii ''_dnsaddr.bootstrap.me55.network''"

definition DEFAULT_MANIFEST_URL :: bytes where
  "DEFAULT_MANIFEST_URL = ascii ''https://bootstrap.me55.network/manifest.json''"

definition MAX_MANIFEST_BYTES :: nat where
  "MAX_MANIFEST_BYTES = 64 * 1024"

definition MAX_MANIFEST_AGE_SECS :: int where
  "MAX_MANIFEST_AGE_SECS = 90 * 24 * 3600"

section \<open>Sources\<close>

definition hardcoded_defaults :: "outside \<Rightarrow> bytes list" where
  "hardcoded_defaults W = List.map_filter (os_parse_addr W) DEFAULT_BOOTSTRAPS"

definition strip_prefix :: "bytes \<Rightarrow> bytes \<Rightarrow> bytes option" where
  "strip_prefix p s = (if take (length p) s = p then Some (drop (length p) s) else None)"

text \<open>Each chunk of each record is parsed on its own.\<close>
definition dnsaddr_lookup :: "outside \<Rightarrow> bytes \<Rightarrow> bytes list" where
  "dnsaddr_lookup W domain =
     (case os_txt_lookup W domain of
        None \<Rightarrow> []
      | Some records \<Rightarrow>
          List.map_filter
            (\<lambda>chunk. Option.bind (strip_prefix (ascii ''dnsaddr='') (case from_utf8 chunk of Some s \<Rightarrow> s | None \<Rightarrow> []))
                       (os_parse_addr W))
            (concat records))"

datatype fetch_error =
    PlaceholderKey
  | HttpError
  | HttpStatus
  | BodyTooLarge nat
  | SigWrongLength nat
  | PinnedKeyInvalid
  | SignatureMismatch
  | JsonInvalid
  | Expired
  | IssuedTooLongAgo

text \<open>The timestamps are \<open>i64\<close>; \<open>now - issued_at\<close> wraps in a release build.\<close>
definition check_manifest :: "u64 \<Rightarrow> manifest \<Rightarrow> fetch_error option" where
  "check_manifest now m =
     (if sint (mf_expires_at m) < sint now then Some Expired
      else if sint (now - mf_issued_at m) > MAX_MANIFEST_AGE_SECS then Some IssuedTooLongAgo
      else None)"

definition fetch_signed_manifest :: "prims \<Rightarrow> outside \<Rightarrow> u64 \<Rightarrow> bytes \<Rightarrow> bytes \<Rightarrow> fetch_error + manifest" where
  "fetch_signed_manifest P W now url pinned =
     (if pinned = replicate 32 0 then Inl PlaceholderKey
      else if \<not> os_http_client W then Inl HttpError
      else case os_http_get W url of
        None \<Rightarrow> Inl HttpError
      | Some (ok, body) \<Rightarrow>
          if \<not> ok then Inl HttpStatus
          else if length body > MAX_MANIFEST_BYTES then Inl (BodyTooLarge (length body))
          else case os_http_get W (url @ ascii ''.sig'') of
            None \<Rightarrow> Inl HttpError
          | Some (sig_ok, sig) \<Rightarrow>
              if \<not> sig_ok then Inl HttpStatus
              else if length sig \<noteq> 64 then Inl (SigWrongLength (length sig))
              else if \<not> ed_key_ok P pinned then Inl PinnedKeyInvalid
              else if \<not> ed_verify P pinned body sig then Inl SignatureMismatch
              else case os_parse_manifest W body of
                None \<Rightarrow> Inl JsonInvalid
              | Some m \<Rightarrow> (case check_manifest now m of Some e \<Rightarrow> Inl e | None \<Rightarrow> Inr m))"

section \<open>The seed list\<close>

text \<open>The set \<open>seen\<close> always holds the elements of \<open>seeds\<close>.\<close>
definition push_seed :: "bytes \<Rightarrow> bytes list \<Rightarrow> bytes list" where
  "push_seed s seeds = (if s \<in> set seeds then seeds else seeds @ [s])"

definition default_seeds :: "prims \<Rightarrow> outside \<Rightarrow> u64 \<Rightarrow> bytes list \<Rightarrow> bytes list" where
  "default_seeds P W now seeds =
     (let seeds = (case fetch_signed_manifest P W now DEFAULT_MANIFEST_URL MAINTAINER_PUBKEY of
                     Inr m \<Rightarrow> fold push_seed (map be_multiaddr (mf_bootstraps m)) seeds
                   | Inl _ \<Rightarrow> seeds);
          seeds = fold push_seed (map (os_show_addr W) (hardcoded_defaults W)) seeds
      in if seeds = []
         then fold push_seed (map (os_show_addr W) (dnsaddr_lookup W DEFAULT_DNSADDR_DOMAIN)) seeds
         else seeds)"

definition seed_list :: "prims \<Rightarrow> outside \<Rightarrow> u64 \<Rightarrow> bytes list \<Rightarrow> bool \<Rightarrow> store \<Rightarrow> bytes list" where
  "seed_list P W now bootstrap_nodes use_defaults s =
     (let seeds = fold push_seed bootstrap_nodes [];
          seeds = fold push_seed (map snd (peer_cache_recent_good s 50)) seeds
      in if use_defaults then default_seeds P W now seeds else seeds)"

datatype addr_error = InvalidMultiaddr | MissingPeerId

fun first_p2p :: "protocol list \<Rightarrow> bytes option" where
  "first_p2p [] = None"
| "first_p2p (P2p peer # ps) = Some peer"
| "first_p2p (OtherProtocol p # ps) = first_p2p ps"

definition parse_bootstrap_addr :: "outside \<Rightarrow> bytes \<Rightarrow> addr_error + bytes \<times> bytes" where
  "parse_bootstrap_addr W s =
     (case os_parse_addr W s of
        None \<Rightarrow> Inl InvalidMultiaddr
      | Some full \<Rightarrow> (case first_p2p (os_protocols W full) of
          None \<Rightarrow> Inl MissingPeerId | Some peer \<Rightarrow> Inr (peer, full)))"

section \<open>Lemmas\<close>

lemma push_seed_simps [simp]:
  "set (push_seed s seeds) = insert s (set seeds)" "distinct (push_seed s seeds) = distinct seeds"
  by (auto simp: push_seed_def)

lemma push_seeds [simp]:
  "set (fold push_seed xs seeds) = set xs \<union> set seeds" "distinct (fold push_seed xs seeds) = distinct seeds"
  by (induction xs arbitrary: seeds) auto

lemma push_seeds_prefix: "\<exists>t. fold push_seed xs seeds = seeds @ t"
proof (induction xs arbitrary: seeds)
  case (Cons x xs)
  show ?case using Cons [of "push_seed x seeds"] by (auto simp: push_seed_def split: if_splits)
qed simp

lemma push_seeds_nothing: "set xs \<subseteq> set seeds \<Longrightarrow> fold push_seed xs seeds = seeds"
  by (induction xs) (auto simp: push_seed_def)

text \<open>What a manifest that is accepted went through.\<close>
lemma fetch_accepts:
  assumes "fetch_signed_manifest P W now url pinned = Inr m"
  obtains body sig where "pinned \<noteq> replicate 32 0" "os_http_get W url = Some (True, body)"
    "length body \<le> MAX_MANIFEST_BYTES" "os_http_get W (url @ ascii ''.sig'') = Some (True, sig)"
    "length sig = 64" "ed_verify P pinned body sig" "os_parse_manifest W body = Some m" "check_manifest now m = None"
  using assms by (auto simp: fetch_signed_manifest_def split: if_splits option.splits prod.splits)

lemma sint_diff:
  fixes a b :: u64
  assumes "0 \<le> sint a" "0 \<le> sint b"
  shows "sint (a - b) = sint a - sint b"
proof -
  have "- (2 ^ 63) \<le> sint a - sint b \<and> sint a - sint b < 2 ^ 63"
    using assms sint_range_size [of a] sint_range_size [of b] by (simp add: word_size)
  then show ?thesis by (simp add: sint_word_ariths signed_take_bit_int_eq_self)
qed

section \<open>Properties\<close>

text \<open>C30: A manifest is used only when its bytes carry a signature of the pinned key, which is not the
  placeholder, and when it has neither expired nor, with sane timestamps, been issued more than
  \<open>MAX_MANIFEST_AGE_SECS\<close> ago, the constant of the code: 90 days, where the comment on \<open>issued_at\<close> and the roadmap say
  about 30.\<close>
theorem manifest_authentic:
  assumes "fetch_signed_manifest P W now url pinned = Inr m"
  shows "pinned \<noteq> replicate 32 0
    \<and> (\<exists>body sig. os_http_get W url = Some (True, body) \<and> length body \<le> MAX_MANIFEST_BYTES
         \<and> ed_verify P pinned body sig \<and> os_parse_manifest W body = Some m)
    \<and> sint now \<le> sint (mf_expires_at m)
    \<and> (0 \<le> sint (mf_issued_at m) \<and> 0 \<le> sint now \<longrightarrow> sint now - sint (mf_issued_at m) \<le> MAX_MANIFEST_AGE_SECS)"
proof -
  obtain body sig where f: "pinned \<noteq> replicate 32 0" "os_http_get W url = Some (True, body)"
    "length body \<le> MAX_MANIFEST_BYTES" "ed_verify P pinned body sig" "os_parse_manifest W body = Some m"
    "check_manifest now m = None" using fetch_accepts [OF assms] by blast
  then show ?thesis using sint_diff [of now "mf_issued_at m"] by (auto simp: check_manifest_def split: if_splits)
qed

definition toy_manifest :: manifest where
  "toy_manifest = \<lparr> mf_version = 1, mf_issued_at = 1000, mf_expires_at = 9000,
     mf_bootstraps = [\<lparr> be_multiaddr = [1], be_regions = [], be_added_at = 0 \<rparr>], mf_min_client_version = [] \<rparr>"

text \<open>A world whose addresses are their own text, and whose manifest host serves \<open>toy_manifest\<close>.\<close>
definition toy_outside :: outside where
  "toy_outside = \<lparr> os_http_client = True,
     os_http_get = (\<lambda>url. Some (True, if url = [7] then [5] else toy_sign (replicate 32 2) [5])),
     os_txt_lookup = (\<lambda>_. None), os_parse_manifest = (\<lambda>_. Some toy_manifest), os_parse_addr = Some,
     os_show_addr = (\<lambda>a. a), os_protocols = (\<lambda>a. [OtherProtocol [4], P2p a]), os_parse_peer = Some, os_show_peer = (\<lambda>p. p),
     os_hex_decode = (\<lambda>s. Some (butlast (tl s))), os_hex_encode = (\<lambda>b. 1 # b @ [1]), os_data_dir = None, os_create_dir = (\<lambda>_. True), os_build_swarm = True,
     os_listen = (\<lambda>_. True), os_dial = (\<lambda>_. True) \<rparr>"

theorem manifest_authentic_witness:
  "fetch_signed_manifest toy_prims toy_outside 2000 [7] (replicate 32 2) = Inr toy_manifest
   \<and> ed_verify toy_prims (replicate 32 2) [5] (toy_sign (replicate 32 2) [5])"
proof -
  have "fetch_signed_manifest toy_prims toy_outside 2000 [7] (replicate 32 2) = Inr toy_manifest"
    by (simp add: fetch_signed_manifest_def toy_outside_def toy_prims_def toy_manifest_def check_manifest_def
        MAX_MANIFEST_AGE_SECS_def MAX_MANIFEST_BYTES_def length_toy_sign ascii_def)
  with manifest_authentic [OF this] show ?thesis by (simp add: toy_prims_def)
qed

text \<open>C31: As shipped, with the placeholder key and a hardcoded address that parses, the seed list is the
  command line's addresses, the peer cache and the hardcoded address, in this order and without
  duplicates: no answer of the manifest host or of DNS reaches it.\<close>
theorem shipped_seeds:
  assumes "map (os_parse_addr W) DEFAULT_BOOTSTRAPS = [Some a]"
  shows "seed_list P W now nodes True s
      = fold push_seed (nodes @ map snd (peer_cache_recent_good s 50) @ [os_show_addr W a]) []
    \<and> distinct (seed_list P W now nodes True s)"
proof -
  have h: "hardcoded_defaults W = [a]" using assms by (simp add: hardcoded_defaults_def DEFAULT_BOOTSTRAPS_def map_filter_simps)
  have f: "fetch_signed_manifest P W now DEFAULT_MANIFEST_URL MAINTAINER_PUBKEY = Inl PlaceholderKey"
    by (simp add: fetch_signed_manifest_def MAINTAINER_PUBKEY_def)
  have "push_seed x seeds \<noteq> []" for x seeds by (auto simp: push_seed_def)
  then show ?thesis by (simp add: seed_list_def default_seeds_def h f Let_def)
qed

theorem shipped_seeds_witness:
  "seed_list toy_prims toy_outside 2000 [[1], [2], [1]] True (empty_store []) = [[1], [2], hd DEFAULT_BOOTSTRAPS]"
  using shipped_seeds [of toy_outside "hd DEFAULT_BOOTSTRAPS" toy_prims 2000 "[[1], [2], [1]]" "empty_store []"]
  by (simp add: toy_outside_def DEFAULT_BOOTSTRAPS_def push_seed_def peer_cache_recent_good_def empty_store_def ascii_def)

end
