(* ===== verification/Startup.thy ===== *)
theory Startup
  imports Bootstrap NodeKeys Scramble
begin

text \<open>
  From the command line to a running node: \<open>src/src/core/config.rs\<close>, the arguments of \<open>src/src/cli.rs\<close>,
  \<open>src/src/crypto/keyring.rs\<close>, the migrations of \<open>MessageStore::open\<close>, \<open>P2PNode::new\<close> and \<open>start\<close>, and
  \<open>run\<close> of \<open>src/src/entry.rs\<close> up to the event loop.  What survives the process is \<open>disk\<close>: the identity
  file, the database and the OS keyring.
\<close>

section \<open>Configuration\<close>

record config =
  cf_profile :: bytes
  cf_data_dir :: bytes
  cf_listen_port :: u16
  cf_bootstrap_nodes :: "bytes list"
  cf_obfs_key :: "bytes option"
  cf_obfs_jitter_ms :: "u32 option"
  cf_relay_addrs :: "bytes list"
  cf_enable_relay_server :: bool
  cf_use_default_bootstraps :: bool
  cf_deniable_dm :: bool
  cf_disable_mdns :: bool

definition default_config :: config where
  "default_config = \<lparr> cf_profile = ascii ''default'', cf_data_dir = ascii ''./data'', cf_listen_port = 0,
     cf_bootstrap_nodes = [], cf_obfs_key = None, cf_obfs_jitter_ms = None, cf_relay_addrs = [],
     cf_enable_relay_server = False, cf_use_default_bootstraps = True, cf_deniable_dm = False, cf_disable_mdns = False \<rparr>"

definition with_profile :: "bytes \<Rightarrow> config" where
  "with_profile profile = default_config\<lparr> cf_profile := profile \<rparr>"

definition with_data_dir :: "bytes \<Rightarrow> config \<Rightarrow> config" where
  "with_data_dir dir c = c\<lparr> cf_data_dir := dir \<rparr>"

definition with_port :: "u16 \<Rightarrow> config \<Rightarrow> config" where
  "with_port port c = c\<lparr> cf_listen_port := port \<rparr>"

definition with_bootstrap :: "bytes \<Rightarrow> config \<Rightarrow> config" where
  "with_bootstrap n c = c\<lparr> cf_bootstrap_nodes := cf_bootstrap_nodes c @ [n] \<rparr>"

text \<open>\<open>struct Cli\<close>.\<close>
record cli_args =
  ca_profile :: bytes
  ca_port :: u16
  ca_bootstrap :: "bytes list"
  ca_obfs_key :: "bytes option"
  ca_obfs_jitter_ms :: "u32 option"
  ca_gui :: bool
  ca_cli :: bool
  ca_relay :: "bytes list"
  ca_relay_server :: bool
  ca_daemon :: bool
  ca_no_default_bootstrap :: bool
  ca_deniable_dm :: bool
  ca_no_mdns :: bool

definition use_gui :: "bool \<Rightarrow> cli_args \<Rightarrow> bool" where
  "use_gui gui_feature a \<longleftrightarrow> \<not> ca_cli a \<and> \<not> ca_daemon a \<and> (gui_feature \<or> ca_gui a)"

definition config_of :: "cli_args \<Rightarrow> bytes \<Rightarrow> bytes option \<Rightarrow> config" where
  "config_of a dir key = \<lparr> cf_profile = ca_profile a, cf_data_dir = dir, cf_listen_port = ca_port a,
     cf_bootstrap_nodes = ca_bootstrap a, cf_obfs_key = key, cf_obfs_jitter_ms = ca_obfs_jitter_ms a,
     cf_relay_addrs = ca_relay a, cf_enable_relay_server = ca_relay_server a,
     cf_use_default_bootstraps = (\<not> ca_no_default_bootstrap a), cf_deniable_dm = ca_deniable_dm a,
     cf_disable_mdns = ca_no_mdns a \<rparr>"

text \<open>The 32-byte values given in hex: the obfuscation key and group ids.  \<open>Inl n\<close> is the wrong number of bytes.\<close>
datatype hex_error = NotHex | NotThirtyTwo nat

definition parse_hex32 :: "outside \<Rightarrow> bytes \<Rightarrow> hex_error + bytes" where
  "parse_hex32 W s = (case os_hex_decode W (trim s) of
     None \<Rightarrow> Inl NotHex
   | Some bs \<Rightarrow> if length bs \<noteq> 32 then Inl (NotThirtyTwo (length bs)) else Inr bs)"

definition parse_obfs_key :: "outside \<Rightarrow> bytes \<Rightarrow> hex_error + bytes" where
  "parse_obfs_key W s = parse_hex32 W s"

section \<open>The data-encryption key\<close>

text \<open>The OS keyring: whether an entry can be opened, read and written, and the stored passwords per profile.\<close>
record keyring =
  kr_entry :: bool
  kr_readable :: bool
  kr_writable :: bool
  kr_items :: "bytes \<rightharpoonup> bytes"

datatype keyring_error = DekNotHex | DekWrongLength nat | DekNotStored

definition load_or_create_dek :: "outside \<Rightarrow> bytes \<Rightarrow> bytes \<Rightarrow> keyring \<Rightarrow> (keyring_error + bytes) \<times> keyring" where
  "load_or_create_dek W random_dek profile k =
     (if \<not> kr_entry k then (Inr random_dek, k)
      else if \<not> kr_readable k then (Inr random_dek, k)
      else case kr_items k profile of
        Some hex_str \<Rightarrow>
          ((case os_hex_decode W (trim hex_str) of
              None \<Rightarrow> Inl DekNotHex
            | Some bs \<Rightarrow> if length bs \<noteq> 32 then Inl (DekWrongLength (length bs)) else Inr bs), k)
      | None \<Rightarrow>
          (if \<not> kr_writable k then (Inl DekNotStored, k)
           else (Inr random_dek, k\<lparr> kr_items := (kr_items k)(profile \<mapsto> os_hex_encode W random_dek) \<rparr>)))"

section \<open>Opening the database\<close>

text \<open>The database file: \<open>PRAGMA user_version\<close> and the tables (the key of \<open>db_store\<close> is not part of the file).\<close>
record database =
  db_version :: int
  db_store :: store

definition backfill_served :: "otpk_row \<Rightarrow> otpk_row" where
  "backfill_served r = (if ok_consumed r \<noteq> None \<and> ok_served r = None then r\<lparr> ok_served := ok_consumed r \<rparr> else r)"

definition retag :: "prims \<Rightarrow> bytes \<Rightarrow> outbox_row \<Rightarrow> outbox_row" where
  "retag P dek r = r\<lparr> ob_peer_tag := outbox_peer_tag P dek (ob_peer_tag r) \<rparr>"

definition open_store :: "prims \<Rightarrow> bytes \<Rightarrow> database \<Rightarrow> store" where
  "open_store P dek db =
     (let s = (db_store db)\<lparr> st_dek := dek \<rparr>;
          s = s\<lparr> st_otpks := map backfill_served (st_otpks s) \<rparr>
      in if db_version db < 1 then s\<lparr> st_outbox := map (retag P dek) (st_outbox s) \<rparr> else s)"

text \<open>The file that an open store leaves behind.\<close>
definition close_store :: "store \<Rightarrow> database" where
  "close_store s = \<lparr> db_version = 1, db_store = s \<rparr>"

section \<open>Starting the node\<close>

datatype swarm_act = ListenOn bytes | AddAddress bytes bytes | DialAddr bytes

datatype start_error = SwarmBuild | ListenAddrPanic | ListenFailed

definition seed_acts :: "outside \<Rightarrow> bytes \<Rightarrow> swarm_act list" where
  "seed_acts W s = (case parse_bootstrap_addr W s of
     Inr (peer, addr) \<Rightarrow> [AddAddress peer addr, DialAddr addr] | Inl _ \<Rightarrow> [])"

definition relay_acts :: "outside \<Rightarrow> bytes \<Rightarrow> swarm_act list" where
  "relay_acts W s = (case parse_bootstrap_addr W s of
     Inr (peer, addr) \<Rightarrow>
       DialAddr addr #
       (if \<not> os_dial W addr then []
        else case os_parse_addr W (os_show_addr W addr @ ascii ''/p2p-circuit'') of
          None \<Rightarrow> [] | Some circuit \<Rightarrow> [ListenOn circuit])
   | Inl _ \<Rightarrow> [])"

definition start_node :: "env \<Rightarrow> outside \<Rightarrow> config \<Rightarrow> node \<Rightarrow> (start_error + swarm_act list) \<times> node" where
  "start_node E W cfg n =
     (if \<not> os_build_swarm W then (Inl SwarmBuild, n)
      else case os_parse_addr W (ascii ''/ip4/0.0.0.0/tcp/'' @ decimal (unat (cf_listen_port cfg))) of
        None \<Rightarrow> (Inl ListenAddrPanic, n)
      | Some listen_addr \<Rightarrow>
          if \<not> os_listen W listen_addr then (Inl ListenFailed, n)
          else let seeds = seed_list (en_prims E) W (word_of_int (nd_clock n)) (cf_bootstrap_nodes cfg)
                     (cf_use_default_bootstraps cfg) (nd_store n)
               in (Inr (ListenOn listen_addr # concat (map (seed_acts W) seeds) @ concat (map (relay_acts W) (cf_relay_addrs cfg))),
                   replenish_otpk_pool E n))"

text \<open>The upgrade of a TCP connection: scrambled with the configured key, or left as it is.\<close>
definition upgrade_stream ::
  "prims \<Rightarrow> elligator \<Rightarrow> (nat \<Rightarrow> bytes \<times> byte) \<Rightarrow> config \<Rightarrow> bool \<Rightarrow> (bytes \<Rightarrow> io_error + unit) \<Rightarrow> io_error + bytes
     \<Rightarrow> io_error + maybe_scrambled" where
  "upgrade_stream P L draws cfg is_dialer sent received =
     (case cf_obfs_key cfg of
        Some k \<Rightarrow> map_sum id Scrambled
          (fst (scramble_handshake P L draws k is_dialer (map_option unat (cf_obfs_jitter_ms cfg)) sent received))
      | None \<Rightarrow> Inr Plain)"

section \<open>The process\<close>

text \<open>\<open>PathBuf::join\<close>: an absolute path replaces the base.\<close>
definition path_join :: "bytes \<Rightarrow> bytes \<Rightarrow> bytes" where
  "path_join base p =
     (if p \<noteq> [] \<and> hd p = 47 then p
      else if base = [] \<or> List.last base = 47 then base @ p
      else base @ 47 # p)"

definition get_profile_dir :: "outside \<Rightarrow> bytes \<Rightarrow> bytes option" where
  "get_profile_dir W profile =
     (let base = path_join (case os_data_dir W of Some d \<Rightarrow> d | None \<Rightarrow> ascii ''.'') (ascii ''ME55'');
          dir = path_join base profile
      in if os_create_dir W dir then Some dir else None)"

datatype 'a stored = Missing | Corrupt | Present 'a

record disk =
  dk_identity :: "identity_file stored"
  dk_database :: database
  dk_keyring :: keyring

text \<open>What \<open>OsRng\<close> gives a starting process: the three draws of \<open>load_or_create\<close> and the key.\<close>
record boot_draws =
  bd_sign :: bytes
  bd_x25519 :: bytes
  bd_kem :: bytes
  bd_dek :: bytes

datatype boot_error = ProfileDir | IdentityUnreadable | KeyringError keyring_error | ObfsKeyInvalid hex_error | StartError start_error

definition parse_obfs_arg :: "outside \<Rightarrow> bytes option \<Rightarrow> hex_error + bytes option" where
  "parse_obfs_arg W a = (case a of None \<Rightarrow> Inr None | Some s \<Rightarrow> map_sum id Some (parse_obfs_key W s))"

text \<open>\<open>run\<close> up to the configuration: profile directory, identity, data-encryption key, obfuscation key.\<close>
definition boot_keys ::
  "prims \<Rightarrow> outside \<Rightarrow> cli_args \<Rightarrow> boot_draws \<Rightarrow> disk \<Rightarrow> (boot_error + bytes \<times> identity \<times> bytes \<times> bytes option) \<times> disk" where
  "boot_keys P W a r d =
     (case get_profile_dir W (ca_profile a) of
        None \<Rightarrow> (Inl ProfileDir, d)
      | Some dir \<Rightarrow>
          if dk_identity d = Corrupt then (Inl IdentityUnreadable, d)
          else (case load_or_create P (bd_sign r) (bd_x25519 r) (bd_kem r)
                       (case dk_identity d of Present f \<Rightarrow> Some f | _ \<Rightarrow> None) of (i, file') \<Rightarrow>
            (case load_or_create_dek W (bd_dek r) (ca_profile a) (dk_keyring d) of (dek, ring) \<Rightarrow>
               (case dek of
                  Inl e \<Rightarrow> Inl (KeyringError e)
                | Inr dek \<Rightarrow> (case parse_obfs_arg W (ca_obfs_key a) of
                    Inl e \<Rightarrow> Inl (ObfsKeyInvalid e) | Inr key \<Rightarrow> Inr (dir, i, dek, key)),
                d\<lparr> dk_identity := Present file', dk_keyring := ring \<rparr>))))"

text \<open>The rest of \<open>run\<close> up to the event loop, at time \<open>clock\<close>; \<open>k\<close> numbers the node's first draw.  The
  new disk is what is left behind when the process stops here.\<close>
definition boot_node ::
  "env \<Rightarrow> outside \<Rightarrow> cli_args \<Rightarrow> int \<Rightarrow> nat \<Rightarrow> bytes \<times> identity \<times> bytes \<times> bytes option \<Rightarrow> disk
     \<Rightarrow> (boot_error + swarm_act list \<times> node) \<times> disk" where
  "boot_node E W a clock k keys d =
     (case keys of (dir, i, dek, key) \<Rightarrow>
      case start_node E W (config_of a dir key)
             ((new_node i (ca_deniable_dm a) (open_store (en_prims E) dek (dk_database d)) clock)\<lparr> nd_draws := k \<rparr>) of
        (acts, n) \<Rightarrow> (case acts of Inl e \<Rightarrow> Inl (StartError e) | Inr acts \<Rightarrow> Inr (acts, n),
                      d\<lparr> dk_database := close_store (nd_store n) \<rparr>))"

definition boot ::
  "env \<Rightarrow> outside \<Rightarrow> cli_args \<Rightarrow> boot_draws \<Rightarrow> int \<Rightarrow> nat \<Rightarrow> disk \<Rightarrow> (boot_error + swarm_act list \<times> node) \<times> disk" where
  "boot E W a r clock k d =
     (case boot_keys (en_prims E) W a r d of
        (Inl e, d) \<Rightarrow> (Inl e, d)
      | (Inr keys, d) \<Rightarrow> boot_node E W a clock k keys d)"

end
