(* ===== verification/StartupProps.thy ===== *)
theory StartupProps
  imports Startup StoreProps ToyCodec
begin

text \<open>
  What survives the process.  A node stopped at any point and started again with its disk is the node that
  \<open>restart\<close> describes, provided the OS keyring answers; the one-time migration of the outbox keeps
  every queued message addressed to its peer, unless it is interrupted.
\<close>

section \<open>The key survives in the keyring\<close>

definition hex_correct :: "outside \<Rightarrow> bool" where
  "hex_correct W \<longleftrightarrow> (\<forall>b. length b = 32 \<longrightarrow> os_hex_decode W (trim (os_hex_encode W b)) = Some b)"

lemma dek_stable:
  assumes "load_or_create_dek W fresh profile k = (Inr dek, k')" "kr_entry k" "kr_readable k"
    and "hex_correct W" "length fresh = 32"
  shows "load_or_create_dek W fresh' profile k' = (Inr dek, k')"
  using assms by (auto simp: load_or_create_dek_def hex_correct_def split: option.splits if_splits)

section \<open>Restarts\<close>

definition migrated :: "node \<Rightarrow> node" where
  "migrated n = n\<lparr> nd_store := (nd_store n)\<lparr> st_otpks := map backfill_served (st_otpks (nd_store n)) \<rparr> \<rparr>"

lemma reopen:
  "st_dek s = dek \<Longrightarrow> open_store P dek (close_store s) = s\<lparr> st_otpks := map backfill_served (st_otpks s) \<rparr>"
  by (cases s) (simp add: open_store_def close_store_def Let_def)

lemma start_ok:
  assumes "start_node E W cfg n = (Inr acts, n')"
  shows "n' = replenish_otpk_pool E n" "\<exists>acts'. start_node E W cfg m = (Inr acts', replenish_otpk_pool E m)"
  using assms by (auto simp: start_node_def Let_def split: if_splits option.splits)

text \<open>The keys of a boot are found again by the next one.\<close>
lemma keys_stable:
  assumes "boot_keys P W a r d = (Inr keys, d')" "ed_correct P" "kem_sized P" "hex_correct W"
    and "kr_entry (dk_keyring d)" "kr_readable (dk_keyring d)" "length (bd_dek r) = 32"
  shows "boot_keys P W a r' (d'\<lparr> dk_database := db \<rparr>) = (Inr keys, d'\<lparr> dk_database := db \<rparr>)"
proof -
  let ?f = "case dk_identity d of Present f \<Rightarrow> Some f | _ \<Rightarrow> None"
  obtain dir where dir: "get_profile_dir W (ca_profile a) = Some dir" and c: "dk_identity d \<noteq> Corrupt"
    using assms(1) by (auto simp: boot_keys_def split: option.splits if_splits)
  obtain i file' where l: "load_or_create P (bd_sign r) (bd_x25519 r) (bd_kem r) ?f = (i, file')" by fastforce
  obtain dek ring where k: "load_or_create_dek W (bd_dek r) (ca_profile a) (dk_keyring d) = (dek, ring)" by fastforce
  have d': "d' = d\<lparr> dk_identity := Present file', dk_keyring := ring \<rparr>"
    using assms(1) c by (simp add: boot_keys_def dir l k)
  show ?thesis
  proof (cases dek)
    case (Inr x)
    have "load_or_create_dek W (bd_dek r') (ca_profile a) ring = (Inr x, ring)"
      using dek_stable [of W "bd_dek r"] k assms(4-7) Inr by blast
    moreover have "load_or_create P (bd_sign r') (bd_x25519 r') (bd_kem r') (Some file') = (i, file')"
      by (rule load_or_create_stable [OF assms(2,3) l])
    ultimately show ?thesis using assms(1) c Inr by (simp add: boot_keys_def d' dir l k)
  qed (use assms(1) c in \<open>simp add: boot_keys_def dir l k\<close>)
qed

lemma settings_started:
  assumes "start_node E W cfg ((new_node i dn (open_store P dek db) t)\<lparr> nd_draws := k \<rparr>) = (Inr acts, n)"
  shows "settings n = (i, dn, dek)"
  using start_ok(1) [OF assms] by simp (simp add: settings_def new_node_def open_store_def Let_def)

text \<open>C7: Stopping a node after any run and booting it again from its disk gives the node that
  \<open>restart\<close> describes: the same identity, data-encryption key and tables, the memory gone, the pool of
  one-time prekeys refilled.\<close>
theorem reboot_is_restart:
  assumes "ed_correct (en_prims E)" "kem_sized (en_prims E)" "hex_correct W"
    and "kr_entry (dk_keyring d)" "kr_readable (dk_keyring d)" "length (bd_dek r) = 32"
    and up: "boot E W a r t k d = (Inr (acts, n0), d1)" and run: "n = node_run E evs n0"
  shows "\<exists>acts' d2. boot E W a r' (nd_clock n) (nd_draws n) (d1\<lparr> dk_database := close_store (nd_store n) \<rparr>)
     = (Inr (acts', replenish_otpk_pool E (migrated (restart n))), d2)"
proof -
  obtain keys d0 where k: "boot_keys (en_prims E) W a r d = (Inr keys, d0)"
    using up by (auto simp: boot_def split: prod.splits sum.splits)
  obtain dir i dek key where keys: "keys = (dir, i, dek, key)" by (cases keys)
  have st: "start_node E W (config_of a dir key)
      ((new_node i (ca_deniable_dm a) (open_store (en_prims E) dek (dk_database d0)) t)\<lparr> nd_draws := k \<rparr>) = (Inr acts, n0)"
    and d1: "d1 = d0\<lparr> dk_database := close_store (nd_store n0) \<rparr>"
    using up by (auto simp: boot_def k keys boot_node_def split: prod.splits sum.splits)
  have s: "settings n = (i, ca_deniable_dm a, dek)" unfolding run by (rule fixed.run [OF settings_started [OF st]])
  have "(new_node i (ca_deniable_dm a) (open_store (en_prims E) dek (close_store (nd_store n))) (nd_clock n))\<lparr> nd_draws := nd_draws n \<rparr>
      = migrated (restart n)"
    using s by (simp add: settings_def reopen migrated_def restart_def new_node_def)
  moreover have "boot_keys (en_prims E) W a r' (d1\<lparr> dk_database := close_store (nd_store n) \<rparr>)
      = (Inr keys, d1\<lparr> dk_database := close_store (nd_store n) \<rparr>)"
    using keys_stable [OF k assms(1-6)] by (simp add: d1)
  moreover obtain acts' where "start_node E W (config_of a dir key) (migrated (restart n))
      = (Inr acts', replenish_otpk_pool E (migrated (restart n)))"
    using start_ok(2) [OF st] by blast
  ultimately show ?thesis by (simp add: boot_def boot_node_def keys)
qed

text \<open>A first start on an empty disk, with keys of the right sizes.\<close>
definition toy_kem_prims :: prims where
  "toy_kem_prims = toy_prims\<lparr> kem_gen := \<lambda>_. replicate ML_KEM_DK_LEN 0, kem_ek := \<lambda>_. replicate ML_KEM_EK_LEN 1 \<rparr>"

definition toy_kem_env :: env where
  "toy_kem_env = (toy_env 1)\<lparr> en_prims := toy_kem_prims \<rparr>"

lemma toy_kem_env_prims: "en_prims toy_kem_env = toy_kem_prims" by (simp add: toy_kem_env_def)

definition toy_args :: cli_args where
  "toy_args = \<lparr> ca_profile = [97], ca_port = 0, ca_bootstrap = [[1]], ca_obfs_key = None, ca_obfs_jitter_ms = None,
     ca_gui = False, ca_cli = True, ca_relay = [[2]], ca_relay_server = False, ca_daemon = False,
     ca_no_default_bootstrap = False, ca_deniable_dm = False, ca_no_mdns = False \<rparr>"

definition toy_draws :: boot_draws where
  "toy_draws = \<lparr> bd_sign = [1], bd_x25519 = [2], bd_kem = [3], bd_dek = replicate 32 4 \<rparr>"

definition toy_disk :: disk where
  "toy_disk = \<lparr> dk_identity = Missing, dk_database = \<lparr> db_version = 0, db_store = empty_store [] \<rparr>,
     dk_keyring = \<lparr> kr_entry = True, kr_readable = True, kr_writable = True, kr_items = Map.empty \<rparr> \<rparr>"

lemma toy_kem_laws: "ed_correct (en_prims toy_kem_env)" "kem_sized (en_prims toy_kem_env)"
proof -
  have "ed_correct (P\<lparr> kem_gen := g, kem_ek := e \<rparr>) = ed_correct P" for P g e
    unfolding ed_correct_def by (cases P) (simp only: prims.select_convs prims.update_convs)
  moreover have "kem_sized (P\<lparr> kem_gen := \<lambda>_. replicate ML_KEM_DK_LEN 0, kem_ek := \<lambda>_. replicate ML_KEM_EK_LEN 1 \<rparr>)" for P :: prims
    by (simp add: kem_sized_def)
  ultimately show "ed_correct (en_prims toy_kem_env)" "kem_sized (en_prims toy_kem_env)"
    using toy_laws(4) by (simp_all only: toy_kem_env_prims toy_kem_prims_def)
qed

lemma toy_boots: "\<exists>acts n d. boot toy_kem_env toy_outside toy_args toy_draws 100 0 toy_disk = (Inr (acts, n), d)"
  by (simp add: boot_def boot_keys_def boot_node_def start_node_def toy_disk_def toy_args_def toy_outside_def
      get_profile_dir_def load_or_create_dek_def parse_obfs_arg_def Let_def case_prod_unfold)

lemma toy_hex: "hex_correct toy_outside"
proof -
  have "trim (1 # b @ [1]) = 1 # b @ [1]" for b
    by (rule trim_trimmed) (simp add: trimmed_def strip_char_def white_space_def)
  then show ?thesis by (simp add: hex_correct_def toy_outside_def)
qed

theorem reboot_is_restart_witness:
  "\<exists>acts n0 d1. boot toy_kem_env toy_outside toy_args toy_draws 100 0 toy_disk = (Inr (acts, n0), d1)
     \<and> (\<exists>acts' d2. let n = node_run toy_kem_env [Command (FetchPrekey [5]), ClockSet 200] n0 in
          boot toy_kem_env toy_outside toy_args toy_draws (nd_clock n) (nd_draws n) (d1\<lparr> dk_database := close_store (nd_store n) \<rparr>)
            = (Inr (acts', replenish_otpk_pool toy_kem_env (migrated (restart n))), d2))"
proof -
  obtain acts n0 d1 where up: "boot toy_kem_env toy_outside toy_args toy_draws 100 0 toy_disk = (Inr (acts, n0), d1)"
    using toy_boots by blast
  have ring: "kr_entry (dk_keyring toy_disk)" "kr_readable (dk_keyring toy_disk)" "length (bd_dek toy_draws) = 32"
    by (simp_all add: toy_disk_def toy_draws_def)
  note again = reboot_is_restart [OF toy_kem_laws toy_hex ring up refl, of toy_draws "[Command (FetchPrekey [5]), ClockSet 200]"]
  show ?thesis unfolding Let_def by (rule exI [of _ acts], rule exI [of _ n0], rule exI [of _ d1], rule conjI [OF up again])
qed

section \<open>The outbox migration\<close>

text \<open>A version 0 database names the recipient of a queued message by its PeerId.\<close>
definition legacy_outbox_for :: "prims \<Rightarrow> bytes \<Rightarrow> database \<Rightarrow> bytes \<Rightarrow> (int \<times> bytes \<times> bool) list" where
  "legacy_outbox_for P dek db peer =
     List.map_filter (\<lambda>r. case decrypt_at_rest P ((db_store db)\<lparr> st_dek := dek \<rparr>) (ob_ciphertext r) of
                            Inl _ \<Rightarrow> None | Inr content \<Rightarrow> Some (ob_id r, content, ob_is_wire r))
       (sort_key ob_id (filter (\<lambda>r. ob_peer_tag r = peer) (st_outbox (db_store db))))"

text \<open>The file after a process died having updated the first \<open>j\<close> rows: every \<open>UPDATE\<close> commits on its own, and
  the version is written last.\<close>
definition interrupted_migration :: "prims \<Rightarrow> bytes \<Rightarrow> nat \<Rightarrow> database \<Rightarrow> database" where
  "interrupted_migration P dek j db =
     (let rows = st_outbox (db_store db) in
      db\<lparr> db_store := (db_store db)\<lparr> st_outbox := map (retag P dek) (take j rows) @ drop j rows \<rparr> \<rparr>)"

lemma retag_fields [simp]:
  "ob_id (retag P dek r) = ob_id r" "ob_ciphertext (retag P dek r) = ob_ciphertext r" "ob_is_wire (retag P dek r) = ob_is_wire r"
  "ob_peer_tag (retag P dek r) = outbox_peer_tag P dek (ob_peer_tag r)"
  by (simp_all add: retag_def)

lemma open_store_simps [simp]:
  "st_dek (open_store P dek db) = dek"
  "db_version db < 1 \<Longrightarrow> st_outbox (open_store P dek db) = map (retag P dek) (st_outbox (db_store db))"
  by (simp_all add: open_store_def Let_def)

lemma sort_key_map: "sort_key f (map g xs) = map g (sort_key (f \<circ> g) xs)"
proof -
  have "insort_key f (g x) (map g ys) = map g (insort_key (f \<circ> g) x ys)" for x ys by (induction ys) auto
  then show ?thesis by (induction xs) simp_all
qed

lemma map_filter_map: "List.map_filter f (map g xs) = List.map_filter (f \<circ> g) xs"
  by (induction xs) (simp_all add: map_filter_simps split: option.split)

text \<open>C26: Opening a version 0 database for the first time keeps every queued message for its peer: the
  outbox then answers, for each peer, exactly what the old rows of that peer held.\<close>
theorem outbox_migration:
  assumes "db_version db < 1" "inj_on (outbox_peer_tag P dek) peers"
    and "ob_peer_tag ` set (st_outbox (db_store db)) \<subseteq> peers" "peer \<in> peers"
  shows "outbox_get_for P (open_store P dek db) peer = legacy_outbox_for P dek db peer"
proof -
  have f: "filter (\<lambda>r. ob_peer_tag r = outbox_peer_tag P dek peer) (map (retag P dek) (st_outbox (db_store db)))
      = map (retag P dek) (filter (\<lambda>r. ob_peer_tag r = peer) (st_outbox (db_store db)))"
    using assms(2-4) by (auto simp: filter_map intro!: arg_cong [of _ _ "map _"] filter_cong)
      (metis (no_types, lifting) image_subset_iff inj_onD)
  have d: "decrypt_at_rest P (open_store P dek db) = decrypt_at_rest P ((db_store db)\<lparr> st_dek := dek \<rparr>)"
    by (rule decrypt_at_rest_dek) simp
  show ?thesis using assms(1)
    by (simp add: outbox_get_for_def legacy_outbox_for_def f d sort_key_map map_filter_map comp_def cong: sum.case_cong)
qed

text \<open>C39: A migration interrupted after some rows strands them: the next start tags them a second time,
  and the tag of a tag is no longer looked up for the peer.\<close>
theorem interrupted_migration_strands:
  assumes "db_version db < 1" "i < j" "i < length (st_outbox (db_store db))"
    and "ob_peer_tag (st_outbox (db_store db) ! i) = peer"
    and "outbox_peer_tag P dek (outbox_peer_tag P dek peer) \<noteq> outbox_peer_tag P dek peer"
  shows "ob_peer_tag (st_outbox (open_store P dek (interrupted_migration P dek j db)) ! i) \<noteq> outbox_peer_tag P dek peer"
proof -
  have "db_version (interrupted_migration P dek j db) < 1"
    "st_outbox (db_store (interrupted_migration P dek j db))
       = map (retag P dek) (take j (st_outbox (db_store db))) @ drop j (st_outbox (db_store db))"
    using assms(1) by (simp_all add: interrupted_migration_def Let_def)
  then show ?thesis using assms(2-5) by (simp add: nth_append)
qed

definition toy_legacy_row :: outbox_row where
  "toy_legacy_row = \<lparr> ob_id = 1, ob_peer_tag = [66], ob_ciphertext = [1, 0], ob_created = 0, ob_ttl = 9, ob_is_wire = False \<rparr>"

definition toy_legacy :: database where
  "toy_legacy = \<lparr> db_version = 0, db_store = (empty_store [])\<lparr> st_outbox := [toy_legacy_row] \<rparr> \<rparr>"

theorem outbox_migration_witness:
  "outbox_get_for toy_prims (open_store toy_prims [7] toy_legacy) [66] = legacy_outbox_for toy_prims [7] toy_legacy [66]"
  using outbox_migration [of toy_legacy toy_prims "[7]" "{[66]}" "[66]"] by (simp add: toy_legacy_def toy_legacy_row_def)

text \<open>With an HMAC that shows its input, the stranded row.\<close>
theorem interrupted_migration_strands_witness:
  "ob_peer_tag (st_outbox (open_store (toy_prims\<lparr> hmac_sha256 := \<lambda>k m. 9 # m \<rparr>) [7]
      (interrupted_migration (toy_prims\<lparr> hmac_sha256 := \<lambda>k m. 9 # m \<rparr>) [7] 1 toy_legacy)) ! 0)
    \<noteq> outbox_peer_tag (toy_prims\<lparr> hmac_sha256 := \<lambda>k m. 9 # m \<rparr>) [7] [66]"
  by (rule interrupted_migration_strands)
    (simp_all add: toy_legacy_def toy_legacy_row_def outbox_peer_tag_def OUTBOX_PEER_DOMAIN_def ascii_def)

end
