(* ===== verification/Repl.thy ===== *)
theory Repl
  imports Startup
begin

text \<open>
  The terminal surface: \<open>run_cli_with_handlers\<close> of \<open>src/src/cli.rs\<close> and the handlers that
  \<open>src/src/entry.rs\<close> gives it.  A line becomes at most one request to the node's command channel; \<open>up\<close> says
  whether the node still holds its end of the channel.  What is printed is kept as the kind of reply.
\<close>

datatype request =
    Act node_command
  | ListPeers
  | ListContacts
  | History nat
  | ListAddrs
  | GroupList

datatype repl_error =
    BadAddress
  | BadPeer
  | BadMember
  | BadGroupId hex_error
  | UsageError
  | UnknownGroupCommand bytes
  | NodeGone

datatype reply =
    Quit
  | Skipped
  | Help
  | GroupHelp
  | Usage
  | PeerIdShown bytes
  | SafetyShown bytes bytes
  | Submitted request
  | Failed repl_error
  | Unknown bytes

section \<open>Safety numbers\<close>

definition safety_input :: "bytes \<Rightarrow> bytes \<Rightarrow> bytes" where
  "safety_input mine theirs =
     (let (a, b) = (if mine \<le> theirs then (mine, theirs) else (theirs, mine))
      in ascii ''ME55-safety-v1'' @ be32 (len32 a) @ a @ be32 (len32 b) @ b)"

definition hex_digit :: "byte \<Rightarrow> byte" where
  "hex_digit d = (if d < 10 then 48 + d else 87 + d)"

text \<open>\<open>{:02x}\<close> of every byte.\<close>
definition hex_lower :: "bytes \<Rightarrow> bytes" where
  "hex_lower bs = concat (map (\<lambda>b. [hex_digit (drop_bit 4 b), hex_digit (take_bit 4 b)]) bs)"

fun chunks :: "nat \<Rightarrow> 'a list \<Rightarrow> 'a list list" where
  "chunks n xs = (if xs = [] \<or> n = 0 then [] else take n xs # chunks n (drop n xs))"

declare chunks.simps [simp del]

fun join :: "bytes \<Rightarrow> bytes list \<Rightarrow> bytes" where
  "join sep [] = []"
| "join sep [x] = x"
| "join sep (x # y # xs) = x @ sep @ join sep (y # xs)"

definition safety_number :: "prims \<Rightarrow> bytes \<Rightarrow> bytes \<Rightarrow> bytes" where
  "safety_number P mine theirs = join [32] (chunks 5 (hex_lower (take 20 (sha256 P (safety_input mine theirs)))))"

section \<open>Handlers\<close>

definition submit :: "bool \<Rightarrow> request \<Rightarrow> repl_error + request" where
  "submit up r = (if up then Inr r else Inl NodeGone)"

definition connect_handler :: "outside \<Rightarrow> bool \<Rightarrow> bytes \<Rightarrow> repl_error + request" where
  "connect_handler W up addr_str =
     (case os_parse_addr W addr_str of None \<Rightarrow> Inl BadAddress | Some addr \<Rightarrow> submit up (Act (Connect addr)))"

definition send_handler :: "outside \<Rightarrow> bool \<Rightarrow> bytes \<Rightarrow> repl_error + request" where
  "send_handler W up args =
     (case split_space args of
        (_, None) \<Rightarrow> Inl UsageError
      | (peer_str, Some message) \<Rightarrow> (case os_parse_peer W peer_str of
          None \<Rightarrow> Inl BadPeer | Some peer \<Rightarrow> submit up (Act (Send peer message))))"

definition history_handler :: "bool \<Rightarrow> bytes \<Rightarrow> repl_error + request" where
  "history_handler up args = submit up (History (case parse_usize (trim args) of Some n \<Rightarrow> n | None \<Rightarrow> 20))"

definition parse_group_id_hex :: "outside \<Rightarrow> bytes \<Rightarrow> repl_error + bytes" where
  "parse_group_id_hex W s = map_sum BadGroupId id (parse_hex32 W s)"

text \<open>The first member that does not parse fails the whole command.\<close>
fun parse_peers :: "outside \<Rightarrow> bytes list \<Rightarrow> bytes list option" where
  "parse_peers W [] = Some []"
| "parse_peers W (s # ss) = (case os_parse_peer W s of
     None \<Rightarrow> None | Some p \<Rightarrow> map_option ((#) p) (parse_peers W ss))"

text \<open>\<open>group add\<close> and \<open>group remove\<close>.\<close>
definition member_handler :: "outside \<Rightarrow> bool \<Rightarrow> (bytes \<Rightarrow> bytes \<Rightarrow> node_command) \<Rightarrow> bytes \<Rightarrow> repl_error + request" where
  "member_handler W up cmd rest =
     (case split_whitespace rest of
        [gid_str, peer_str] \<Rightarrow>
          (case parse_group_id_hex W gid_str of
             Inl e \<Rightarrow> Inl e
           | Inr gid \<Rightarrow> (case os_parse_peer W peer_str of
               None \<Rightarrow> Inl BadPeer | Some peer \<Rightarrow> submit up (Act (cmd gid peer))))
      | _ \<Rightarrow> Inl UsageError)"

definition group_send_handler :: "outside \<Rightarrow> bool \<Rightarrow> bytes \<Rightarrow> repl_error + request" where
  "group_send_handler W up rest =
     (let (gid_str, msg) = split_ws rest; message = trim (case msg of Some m \<Rightarrow> m | None \<Rightarrow> []) in
      if gid_str = [] \<or> message = [] then Inl UsageError
      else case parse_group_id_hex W gid_str of
        Inl e \<Rightarrow> Inl e | Inr gid \<Rightarrow> submit up (Act (GroupSend gid message)))"

definition group_handler :: "outside \<Rightarrow> bool \<Rightarrow> bytes \<Rightarrow> repl_error + request" where
  "group_handler W up args =
     (let (head, tail) = split_ws (trim args);
          sub = lower head;
          rest = trim (case tail of Some r \<Rightarrow> r | None \<Rightarrow> [])
      in if sub = ascii ''create'' then
           (case split_whitespace rest of
              [] \<Rightarrow> Inl UsageError
            | name # toks \<Rightarrow> (case parse_peers W toks of
                None \<Rightarrow> Inl BadMember | Some members \<Rightarrow> submit up (Act (GroupCreate name members))))
         else if sub \<in> {ascii ''list'', ascii ''ls''} then submit up GroupList
         else if sub = ascii ''send'' then group_send_handler W up rest
         else if sub = ascii ''add'' then member_handler W up GroupAdd rest
         else if sub \<in> {ascii ''remove'', ascii ''rm''} then member_handler W up GroupRemove rest
         else if sub = ascii ''leave'' then
           (if trim rest = [] then Inl UsageError
            else case parse_group_id_hex W (trim rest) of
              Inl e \<Rightarrow> Inl e | Inr gid \<Rightarrow> submit up (Act (GroupLeave gid)))
         else Inl (UnknownGroupCommand sub))"

section \<open>The command loop\<close>

definition reply_of :: "repl_error + request \<Rightarrow> reply" where
  "reply_of r = (case r of Inl e \<Rightarrow> Failed e | Inr q \<Rightarrow> Submitted q)"

definition repl_line :: "prims \<Rightarrow> outside \<Rightarrow> bytes \<Rightarrow> bool \<Rightarrow> bytes \<Rightarrow> reply" where
  "repl_line P W me up line =
     (let trimmed_line = trim line; (word, args) = split_space trimmed_line; cmd = lower word in
      if trimmed_line = [] then Skipped
      else if cmd \<in> {ascii ''quit'', ascii ''exit'', ascii ''q''} then Quit
      else if cmd \<in> {ascii ''help'', ascii ''h''} then Help
      else if cmd \<in> {ascii ''connect'', ascii ''c''} then
        (case args of None \<Rightarrow> Usage | Some s \<Rightarrow> reply_of (connect_handler W up s))
      else if cmd \<in> {ascii ''send'', ascii ''s''} then
        (case args of None \<Rightarrow> Usage | Some s \<Rightarrow> reply_of (send_handler W up s))
      else if cmd \<in> {ascii ''peers'', ascii ''p''} then reply_of (submit up ListPeers)
      else if cmd \<in> {ascii ''contacts'', ascii ''co''} then reply_of (submit up ListContacts)
      else if cmd \<in> {ascii ''history'', ascii ''hist'', ascii ''hi''} then
        reply_of (history_handler up (case args of None \<Rightarrow> ascii ''20'' | Some s \<Rightarrow> s))
      else if cmd \<in> {ascii ''safety'', ascii ''verify'', ascii ''sn''} then
        (case args of None \<Rightarrow> Usage | Some s \<Rightarrow>
           (case os_parse_peer W (trim s) of
              None \<Rightarrow> Failed BadPeer | Some peer \<Rightarrow> SafetyShown peer (safety_number P me peer)))
      else if cmd \<in> {ascii ''whoami'', ascii ''me''} then PeerIdShown me
      else if cmd \<in> {ascii ''addr'', ascii ''addrs'', ascii ''a''} then reply_of (submit up ListAddrs)
      else if cmd \<in> {ascii ''group'', ascii ''g''} then
        (let a = (case args of None \<Rightarrow> [] | Some s \<Rightarrow> s) in
         if trim a = [] then GroupHelp else reply_of (group_handler W up a))
      else Unknown cmd)"

text \<open>The loop ends at \<open>quit\<close> or at the end of the input.\<close>
fun run_cli :: "prims \<Rightarrow> outside \<Rightarrow> bytes \<Rightarrow> bool \<Rightarrow> bytes list \<Rightarrow> reply list" where
  "run_cli P W me up [] = []"
| "run_cli P W me up (line # rest) =
     (let r = repl_line P W me up line in if r = Quit then [Quit] else r # run_cli P W me up rest)"

end
