(* ===== verification/ReplProps.thy ===== *)
theory ReplProps
  imports Repl
begin

text \<open>
  The terminal understands what can be typed: every request has a line that submits exactly this request,
  and the safety number of a conversation is the same at both ends and binds the two PeerIds.
\<close>

section \<open>Words\<close>

lemma solid_Cons: "solid (b # w) \<longleftrightarrow> strip_char white_space (b # w) = None \<and> solid w"
  by (auto simp: solid_def split: option.splits)

lemma solid_suffix: "solid (u @ s) \<Longrightarrow> solid s"
  by (induction u) (auto simp: solid_Cons)

lemma solid_trimmed:
  assumes "solid w" "w \<noteq> []"
  shows "trimmed w"
proof -
  have "strip_char (map rev white_space) (rev w) = None"
  proof (unfold strip_char_None, intro ballI impI notI)
    fix c assume c: "c \<in> set (map rev white_space)" "c \<noteq> []" "take (length c) (rev w) = c"
    obtain s where s: "w = s @ rev c" by (metis append_take_drop_id c(3) rev_append rev_rev_ident)
    have "solid (rev c)" using assms(1) solid_suffix unfolding s by blast
    then have "strip_char white_space (rev c) = None" using c(2) by (cases "rev c") (auto simp: solid_Cons)
    moreover have "rev c \<in> set white_space" using c(1) by auto
    ultimately show False using c(2) by (auto simp: strip_char_None)
  qed
  moreover have "strip_char white_space w = None" using assms by (cases w) (auto simp: solid_Cons)
  ultimately show ?thesis by (simp add: trimmed_def)
qed

text \<open>A byte that is no part of a white-space character.\<close>
definition plain_byte :: "byte \<Rightarrow> bool" where
  "plain_byte b \<longleftrightarrow> b \<notin> set (concat white_space)"

lemma plain_solid: "list_all plain_byte w \<Longrightarrow> solid w"
proof (induction w)
  case (Cons b w)
  have "take (length c) (b # w) \<noteq> c" if c: "c \<in> set white_space" "c \<noteq> []" for c
  proof
    assume "take (length c) (b # w) = c"
    then have "b \<in> set c" using c(2) by (cases c) auto
    then show False using Cons.prems c(1) by (auto simp: plain_byte_def)
  qed
  then show ?case using Cons by (simp add: solid_Cons strip_char_None)
qed (simp add: solid_def)

lemma ascii_words [simp]:
  "solid (ascii ''connect'')" "solid (ascii ''send'')" "solid (ascii ''history'')" "solid (ascii ''group'')"
  "solid (ascii ''create'')" "solid (ascii ''add'')" "solid (ascii ''remove'')" "solid (ascii ''leave'')"
  "solid (ascii ''peers'')" "solid (ascii ''contacts'')" "solid (ascii ''addr'')" "solid (ascii ''list'')"
  by (simp_all add: ascii_def plain_solid plain_byte_def white_space_def)

lemma lower_words [simp]:
  "lower (ascii ''connect'') = ascii ''connect''" "lower (ascii ''send'') = ascii ''send''"
  "lower (ascii ''history'') = ascii ''history''" "lower (ascii ''group'') = ascii ''group''"
  "lower (ascii ''create'') = ascii ''create''" "lower (ascii ''add'') = ascii ''add''"
  "lower (ascii ''remove'') = ascii ''remove''" "lower (ascii ''leave'') = ascii ''leave''"
  "lower (ascii ''peers'') = ascii ''peers''" "lower (ascii ''contacts'') = ascii ''contacts''"
  "lower (ascii ''addr'') = ascii ''addr''" "lower (ascii ''list'') = ascii ''list''"
  by (simp_all add: ascii_def lower_def)

lemma unat_digit: "d < 10 \<Longrightarrow> unat (48 + word_of_nat d :: byte) = 48 + d"
proof -
  assume "d < 10"
  then have "unat (of_nat (48 + d) :: byte) = 48 + d" by (simp only: unat_of_nat) simp
  then show ?thesis by simp
qed

lemma digits_decimal: "list_all is_digit (decimal n)"
proof (induction n rule: decimal.induct)
  case (1 n)
  have "is_digit (of_nat (48 + d))" if "d < 10" for d
    using that unat_digit [OF that] by (simp add: is_digit_def word_le_nat_alt)
  then show ?case using 1 by (cases "n < 10") (simp_all add: decimal.simps [of n])
qed

lemma decimal_nonempty [simp]: "decimal n \<noteq> []"
  by (cases "n < 10") (simp_all add: decimal.simps [of n])

lemma decimal_value: "foldl (\<lambda>v b. 10 * v + (unat b - 48)) 0 (decimal n) = n"
proof (induction n rule: decimal.induct)
  case (1 n)
  have d: "unat (of_nat (48 + d) :: byte) - 48 = d" if "d < 10" for d
    using unat_digit [OF that] by simp
  show ?case
  proof (cases "n < 10")
    case True
    then show ?thesis using d [of n] by (simp add: decimal.simps [of n])
  next
    case False
    then show ?thesis using 1 d [of "n mod 10"] by (simp add: decimal.simps [of n])
  qed
qed

lemma parse_decimal: "n < 2 ^ 64 \<Longrightarrow> parse_usize (decimal n) = Some n"
proof -
  assume n: "n < 2 ^ 64"
  obtain b r where d: "decimal n = b # r" by (cases "decimal n") auto
  then have "b \<noteq> 43" using digits_decimal [of n] by (auto simp: is_digit_def)
  then show ?thesis using n digits_decimal [of n] decimal_value [of n] by (simp add: parse_usize_def d Let_def)
qed

lemma decimal_solid [simp]: "solid (decimal n)"
proof (rule plain_solid)
  have "\<forall>b \<in> set (concat white_space). \<not> is_digit b" by (simp add: white_space_def is_digit_def)
  then show "list_all plain_byte (decimal n)" using digits_decimal [of n] by (auto simp: list_all_iff plain_byte_def)
qed

section \<open>Lines\<close>

abbreviation sp :: "bytes \<Rightarrow> bytes \<Rightarrow> bytes" where
  "sp a b \<equiv> a @ 32 # b"

lemma line_parts:
  assumes "solid w" "w \<noteq> []" "trimmed r" "r \<noteq> []"
  shows "trim (sp w r) = sp w r" "split_space (sp w r) = (w, Some r)" "split_ws (sp w r) = (w, Some r)" "trimmed (sp w r)"
  using assms trimmed_join [OF solid_trimmed [OF assms(1,2)] assms(3)]
  by (simp_all add: trim_trimmed split_space_blank solid_no_blank split_ws_blank)

text \<open>The line of a command with arguments reaches its handler.\<close>
lemma dispatch:
  assumes "trimmed r" "r \<noteq> []"
  shows "repl_line P W me up (sp (ascii ''connect'') r) = reply_of (connect_handler W up r)"
    "repl_line P W me up (sp (ascii ''send'') r) = reply_of (send_handler W up r)"
    "repl_line P W me up (sp (ascii ''history'') r) = reply_of (history_handler up r)"
    "repl_line P W me up (sp (ascii ''group'') r) = reply_of (group_handler W up r)"
  using assms
  by (simp_all add: repl_line_def line_parts trim_trimmed Let_def)

lemma dispatch_bare:
  shows "repl_line P W me up (ascii ''peers'') = reply_of (submit up ListPeers)"
    "repl_line P W me up (ascii ''contacts'') = reply_of (submit up ListContacts)"
    "repl_line P W me up (ascii ''addr'') = reply_of (submit up ListAddrs)"
  by (simp_all add: repl_line_def trim_trimmed solid_trimmed split_space_none solid_no_blank Let_def)

lemma group_list: "group_handler W up (ascii ''list'') = submit up GroupList"
  by (simp add: group_handler_def trim_trimmed solid_trimmed split_ws_solid Let_def)

lemma dispatch_group:
  assumes "trimmed r" "r \<noteq> []"
  shows "group_handler W up (sp (ascii ''send'') r) = group_send_handler W up r"
    "group_handler W up (sp (ascii ''add'') r) = member_handler W up GroupAdd r"
    "group_handler W up (sp (ascii ''remove'') r) = member_handler W up GroupRemove r"
    "group_handler W up (sp (ascii ''leave'') r)
       = (case parse_group_id_hex W r of Inl e \<Rightarrow> Inl e | Inr gid \<Rightarrow> submit up (Act (GroupLeave gid)))"
    "group_handler W up (sp (ascii ''create'') r)
       = (case split_whitespace r of [] \<Rightarrow> Inl UsageError | name # toks \<Rightarrow>
           (case parse_peers W toks of None \<Rightarrow> Inl BadMember | Some members \<Rightarrow> submit up (Act (GroupCreate name members))))"
  using assms
  by (simp_all add: group_handler_def line_parts trim_trimmed Let_def)

section \<open>Printing and reading back\<close>

text \<open>What the printers of the crates give: words, which their parsers read back.\<close>
definition peer_word :: "outside \<Rightarrow> bytes \<Rightarrow> bool" where
  "peer_word W p \<longleftrightarrow> solid (os_show_peer W p) \<and> os_show_peer W p \<noteq> [] \<and> os_parse_peer W (os_show_peer W p) = Some p"

definition gid_word :: "outside \<Rightarrow> bytes \<Rightarrow> bool" where
  "gid_word W g \<longleftrightarrow> length g = 32 \<and> solid (os_hex_encode W g) \<and> os_hex_encode W g \<noteq> []
     \<and> os_hex_decode W (os_hex_encode W g) = Some g"

definition message_text :: "bytes \<Rightarrow> bool" where
  "message_text t \<longleftrightarrow> t \<noteq> [] \<and> trimmed t"

text \<open>The requests that the terminal can express.  The text of \<open>send\<close> may start with white space, that of \<open>group send\<close> is trimmed.\<close>
fun typable :: "outside \<Rightarrow> request \<Rightarrow> bool" where
  "typable W (Act (Connect a)) \<longleftrightarrow> message_text (os_show_addr W a) \<and> os_parse_addr W (os_show_addr W a) = Some a"
| "typable W (Act (Send p t)) \<longleftrightarrow> peer_word W p \<and> t \<noteq> [] \<and> unspaced_end t"
| "typable W (Act (GroupCreate name ms)) \<longleftrightarrow> solid name \<and> name \<noteq> [] \<and> list_all (peer_word W) ms"
| "typable W (Act (GroupSend g t)) \<longleftrightarrow> gid_word W g \<and> message_text t"
| "typable W (Act (GroupAdd g p)) \<longleftrightarrow> gid_word W g \<and> peer_word W p"
| "typable W (Act (GroupRemove g p)) \<longleftrightarrow> gid_word W g \<and> peer_word W p"
| "typable W (Act (GroupLeave g)) \<longleftrightarrow> gid_word W g"
| "typable W (Act (FetchPrekey p)) \<longleftrightarrow> False"
| "typable W (Act (AddContact p alias)) \<longleftrightarrow> False"
| "typable W (History n) \<longleftrightarrow> n < 2 ^ 64"
| "typable W q \<longleftrightarrow> True"

fun member_words :: "outside \<Rightarrow> bytes list \<Rightarrow> bytes" where
  "member_words W [] = []"
| "member_words W (p # ps) = 32 # os_show_peer W p @ member_words W ps"

fun typed :: "outside \<Rightarrow> request \<Rightarrow> bytes" where
  "typed W (Act (Connect a)) = sp (ascii ''connect'') (os_show_addr W a)"
| "typed W (Act (Send p t)) = sp (ascii ''send'') (sp (os_show_peer W p) t)"
| "typed W (Act (GroupCreate name ms)) = sp (ascii ''group'') (sp (ascii ''create'') (name @ member_words W ms))"
| "typed W (Act (GroupSend g t)) = sp (ascii ''group'') (sp (ascii ''send'') (sp (os_hex_encode W g) t))"
| "typed W (Act (GroupAdd g p)) = sp (ascii ''group'') (sp (ascii ''add'') (sp (os_hex_encode W g) (os_show_peer W p)))"
| "typed W (Act (GroupRemove g p)) = sp (ascii ''group'') (sp (ascii ''remove'') (sp (os_hex_encode W g) (os_show_peer W p)))"
| "typed W (Act (GroupLeave g)) = sp (ascii ''group'') (sp (ascii ''leave'') (os_hex_encode W g))"
| "typed W (History n) = sp (ascii ''history'') (decimal n)"
| "typed W ListPeers = ascii ''peers''"
| "typed W ListContacts = ascii ''contacts''"
| "typed W ListAddrs = ascii ''addr''"
| "typed W GroupList = sp (ascii ''group'') (ascii ''list'')"
| "typed W (Act cmd) = []"

lemma gid_parsed: "gid_word W g \<Longrightarrow> parse_group_id_hex W (os_hex_encode W g) = Inr g"
  by (simp add: gid_word_def parse_group_id_hex_def parse_hex32_def trim_trimmed solid_trimmed)

lemma member_parsed:
  "gid_word W g \<Longrightarrow> peer_word W p \<Longrightarrow>
     member_handler W True cmd (sp (os_hex_encode W g) (os_show_peer W p)) = Inr (Act (cmd g p))"
  using gid_parsed [of W g]
  by (simp add: member_handler_def gid_word_def peer_word_def split_whitespace_blank split_whitespace_solid submit_def)

lemma members_trimmed:
  "trimmed pre \<Longrightarrow> pre \<noteq> [] \<Longrightarrow> list_all (peer_word W) ms \<Longrightarrow> trimmed (pre @ member_words W ms)"
proof (induction ms arbitrary: pre)
  case (Cons p ms)
  have "trimmed (sp pre (os_show_peer W p))"
    using Cons.prems by (simp add: trimmed_join solid_trimmed peer_word_def)
  then show ?case using Cons.IH [of "sp pre (os_show_peer W p)"] Cons.prems by simp
qed simp

lemma members_split:
  "solid w \<Longrightarrow> w \<noteq> [] \<Longrightarrow> list_all (peer_word W) ms \<Longrightarrow>
     split_whitespace (w @ member_words W ms) = w # map (os_show_peer W) ms"
  by (induction ms arbitrary: w) (simp_all add: peer_word_def split_whitespace_blank split_whitespace_solid)

lemma members_parsed: "list_all (peer_word W) ms \<Longrightarrow> parse_peers W (map (os_show_peer W) ms) = Some ms"
  by (induction ms) (simp_all add: peer_word_def)

lemma group_line:
  assumes "solid w" "w \<noteq> []" "trimmed r" "r \<noteq> []"
  shows "repl_line P W me up (sp (ascii ''group'') (sp w r)) = reply_of (group_handler W up (sp w r))"
  using line_parts(4) [OF assms] by (intro dispatch) simp_all

text \<open>Every request the terminal can express has a line that submits exactly this request.\<close>
lemma typed_understood:
  assumes "typable W q"
  shows "repl_line P W me True (typed W q) = Submitted q"
proof (cases q)
  case (Act cmd)
  have gid: "trimmed (sp (os_hex_encode W g) t)" if "gid_word W g" "message_text t" for g t
    using that by (simp add: trimmed_join solid_trimmed gid_word_def message_text_def)
  have peer: "message_text (os_show_peer W p)" if "peer_word W p" for p
    using that by (simp add: message_text_def peer_word_def solid_trimmed)
  note s = submit_def reply_of_def message_text_def
  show ?thesis
  proof (cases cmd)
    case (Send p t)
    have "trimmed (sp (os_show_peer W p) t)"
      using assms Act Send by (simp add: trimmed_join_end solid_trimmed peer_word_def)
    then show ?thesis using assms Act Send
      by (simp add: dispatch send_handler_def peer_word_def split_space_blank solid_no_blank s)
  next
    case (GroupCreate name ms)
    then show ?thesis using assms Act members_trimmed [of name W ms] members_split [of name W ms] members_parsed [of W ms]
      by (simp add: group_line dispatch_group solid_trimmed s)
  next
    case (GroupSend g t)
    then show ?thesis using assms Act gid [of g t] gid_parsed [of W g]
      by (simp add: group_line dispatch_group group_send_handler_def split_ws_blank gid_word_def trim_trimmed s)
  next
    case (GroupAdd g p)
    then show ?thesis using assms Act gid [OF _ peer, of g p] member_parsed [of W g p GroupAdd]
      by (simp add: group_line dispatch_group s)
  next
    case (GroupRemove g p)
    then show ?thesis using assms Act gid [OF _ peer, of g p] member_parsed [of W g p GroupRemove]
      by (simp add: group_line dispatch_group s)
  next
    case (GroupLeave g)
    then have "trimmed (os_hex_encode W g)" using assms Act by (simp add: gid_word_def solid_trimmed)
    then show ?thesis using GroupLeave assms Act gid_parsed [of W g]
      by (simp add: group_line dispatch_group gid_word_def s)
  qed (use assms Act in \<open>simp_all add: dispatch connect_handler_def s\<close>)
next
  case (History n)
  then show ?thesis using assms
    by (simp add: dispatch solid_trimmed trim_trimmed history_handler_def parse_decimal submit_def reply_of_def)
qed (simp_all add: dispatch_bare dispatch solid_trimmed group_list submit_def reply_of_def)

section \<open>Safety numbers\<close>

lemma nibble_values:
  assumes "(d :: byte) < 16"
  shows "d \<in> set [0, 1, 2, 3, 4, 5, 6, 7, 8, 9, 10, 11, 12, 13, 14, 15]"
proof -
  have "unat d \<in> {..<16}" using assms by (simp add: word_less_nat_alt)
  then have "of_nat (unat d) \<in> (of_nat ` {..<16} :: byte set)" by (rule imageI)
  then show ?thesis by (simp add: lessThan_nat_numeral lessThan_Suc) blast
qed

lemma hex_digit_32: "d < 16 \<Longrightarrow> hex_digit d \<noteq> 32"
  using nibble_values [of d] by (auto simp: hex_digit_def)

lemma hex_digit_inject:
  assumes "d < 16" "e < 16"
  shows "hex_digit d = hex_digit e \<longleftrightarrow> d = e"
proof -
  let ?v = "[0, 1, 2, 3, 4, 5, 6, 7, 8, 9, 10, 11, 12, 13, 14, 15] :: byte list"
  have "distinct (map hex_digit ?v)" by (simp add: hex_digit_def)
  then have "inj_on hex_digit (set ?v)" by (simp only: distinct_map)
  then show ?thesis using nibble_values [OF assms(1)] nibble_values [OF assms(2)] by (rule inj_on_eq_iff)
qed

lemma nibbles: "drop_bit 4 b < (16 :: byte)" "take_bit 4 b < (16 :: byte)"
  "drop_bit 4 a = drop_bit 4 b \<Longrightarrow> take_bit 4 a = take_bit 4 b \<Longrightarrow> a = (b :: byte)"
proof -
  show "take_bit 4 b < (16 :: byte)" by (simp add: take_bit_eq_mod word_less_nat_alt unat_mod)
  have "unat b < 256" using unat_bound [of b] by simp
  then show "drop_bit 4 b < (16 :: byte)" by (simp add: word_less_nat_alt drop_bit_eq_div unat_div)
  show "drop_bit 4 a = drop_bit 4 b \<Longrightarrow> take_bit 4 a = take_bit 4 b \<Longrightarrow> a = b"
    by (metis bits_ident)
qed

lemma hex_lower_inject: "hex_lower a = hex_lower b \<longleftrightarrow> a = b"
proof
  show "hex_lower a = hex_lower b \<Longrightarrow> a = b"
  proof (induction a arbitrary: b)
    case Nil
    then show ?case by (cases b) (simp_all add: hex_lower_def)
  next
    case (Cons x a)
    then obtain y b' where b: "b = y # b'" by (cases b) (simp_all add: hex_lower_def)
    have "hex_lower a = hex_lower b'" "drop_bit 4 x = drop_bit 4 y" "take_bit 4 x = take_bit 4 y"
      using Cons.prems by (simp_all add: b hex_lower_def hex_digit_inject nibbles(1,2))
    then show ?case using Cons.IH [of b'] nibbles(3) [of x y] b by simp
  qed
qed simp

lemma hex_lower_no_blank: "filter (\<lambda>b. b \<noteq> 32) (hex_lower a) = hex_lower a"
  by (induction a) (simp_all add: hex_lower_def hex_digit_32 nibbles(1,2))

lemma filter_join: "filter (\<lambda>b. b \<noteq> 32) (join [32] xs) = concat (map (filter (\<lambda>b. b \<noteq> 32)) xs)"
  by (induction "[32 :: byte]" xs rule: join.induct) simp_all

lemma concat_chunks: "n \<noteq> 0 \<Longrightarrow> concat (chunks n xs) = xs"
  by (induction n xs rule: chunks.induct) (subst chunks.simps, simp)

lemma safety_number_digest:
  "filter (\<lambda>b. b \<noteq> 32) (safety_number P a b) = hex_lower (take 20 (sha256 P (safety_input a b)))"
proof -
  have "filter Q xs = concat (map (filter Q) (chunks 5 xs))" for Q and xs :: bytes
    using concat_chunks [of 5 xs] filter_concat [of Q "chunks 5 xs"] by simp
  then show ?thesis unfolding safety_number_def filter_join by (metis hex_lower_no_blank)
qed

text \<open>The hashed bytes determine the unordered pair.\<close>
lemma safety_input_inject:
  assumes "length a < 2 ^ 32" "length b < 2 ^ 32" "length c < 2 ^ 32" "length d < 2 ^ 32"
    and "safety_input a b = safety_input c d"
  shows "{a, b} = {c, d}"
proof -
  obtain x y where xy: "safety_input a b = ascii ''ME55-safety-v1'' @ be32 (len32 x) @ x @ be32 (len32 y) @ y"
    "{a, b} = {x, y}" "length x < 2 ^ 32" "length y < 2 ^ 32"
    using assms(1,2) by (cases "a \<le> b") (auto simp: safety_input_def)
  obtain u v where uv: "safety_input c d = ascii ''ME55-safety-v1'' @ be32 (len32 u) @ u @ be32 (len32 v) @ v"
    "{c, d} = {u, v}" "length u < 2 ^ 32" "length v < 2 ^ 32"
    using assms(3,4) by (cases "c \<le> d") (auto simp: safety_input_def)
  have e: "be32 (len32 x) @ x @ be32 (len32 y) @ y = be32 (len32 u) @ u @ be32 (len32 v) @ v"
    using assms(5) xy(1) uv(1) by simp
  then have "be32 (len32 x) = be32 (len32 u)" by (simp add: append_eq_same_length)
  then have l: "length x = length u" using xy(3) uv(3) by (simp add: len32_inject)
  then have "x = u \<and> y = v" using e by (simp add: append_eq_same_length)
  then show ?thesis using xy(2) uv(2) by simp
qed

text \<open>C29: Both ends of a conversation show the same safety number.  Two conversations show the same number exactly
  when the first 20 bytes of the SHA-256 of their two inputs agree, and their inputs are the same only when the
  pair of PeerIds is: the spaces, the hex and the truncation lose nothing else, and two different pairs share a number only
  through a collision of these two inputs.\<close>
theorem safety_number_binds:
  assumes "length a < 2 ^ 32" "length b < 2 ^ 32" "length c < 2 ^ 32" "length d < 2 ^ 32"
  shows "safety_number P a b = safety_number P b a
     \<and> (safety_number P a b = safety_number P c d \<longleftrightarrow> take 20 (sha256 P (safety_input a b)) = take 20 (sha256 P (safety_input c d)))
     \<and> (safety_input a b = safety_input c d \<longleftrightarrow> {a, b} = {c, d})"
proof -
  have sym: "safety_input x y = safety_input y x" for x y by (auto simp: safety_input_def)
  have "take 20 (sha256 P (safety_input a b)) = take 20 (sha256 P (safety_input c d))"
    if "safety_number P a b = safety_number P c d"
    using arg_cong [OF that, of "filter (\<lambda>b. b \<noteq> 32)"] by (simp add: safety_number_digest hex_lower_inject)
  moreover have "safety_input a b = safety_input c d" if "{a, b} = {c, d}"
    using that sym by (auto simp: doubleton_eq_iff)
  ultimately show ?thesis using safety_input_inject [OF assms] sym [of a b] by (auto simp: safety_number_def)
qed

theorem safety_number_binds_witness:
  "safety_number toy_prims [1, 2] [3] = safety_number toy_prims [3] [1, 2]
   \<and> safety_input [1, 2] [3] \<noteq> safety_input [1] [2, 3]"
  using safety_number_binds [of "[1, 2]" "[3]" "[1]" "[2, 3]" toy_prims] by (simp add: doubleton_eq_iff)

end
