(* ===== verification/Tools.thy ===== *)
theory Tools
  imports Startup
begin

text \<open>
  \<open>src/src/bin/me55_tools.rs\<close>: generating the maintainer's key, signing a bootstrap manifest and checking
  the signature.  The file system is a map from paths to contents; a path is its parent and its last
  component, if it has one.  The property ties the tool to the client: what \<open>sign\<close> writes is what
  \<open>fetch_signed_manifest\<close> accepts.
\<close>

type_synonym path = "bytes \<times> bytes option"
type_synonym files = "path \<rightharpoonup> bytes"

datatype tool_error =
    FileMissing path
  | PrivateKeyLength nat
  | PubkeyNotHex
  | PubkeyLength nat
  | PubkeyInvalid
  | SigLength nat
  | SignatureBad

text \<open>\<open>set_file_name\<close> on a path without a last component appends one.\<close>
definition sig_path_for :: "path \<Rightarrow> path" where
  "sig_path_for p = (fst p, Some ((case snd p of Some name \<Rightarrow> name | None \<Rightarrow> []) @ ascii ''.sig''))"

text \<open>The secret comes from \<open>OsRng\<close>; the public key is printed in hex.\<close>
definition keygen :: "prims \<Rightarrow> outside \<Rightarrow> bytes \<Rightarrow> path \<Rightarrow> files \<Rightarrow> bytes \<times> files" where
  "keygen P W secret out fs = (os_hex_encode W (ed_pub P secret), fs(out \<mapsto> secret))"

definition load_private :: "path \<Rightarrow> files \<Rightarrow> tool_error + bytes" where
  "load_private path fs =
     (case fs path of
        None \<Rightarrow> Inl (FileMissing path)
      | Some bs \<Rightarrow> if length bs \<noteq> 32 then Inl (PrivateKeyLength (length bs)) else Inr bs)"

definition pubkey :: "prims \<Rightarrow> outside \<Rightarrow> path \<Rightarrow> files \<Rightarrow> tool_error + bytes" where
  "pubkey P W path fs =
     (case load_private path fs of Inl e \<Rightarrow> Inl e | Inr sk \<Rightarrow> Inr (os_hex_encode W (ed_pub P sk)))"

definition sign_manifest :: "prims \<Rightarrow> path \<Rightarrow> path \<Rightarrow> files \<Rightarrow> tool_error + files" where
  "sign_manifest P key input fs =
     (case load_private key fs of
        Inl e \<Rightarrow> Inl e
      | Inr sk \<Rightarrow> (case fs input of
          None \<Rightarrow> Inl (FileMissing input)
        | Some body \<Rightarrow> Inr (fs(sig_path_for input \<mapsto> ed_sign P sk body))))"

definition verify_manifest :: "prims \<Rightarrow> outside \<Rightarrow> bytes \<Rightarrow> path \<Rightarrow> files \<Rightarrow> tool_error + unit" where
  "verify_manifest P W pubkey_hex input fs =
     (case os_hex_decode W (trim pubkey_hex) of
        None \<Rightarrow> Inl PubkeyNotHex
      | Some pk \<Rightarrow>
          if length pk \<noteq> 32 then Inl (PubkeyLength (length pk))
          else if \<not> ed_key_ok P pk then Inl PubkeyInvalid
          else case fs input of
            None \<Rightarrow> Inl (FileMissing input)
          | Some body \<Rightarrow> (case fs (sig_path_for input) of
              None \<Rightarrow> Inl (FileMissing (sig_path_for input))
            | Some sig \<Rightarrow>
                if length sig \<noteq> 64 then Inl (SigLength (length sig))
                else if \<not> ed_verify P pk body sig then Inl SignatureBad
                else Inr ()))"

section \<open>From the tool to the client\<close>

lemma sig_path_other: "sig_path_for p \<noteq> p"
  by (cases p; cases "snd p") (auto simp: sig_path_for_def ascii_def)

text \<open>C22: A manifest signed with the tool and published with its signature file is accepted by every client
  that pins the maintainer's key, as long as it is neither too large nor expired nor too old; the tool's own check agrees.\<close>
theorem published_manifest_accepted:
  assumes laws: "ed_correct P" "os_hex_decode W (trim (os_hex_encode W (ed_pub P sk))) = Some (ed_pub P sk)"
    and key: "fs key = Some sk" "length sk = 32" "length (ed_pub P sk) = 32" "ed_pub P sk \<noteq> replicate 32 0"
    and signed: "sign_manifest P key input fs = Inr fs'" and body: "fs input = Some body" "length body \<le> MAX_MANIFEST_BYTES"
    and host: "os_http_client W" "os_http_get W url = map_option (Pair True) (fs' input)"
      "os_http_get W (url @ ascii ''.sig'') = map_option (Pair True) (fs' (sig_path_for input))"
    and m: "os_parse_manifest W body = Some m" "check_manifest now m = None"
  shows "fetch_signed_manifest P W now url (ed_pub P sk) = Inr m
     \<and> verify_manifest P W (os_hex_encode W (ed_pub P sk)) input fs' = Inr ()"
proof -
  have fs': "fs' input = Some body" "fs' (sig_path_for input) = Some (ed_sign P sk body)"
    using signed key(1,2) body(1) sig_path_other [of input] by (auto simp: sign_manifest_def load_private_def)
  have sig: "ed_key_ok P (ed_pub P sk)" "length (ed_sign P sk body) = 64" "ed_verify P (ed_pub P sk) body (ed_sign P sk body)"
    by (rule ed_correctD [OF laws(1)])+
  have served: "os_http_get W url = Some (True, body)" "os_http_get W (url @ ascii ''.sig'') = Some (True, ed_sign P sk body)"
    by (simp_all add: host(2,3) fs')
  have "fetch_signed_manifest P W now url (ed_pub P sk) = Inr m"
    by (simp add: fetch_signed_manifest_def key(4) host(1) served not_less [THEN iffD2, OF body(2)] sig m)
  moreover have "verify_manifest P W (os_hex_encode W (ed_pub P sk)) input fs' = Inr ()"
    by (simp add: verify_manifest_def laws(2) key(3) sig fs')
  ultimately show ?thesis by blast
qed

theorem published_manifest_accepted_witness:
  "fetch_signed_manifest toy_prims toy_outside 2000 [7] (replicate 32 2) = Inr toy_manifest"
proof -
  let ?fs = "[([1], Some [1]) \<mapsto> replicate 32 2, ([1], Some [2]) \<mapsto> [5]] :: files"
  obtain fs' where fs': "sign_manifest toy_prims ([1], Some [1]) ([1], Some [2]) ?fs = Inr fs'"
    by (simp add: sign_manifest_def load_private_def)
  have at: "fs' ([1], Some [2]) = Some [5]"
    "fs' (sig_path_for ([1], Some [2])) = Some (toy_sign (replicate 32 2) [5])"
    using fs' sig_path_other [of "([1], Some [2])"] by (auto simp: sign_manifest_def load_private_def toy_prims_def)
  have hex: "trim (1 # b @ [1]) = 1 # b @ [1]" for b
    by (rule trim_trimmed) (simp add: trimmed_def strip_char_def white_space_def)
  have z: "(replicate 32 2 :: bytes) \<noteq> replicate 32 0" by simp
  have m: "check_manifest 2000 toy_manifest = None"
    by (simp add: check_manifest_def toy_manifest_def MAX_MANIFEST_AGE_SECS_def)
  show ?thesis
    using published_manifest_accepted [OF toy_laws(4) _ _ _ _ _ fs', of toy_outside "replicate 32 2" "[5]" "[7]" toy_manifest 2000]
      at hex z m by (simp add: toy_outside_def MAX_MANIFEST_BYTES_def ascii_def)
qed

end
