(* ===== verification/Views.thy ===== *)
theory Views
  imports Repl ToyCodec
begin

text \<open>
  What a node shows: the lines the terminal commands print (\<open>run_with_commands\<close> and \<open>handle_group_list\<close> of
  \<open>src/src/core/node.rs\<close>) and the records the window shows.  A function that panics returns \<open>None\<close>.
\<close>

section \<open>Formatting\<close>

definition two_digits :: "nat \<Rightarrow> bytes" where
  "two_digits n = (if n < 10 then 48 # decimal n else decimal n)"

text \<open>A negative timestamp is out of range as \<open>u64\<close> seconds and falls back to the epoch.\<close>
definition chrono_format :: "int \<Rightarrow> bytes" where
  "chrono_format timestamp =
     (let secs = nat timestamp in
      two_digits (secs mod 86400 div 3600) @ 58 # two_digits (secs mod 3600 div 60) @ 58 # two_digits (secs mod 60))"

definition truncate_peer :: "bytes \<Rightarrow> nat \<Rightarrow> bytes option" where
  "truncate_peer peer max_len =
     (if length peer > max_len then map_option (\<lambda>p. p @ ascii ''...'') (slice_to (max_len - 3) peer) else Some peer)"

definition show_sender :: "prims \<Rightarrow> outside \<Rightarrow> bytes \<Rightarrow> bytes" where
  "show_sender P W pid = (if peer_valid P pid then os_show_peer W pid else ascii ''?'')"

section \<open>Terminal\<close>

definition history_line :: "stored_message \<Rightarrow> bytes option" where
  "history_line m =
     map_option (\<lambda>peer. ascii ''  ['' @ chrono_format (sm_timestamp m) @ ascii ''] '' @ peer @ ascii '': '' @ from_utf8_lossy (sm_ciphertext m))
       (truncate_peer (from_utf8_lossy (sm_sender m)) 16)"

text \<open>The lines in order; a panic in one of them ends the event loop.\<close>
fun print_all :: "('a \<Rightarrow> bytes option) \<Rightarrow> 'a list \<Rightarrow> bytes list option" where
  "print_all f [] = Some []"
| "print_all f (x # xs) = (case f x of None \<Rightarrow> None | Some l \<Rightarrow> map_option ((#) l) (print_all f xs))"

definition show_history :: "env \<Rightarrow> nat \<Rightarrow> node \<Rightarrow> bytes list option" where
  "show_history E limit n = print_all history_line (get_recent_messages (en_prims E) (nd_store n) limit)"

definition show_contacts :: "env \<Rightarrow> outside \<Rightarrow> node \<Rightarrow> bytes list" where
  "show_contacts E W n =
     map (\<lambda>(peer, pk, alias).
            if peer_valid (en_prims E) peer
            then ascii ''  '' @ os_show_peer W peer @ (case alias of Some a \<Rightarrow> ascii '' ('' @ a @ ascii '')'' | None \<Rightarrow> [])
            else ascii ''  <unparseable peer id>'')
       (get_contacts (nd_store n))"

definition show_addrs :: "outside \<Rightarrow> node \<Rightarrow> bytes list" where
  "show_addrs W n = map (\<lambda>a. ascii ''  '' @ os_show_addr W a @ ascii ''/p2p/'' @ os_show_peer W (my_pid n)) (nd_listen_addrs n)"

definition show_groups :: "env \<Rightarrow> outside \<Rightarrow> node \<Rightarrow> bytes list" where
  "show_groups E W n =
     map (\<lambda>row. ascii ''  '' @ os_hex_encode W (gr_group_id row) @ ascii '' '' @ [39] @ gr_name row @ [39]
            @ ascii '' epoch='' @ decimal (unat (gr_epoch row))
            @ ascii '' members='' @ decimal (length (group_members (nd_store n) (gr_group_id row)))
            @ ascii '' founder='' @ show_sender (en_prims E) W (gr_founder_pid row))
       (group_list (nd_store n))"

section \<open>Window\<close>

record message_dto =
  md_sender :: bytes
  md_content :: bytes
  md_timestamp :: int
  md_is_own :: bool

record contact_dto =
  cd_peer_id :: bytes
  cd_alias :: "bytes option"

record group_dto =
  gd_group_id :: bytes
  gd_name :: bytes
  gd_founder :: bytes
  gd_epoch :: u64
  gd_member_count :: nat
  gd_is_founder :: bool

definition message_dto_of :: "outside \<Rightarrow> bytes option \<times> bytes \<times> int \<times> bool \<Rightarrow> message_dto" where
  "message_dto_of W m = (case m of (sender, content, t, own) \<Rightarrow>
     \<lparr> md_sender = (case sender of Some p \<Rightarrow> os_show_peer W p | None \<Rightarrow> ascii ''?''),
       md_content = from_utf8_lossy content, md_timestamp = t, md_is_own = own \<rparr>)"

definition contact_dto_of :: "outside \<Rightarrow> bytes \<times> bytes option \<Rightarrow> contact_dto" where
  "contact_dto_of W c = \<lparr> cd_peer_id = os_show_peer W (fst c), cd_alias = snd c \<rparr>"

definition group_dto_of :: "prims \<Rightarrow> outside \<Rightarrow> group_row \<times> nat \<times> bool \<Rightarrow> group_dto" where
  "group_dto_of P W g = (case g of (row, members, own) \<Rightarrow>
     \<lparr> gd_group_id = os_hex_encode W (gr_group_id row), gd_name = gr_name row,
       gd_founder = show_sender P W (gr_founder_pid row), gd_epoch = gr_epoch row,
       gd_member_count = members, gd_is_founder = own \<rparr>)"

section \<open>When the history command panics\<close>

lemma utf8_lead_short: "utf8_lead b = Some rs \<Longrightarrow> length rs \<le> 3"
  by (auto simp: utf8_lead_def split: if_splits)

text \<open>Replacing never shortens a string.\<close>
lemma lossy_longer:
  "length acc + length rs \<le> 4 \<Longrightarrow> rs = [] \<longrightarrow> acc = [] \<Longrightarrow> length acc + length s \<le> length (lossy_from acc rs s)"
proof (induction acc rs s rule: lossy_from.induct)
  case (3 acc b s)
  show ?case
  proof (cases "utf8_lead b")
    case (Some xs)
    then show ?thesis using 3 utf8_lead_short [OF Some] by (cases xs) simp_all
  qed (use 3 in \<open>simp add: replacement_def\<close>)
next
  case (4 acc lo hi rs b s)
  show ?case
  proof (cases "lo \<le> b \<and> b \<le> hi")
    case True
    then show ?thesis using 4 by (cases rs) simp_all
  next
    case False
    show ?thesis
    proof (cases "utf8_lead b")
      case (Some xs)
      then show ?thesis using False 4 utf8_lead_short [OF Some] by (cases xs) (simp_all add: replacement_def)
    qed (use False 4 in \<open>simp add: replacement_def\<close>)
  qed
qed (simp_all add: replacement_def)

lemma print_all_None: "print_all f xs = None \<longleftrightarrow> (\<exists>x \<in> set xs. f x = None)"
  by (induction xs) (auto split: option.split)

lemma history_line_None:
  "history_line m = None \<longleftrightarrow> (let t = from_utf8_lossy (sm_sender m) in 16 < length t \<and> 0x80 \<le> t ! 13 \<and> t ! 13 \<le> 0xBF)"
  by (auto simp: history_line_def truncate_peer_def slice_to_def is_char_boundary_def Let_def)

text \<open>C38: The history command ends the event loop exactly when it lists a message whose sender, decoded with replacement
  characters, is longer than 16 bytes and has its 14th byte inside a character: there the text is cut.
  Such senders exist: PeerIds of Ed25519 keys that start with three bytes none of which can start a UTF-8 character.\<close>
theorem history_panics:
  "(show_history E limit n = None \<longleftrightarrow> (\<exists>m \<in> set (get_recent_messages (en_prims E) (nd_store n) limit).
      let t = from_utf8_lossy (sm_sender m) in 16 < length t \<and> 0x80 \<le> t ! 13 \<and> t ! 13 \<le> 0xBF))
   \<and> (\<forall>m \<in> set (get_recent_messages (en_prims E) (nd_store n) limit). \<forall>x y z rest.
        sm_sender m = [0, 36, 8, 1, 18, 32] @ [x, y, z] @ rest \<and> utf8_lead x = None \<and> utf8_lead y = None \<and> utf8_lead z = None
          \<and> 2 \<le> length rest \<longrightarrow> show_history E limit n = None)"
proof -
  have exact: "show_history E limit n = None \<longleftrightarrow> (\<exists>m \<in> set (get_recent_messages (en_prims E) (nd_store n) limit).
      let t = from_utf8_lossy (sm_sender m) in 16 < length t \<and> 0x80 \<le> t ! 13 \<and> t ! 13 \<le> 0xBF)"
    by (simp only: show_history_def print_all_None history_line_None)
  have "let t = from_utf8_lossy (sm_sender m) in 16 < length t \<and> 0x80 \<le> t ! 13 \<and> t ! 13 \<le> 0xBF"
    if "sm_sender m = [0, 36, 8, 1, 18, 32] @ [x, y, z] @ rest" "utf8_lead x = None" "utf8_lead y = None" "utf8_lead z = None" "2 \<le> length rest"
    for m x y z rest
  proof -
    have "2 \<le> length (from_utf8_lossy rest)" using that(5) lossy_longer [of "[]" "[]" rest] by (simp add: from_utf8_lossy_def)
    moreover have "from_utf8_lossy (sm_sender m)
        = [0, 36, 8, 1, 18, 32] @ replacement @ replacement @ replacement @ from_utf8_lossy rest"
      using that(2-4) by (simp add: that(1) from_utf8_lossy_def) (simp add: utf8_lead_def)
    ultimately show ?thesis by (simp add: replacement_def)
  qed
  then show ?thesis using exact by blast
qed

definition toy_foreign :: bytes where
  "toy_foreign = [0, 36, 8, 1, 18, 32, 255, 255, 255] @ replicate 29 7"

theorem history_panics_witness:
  "\<forall>i. show_history (toy_env 1) 20 (new_node i False
     (snd (store_message toy_prims (replicate 12 0) 100 (empty_store [1]) toy_foreign [5] (ascii ''hi'') 9)) 100) = None"
proof
  fix i
  let ?n = "new_node i False
     (snd (store_message toy_prims (replicate 12 0) 100 (empty_store [1]) toy_foreign [5] (ascii ''hi'') 9)) 100"
  let ?m = "\<lparr> sm_id = 1, sm_sender = toy_foreign, sm_recipient = [5], sm_ciphertext = ascii ''hi'', sm_timestamp = 100, sm_ttl = 9 \<rparr>"
  have "decrypt_at_rest toy_prims (nd_store ?n) (encrypt_at_rest toy_prims (empty_store [1]) (replicate 12 0) (ascii ''hi'')) = Inr (ascii ''hi'')"
    using at_rest_roundtrip [OF toy_laws(1,2), of "replicate 12 0" "nd_store ?n" "empty_store [1]" "ascii ''hi''"]
    by (simp add: new_node_def store_message_def NONCE_LEN_def empty_store_def Let_def)
  then have "get_recent_messages toy_prims (nd_store ?n) 20 = [?m]"
    by (simp add: get_recent_messages_def new_node_def store_message_def empty_store_def Let_def decrypt_message_row_def map_filter_simps)
  moreover have "sm_sender ?m = [0, 36, 8, 1, 18, 32] @ [255, 255, 255] @ replicate 29 7" by (simp add: toy_foreign_def)
  moreover have "utf8_lead 255 = None" by (simp add: utf8_lead_def)
  ultimately show "show_history (toy_env 1) 20 ?n = None"
    using history_panics [of "toy_env 1" 20 ?n] by fastforce
qed

end
