(* ===== verification/Gui.thy ===== *)
theory Gui
  imports Views ReplProps
begin

text \<open>
  The commands of the desktop window, \<open>src/src/gui/app.rs\<close>: each parses its arguments, puts one command on the
  node's channel and, for a query, waits for the answer.  \<open>up\<close> says whether the node still reads the channel.
\<close>

datatype invoke =
    GetPeerId
  | GetContacts
  | GetMessages bytes
  | SendMessage bytes bytes
  | InvokeAddContact bytes bytes
  | GetGroups
  | GetGroupMessages bytes
  | InvokeCreateGroup bytes "bytes list"
  | SendGroupMessage bytes bytes
  | AddGroupMember bytes bytes
  | RemoveGroupMember bytes bytes
  | InvokeLeaveGroup bytes

datatype query = QueryPeerId | QueryContacts | QueryMessages bytes | QueryGroups | QueryGroupMessages bytes

datatype answer =
    AnswerPeerId bytes
  | AnswerContacts "contact_dto list"
  | AnswerMessages "message_dto list"
  | AnswerGroups "group_dto list"
  | Done

definition parse_gid :: "outside \<Rightarrow> bytes \<Rightarrow> repl_error + bytes" where
  "parse_gid W s = map_sum BadGroupId id (parse_hex32 W s)"

definition parse_peer :: "outside \<Rightarrow> bytes \<Rightarrow> repl_error + bytes" where
  "parse_peer W s = (case os_parse_peer W s of None \<Rightarrow> Inl BadPeer | Some p \<Rightarrow> Inr p)"

definition alias_of :: "bytes \<Rightarrow> bytes option" where
  "alias_of alias = (if trim alias = [] then None else Some (trim alias))"

text \<open>The arguments of a command: a query to be answered, or a command to be executed.\<close>
definition gui_command :: "outside \<Rightarrow> invoke \<Rightarrow> repl_error + query + node_command" where
  "gui_command W click =
     (case click of
        GetPeerId \<Rightarrow> Inr (Inl QueryPeerId)
      | GetContacts \<Rightarrow> Inr (Inl QueryContacts)
      | GetMessages contact \<Rightarrow> map_sum id (\<lambda>p. Inl (QueryMessages p)) (parse_peer W contact)
      | SendMessage recipient content \<Rightarrow> map_sum id (\<lambda>p. Inr (Send p content)) (parse_peer W recipient)
      | InvokeAddContact peer alias \<Rightarrow> map_sum id (\<lambda>p. Inr (AddContact p (alias_of alias))) (parse_peer W peer)
      | GetGroups \<Rightarrow> Inr (Inl QueryGroups)
      | GetGroupMessages gid \<Rightarrow> map_sum id (\<lambda>g. Inl (QueryGroupMessages g)) (parse_gid W gid)
      | InvokeCreateGroup name members \<Rightarrow>
          (case parse_peers W members of None \<Rightarrow> Inl BadMember | Some ms \<Rightarrow> Inr (Inr (GroupCreate name ms)))
      | SendGroupMessage gid content \<Rightarrow> map_sum id (\<lambda>g. Inr (GroupSend g content)) (parse_gid W gid)
      | AddGroupMember gid peer \<Rightarrow>
          (case parse_gid W gid of Inl e \<Rightarrow> Inl e | Inr g \<Rightarrow> map_sum id (\<lambda>p. Inr (GroupAdd g p)) (parse_peer W peer))
      | RemoveGroupMember gid peer \<Rightarrow>
          (case parse_gid W gid of Inl e \<Rightarrow> Inl e | Inr g \<Rightarrow> map_sum id (\<lambda>p. Inr (GroupRemove g p)) (parse_peer W peer))
      | InvokeLeaveGroup gid \<Rightarrow> map_sum id (\<lambda>g. Inr (GroupLeave g)) (parse_gid W gid))"

text \<open>The answers of the event loop.\<close>
fun answer_query :: "env \<Rightarrow> outside \<Rightarrow> query \<Rightarrow> node \<Rightarrow> answer" where
  "answer_query E W QueryPeerId n = AnswerPeerId (os_show_peer W (my_pid n))"
| "answer_query E W QueryContacts n = AnswerContacts (map (contact_dto_of W) (query_contacts E n))"
| "answer_query E W (QueryMessages peer) n = AnswerMessages (map (message_dto_of W) (query_messages E peer n))"
| "answer_query E W QueryGroups n = AnswerGroups (map (group_dto_of (en_prims E) W) (query_groups E n))"
| "answer_query E W (QueryGroupMessages gid) n = AnswerMessages (map (message_dto_of W) (query_group_messages E gid n))"

text \<open>\<open>round_trip\<close>, \<open>send\<close>: the command reaches the node when its loop still runs.\<close>
definition gui_invoke :: "env \<Rightarrow> outside \<Rightarrow> bool \<Rightarrow> invoke \<Rightarrow> node \<Rightarrow> (repl_error + answer) \<times> node" where
  "gui_invoke E W up click n =
     (case gui_command W click of
        Inl e \<Rightarrow> (Inl e, n)
      | Inr c \<Rightarrow>
          if \<not> up then (Inl NodeGone, n)
          else (case c of Inl q \<Rightarrow> (Inr (answer_query E W q n), n) | Inr cmd \<Rightarrow> (Inr Done, handle_command E cmd n)))"

section \<open>The two surfaces agree\<close>

text \<open>How the window expresses a command of the terminal; it has no \<open>connect\<close>.\<close>
fun invoke_of :: "outside \<Rightarrow> node_command \<Rightarrow> invoke option" where
  "invoke_of W (Send p t) = Some (SendMessage (os_show_peer W p) t)"
| "invoke_of W (GroupCreate name ms) = Some (InvokeCreateGroup name (map (os_show_peer W) ms))"
| "invoke_of W (GroupSend g t) = Some (SendGroupMessage (os_hex_encode W g) t)"
| "invoke_of W (GroupAdd g p) = Some (AddGroupMember (os_hex_encode W g) (os_show_peer W p))"
| "invoke_of W (GroupRemove g p) = Some (RemoveGroupMember (os_hex_encode W g) (os_show_peer W p))"
| "invoke_of W (GroupLeave g) = Some (InvokeLeaveGroup (os_hex_encode W g))"
| "invoke_of W cmd = None"

lemma gid_read: "gid_word W g \<Longrightarrow> parse_gid W (os_hex_encode W g) = Inr g"
  using gid_parsed [of W g] by (simp add: parse_gid_def parse_group_id_hex_def)

lemma peer_read: "peer_word W p \<Longrightarrow> parse_peer W (os_show_peer W p) = Inr p"
  by (simp add: parse_peer_def peer_word_def)

text \<open>C23: The terminal and the window understand what they can express, and do the same thing.  Every request
  has a line that submits exactly it: peers, group ids, members and message come out as they were typed in.
  A command that can also be clicked leaves the node, when it is clicked, as that command does.\<close>
theorem surfaces_agree:
  assumes "typable W q"
  shows "repl_line P W me True (typed W q) = Submitted q
     \<and> (\<forall>cmd click. q = Act cmd \<and> invoke_of W cmd = Some click \<longrightarrow>
          gui_invoke E W True click n = (Inr Done, node_step E (Command cmd) n))"
proof (intro conjI allI impI)
  show "repl_line P W me True (typed W q) = Submitted q" by (rule typed_understood [OF assms])
  fix cmd click assume "q = Act cmd \<and> invoke_of W cmd = Some click"
  then show "gui_invoke E W True click n = (Inr Done, node_step E (Command cmd) n)"
    using assms by (cases cmd) (auto simp: gui_invoke_def gui_command_def gid_read peer_read members_parsed)
qed

theorem surfaces_agree_witness:
  "\<forall>P me E n. repl_line P toy_outside me True (ascii ''send B  hi there'') = Submitted (Act (Send (ascii ''B'') (ascii '' hi there'')))
   \<and> gui_invoke E toy_outside True (SendMessage (ascii ''B'') (ascii '' hi there'')) n
       = (Inr Done, try_send_or_queue E (ascii ''B'') (ascii '' hi there'') n)"
proof -
  have "peer_word toy_outside (ascii ''B'')" "unspaced_end (ascii '' hi there'')"
    by (simp_all add: peer_word_def toy_outside_def unspaced_end_def ascii_def plain_solid plain_byte_def
        white_space_def strip_char_def)
  then show ?thesis using surfaces_agree [of toy_outside "Act (Send (ascii ''B'') (ascii '' hi there''))"]
    by (simp add: toy_outside_def ascii_def)
qed

end
