(* ===== verification/Push.thy ===== *)
theory Push
  imports Gui "HOL-Library.Sublist"
begin

text \<open>
  Push notifications from the node to the desktop window: the notifications \<open>node_step\<close> emits, the bounded channel of
  \<open>src/src/entry.rs\<close> that drops what does not fit, and the task of \<open>src/src/gui/app.rs\<close> that forwards to the webview.
\<close>

datatype gui_event = DmReceived bytes | GroupMessageReceived bytes bytes

text \<open>How \<open>receive_text\<close> and \<open>process_group_message\<close> write the ids they announce.\<close>
fun gui_event_of :: "outside \<Rightarrow> action \<Rightarrow> gui_event option" where
  "gui_event_of W (GuiDmReceived peer) = Some (DmReceived (os_show_peer W peer))"
| "gui_event_of W (GuiGroupMessage gid sender) = Some (GroupMessageReceived (os_hex_encode W gid) (os_show_peer W sender))"
| "gui_event_of W _ = None"

definition GUI_CHANNEL_LEN :: nat where "GUI_CHANNEL_LEN = 32"

text \<open>The channel, \<open>None\<close> when the node runs without a window.\<close>
definition gui_channel :: "bool \<Rightarrow> gui_event list option" where
  "gui_channel windowed = (if windowed then Some [] else None)"

text \<open>\<open>try_send\<close> on the channel.\<close>
definition emit_gui :: "gui_event \<Rightarrow> gui_event list option \<Rightarrow> gui_event list option" where
  "emit_gui ev tx = (case tx of None \<Rightarrow> None | Some q \<Rightarrow> Some (if length q < GUI_CHANNEL_LEN then q @ [ev] else q))"

text \<open>An event of the webview: its name and its payload.\<close>
datatype window_payload = PeerPayload bytes | GroupPayload bytes bytes

fun forward_event :: "gui_event \<Rightarrow> bytes \<times> window_payload" where
  "forward_event (DmReceived peer) = (ascii ''dm-received'', PeerPayload peer)"
| "forward_event (GroupMessageReceived gid sender) = (ascii ''group-msg-received'', GroupPayload gid sender)"

text \<open>One interleaving of the node's pushes and the rounds of the forwarder.\<close>
datatype push_event = Push gui_event | Pump

fun push_step :: "push_event \<Rightarrow> gui_event list option \<times> (bytes \<times> window_payload) list
    \<Rightarrow> gui_event list option \<times> (bytes \<times> window_payload) list" where
  "push_step (Push ev) (tx, shown) = (emit_gui ev tx, shown)"
| "push_step Pump (tx, shown) = (case tx of Some (ev # q) \<Rightarrow> (Some q, shown @ [forward_event ev]) | _ \<Rightarrow> (tx, shown))"

definition push_run :: "push_event list \<Rightarrow> gui_event list option \<times> (bytes \<times> window_payload) list" where
  "push_run evs = fold push_step evs (gui_channel True, [])"

definition pushed :: "push_event list \<Rightarrow> gui_event list" where
  "pushed evs = List.map_filter (\<lambda>e. case e of Push ev \<Rightarrow> Some ev | Pump \<Rightarrow> None) evs"

lemma push_run_snoc: "push_run (evs @ [e]) = push_step e (push_run evs)"
  by (simp add: push_run_def)

lemma pushed_snoc: "pushed (evs @ [e]) = pushed evs @ (case e of Push ev \<Rightarrow> [ev] | Pump \<Rightarrow> [])"
  by (simp add: pushed_def map_filter_def split: push_event.split)

text \<open>Whatever the interleaving, the window is told in the order of the node, never twice, and the channel stays bounded.
  Only a push onto a full channel is lost.\<close>
lemma window_told_in_order:
  "\<exists>q. fst (push_run evs) = Some q \<and> length q \<le> GUI_CHANNEL_LEN \<and> subseq (snd (push_run evs) @ map forward_event q) (map forward_event (pushed evs))"
proof (induction evs rule: rev_induct)
  case Nil
  show ?case by (simp add: push_run_def gui_channel_def pushed_def)
next
  case (snoc e evs)
  then obtain q where q: "fst (push_run evs) = Some q" "length q \<le> GUI_CHANNEL_LEN"
    "subseq (snd (push_run evs) @ map forward_event q) (map forward_event (pushed evs))" by blast
  obtain shown where r: "push_run evs = (Some q, shown)" using q(1) by (cases "push_run evs") simp
  show ?case
  proof (cases e)
    case (Push ev)
    have "subseq ((shown @ map forward_event q) @ [forward_event ev]) (map forward_event (pushed evs) @ [forward_event ev])"
      "subseq (shown @ map forward_event q) (map forward_event (pushed evs) @ [forward_event ev])"
      using q(3) r by (simp_all only: snd_conv subseq_append subseq_rev_drop_many)
    then show ?thesis using Push q(2) r by (simp add: push_run_snoc pushed_snoc emit_gui_def)
  next
    case Pump
    then show ?thesis using q r by (cases q) (simp_all add: push_run_snoc pushed_snoc)
  qed
qed

lemma window_told_all:
  assumes "\<And>k. k \<le> length evs \<Longrightarrow> length (the (fst (push_run (take k evs)))) < GUI_CHANNEL_LEN"
  shows "\<exists>q. fst (push_run evs) = Some q \<and> snd (push_run evs) @ map forward_event q = map forward_event (pushed evs)"
  using assms
proof (induction evs rule: rev_induct)
  case Nil
  show ?case by (simp add: push_run_def gui_channel_def pushed_def)
next
  case (snoc e evs)
  have *: "length (the (fst (push_run (take k evs)))) < GUI_CHANNEL_LEN" if "k \<le> length evs" for k
    using snoc.prems [of k] that by simp
  then obtain q where q: "fst (push_run evs) = Some q" "snd (push_run evs) @ map forward_event q = map forward_event (pushed evs)"
    using snoc.IH by blast
  obtain shown where r: "push_run evs = (Some q, shown)" using q(1) by (cases "push_run evs") simp
  have "length q < GUI_CHANNEL_LEN" using * [of "length evs"] r by simp
  then show ?case using q r by (cases e; cases q) (auto simp: push_run_snoc pushed_snoc emit_gui_def)
qed

end
