(* ===== verification/Network.thy ===== *)
theory Network
  imports Startup
begin

text \<open>
  The protocols a node speaks: \<open>Behaviour::new\<close> of \<open>src/src/network/behaviour.rs\<close> as the settings it hands to
  libp2p.  What libp2p does with them is not modelled; whether it accepts them is an argument.
\<close>

text \<open>The answers of libp2p to the settings: the Gossipsub configuration and behaviour, the subscription, the mDNS socket.\<close>
record libp2p_answers =
  la_gossip_config :: bool
  la_gossip_new :: bool
  la_subscribe :: bool
  la_mdns :: bool

record behaviour =
  bh_peer :: bytes
  bh_kad_protocol :: bytes
  bh_gossip_heartbeat_secs :: nat
  bh_gossip_strict :: bool
  bh_gossip_signer :: bytes
  bh_topics :: "bytes list"
  bh_mdns :: bool
  bh_identify_protocol :: bytes
  bh_agent_version :: bytes
  bh_dm_protocol :: bytes
  bh_prekey_protocol :: bytes
  bh_relay_server :: bool

text \<open>The two \<open>expect\<close>s are panics, the two uses of \<open>?\<close> errors.\<close>
datatype behaviour_error = GossipConfigPanic | GossipParametersPanic | SubscribeFailed | MdnsFailed

text \<open>\<open>message_id_fn\<close>: the id of a Gossipsub message is the decimal hash of its data alone.\<close>
definition gossip_message_id :: "(bytes \<Rightarrow> u64) \<Rightarrow> bytes \<Rightarrow> bytes" where
  "gossip_message_id hasher data = decimal (unat (hasher data))"

definition new_behaviour :: "libp2p_answers \<Rightarrow> bytes \<Rightarrow> identity \<Rightarrow> bool \<Rightarrow> bool \<Rightarrow> behaviour_error + behaviour" where
  "new_behaviour L pkg_version i enable_relay_server disable_mdns =
     (if \<not> la_gossip_config L then Inl GossipConfigPanic
      else if \<not> la_gossip_new L then Inl GossipParametersPanic
      else if \<not> la_subscribe L then Inl SubscribeFailed
      else if \<not> disable_mdns \<and> \<not> la_mdns L then Inl MdnsFailed
      else Inr \<lparr> bh_peer = id_peer_id i, bh_kad_protocol = ascii ''/ME55/kad/1.0.0'', bh_gossip_heartbeat_secs = 10,
             bh_gossip_strict = True, bh_gossip_signer = id_keypair i, bh_topics = [ascii ''/ME55/global''],
             bh_mdns = (\<not> disable_mdns), bh_identify_protocol = ascii ''/ME55/1.0.0'',
             bh_agent_version = ascii ''ME55/'' @ pkg_version, bh_dm_protocol = ascii ''/ME55/direct-message/2.0.0'',
             bh_prekey_protocol = ascii ''/ME55/prekey/1.0.0'', bh_relay_server = enable_relay_server \<rparr>)"

text \<open>The flags that reach the behaviour: a node started with \<open>--no-mdns\<close> neither multicasts nor fails for want of it, and it relays for
  others exactly when told to.\<close>
lemma behaviour_of_flags:
  assumes "new_behaviour L v i (cf_enable_relay_server (config_of a dir key)) (cf_disable_mdns (config_of a dir key)) = r"
  shows "(\<forall>b. r = Inr b \<longrightarrow> bh_mdns b = (\<not> ca_no_mdns a) \<and> bh_relay_server b = ca_relay_server a \<and> bh_peer b = id_peer_id i)
     \<and> (ca_no_mdns a \<longrightarrow> r \<noteq> Inl MdnsFailed)"
  using assms by (auto simp: new_behaviour_def config_of_def split: if_splits)

text \<open>Messages and prekeys are negotiated under different names, so neither handler is offered the other's requests.\<close>
lemma protocols_apart:
  "new_behaviour L v i s m = Inr b \<Longrightarrow> distinct [bh_kad_protocol b, bh_identify_protocol b, bh_dm_protocol b, bh_prekey_protocol b]"
  by (auto simp: new_behaviour_def ascii_def split: if_splits)

end
