(* ===== verification/Serde.thy ===== *)
theory Serde
  imports Prelude
begin

text \<open>
  \<open>src/src/serde_helpers.rs\<close>: the adapters that write a 64-byte signature as a sequence of 64 numbers.  A
  deserializer offers the elements of a sequence one by one; an element is \<open>None\<close> when it is not a \<open>u8\<close>.
\<close>

datatype seq_error = InvalidLength nat | BadElement nat

definition serialize_arr64 :: "bytes \<Rightarrow> byte option list" where
  "serialize_arr64 arr = map Some arr"

text \<open>\<open>visit_seq\<close>: \<open>i\<close> elements read so far, \<open>k\<close> still to come.\<close>
fun visit_seq :: "nat \<Rightarrow> nat \<Rightarrow> byte option list \<Rightarrow> seq_error + bytes \<times> byte option list" where
  "visit_seq i 0 elems = Inr ([], elems)"
| "visit_seq i (Suc k) [] = Inl (InvalidLength i)"
| "visit_seq i (Suc k) (None # elems) = Inl (BadElement i)"
| "visit_seq i (Suc k) (Some b # elems) =
     (case visit_seq (Suc i) k elems of Inl e \<Rightarrow> Inl e | Inr (bs, rest) \<Rightarrow> Inr (b # bs, rest))"

definition deserialize_arr64 :: "byte option list \<Rightarrow> seq_error + bytes \<times> byte option list" where
  "deserialize_arr64 elems = visit_seq 0 64 elems"

definition serialize_opt_arr64 :: "bytes option \<Rightarrow> byte option list option" where
  "serialize_opt_arr64 opt = map_option serialize_arr64 opt"

definition deserialize_opt_arr64 :: "byte option list option \<Rightarrow> seq_error + bytes option" where
  "deserialize_opt_arr64 opt = (case opt of None \<Rightarrow> Inr None | Some elems \<Rightarrow> map_sum id (Some \<circ> fst) (deserialize_arr64 elems))"

section \<open>Round trip and length\<close>

lemma visit_serialized: "visit_seq i (length arr) (serialize_arr64 arr @ rest) = Inr (arr, rest)"
  by (induction arr arbitrary: i) (simp_all add: serialize_arr64_def)

lemma visit_length: "visit_seq i k elems = Inr (bs, rest) \<Longrightarrow> length bs = k \<and> elems = map Some bs @ rest"
  by (induction i k elems arbitrary: bs rest rule: visit_seq.induct) (auto split: sum.splits)

lemma arr64_roundtrip: "length arr = 64 \<Longrightarrow> deserialize_arr64 (serialize_arr64 arr @ rest) = Inr (arr, rest)"
  unfolding deserialize_arr64_def using visit_serialized [of 0 arr rest] by simp

text \<open>A sequence is accepted exactly when it is the serialized form of 64 bytes, followed by anything.\<close>
lemma arr64_accepts: "deserialize_arr64 elems = Inr (bs, rest) \<longleftrightarrow> length bs = 64 \<and> elems = serialize_arr64 bs @ rest"
  using arr64_roundtrip visit_length by (fastforce simp: deserialize_arr64_def serialize_arr64_def)

lemma opt_arr64_roundtrip:
  "(\<And>arr. opt = Some arr \<Longrightarrow> length arr = 64) \<Longrightarrow> deserialize_opt_arr64 (serialize_opt_arr64 opt) = Inr opt"
  using arr64_roundtrip [where rest = "[]"] by (cases opt) (auto simp: deserialize_opt_arr64_def serialize_opt_arr64_def)

end
