(* ===== verification/MailboxDelivery.thy ===== *)
theory MailboxDelivery
  imports NodeDelivery NodeKeys
begin

text \<open>
  The path of a message to a peer that is not connected: encrypted once, put into the DHT under the
  keys of the hour (\<open>put_mailbox_drop_bytes\<close>), found by the recipient's poll of that hour's provider
  key, fetched under the sender's drop key, accepted like a direct message, and acknowledged.
  The DHT itself is the pairing of a query with the record put under the same key.
\<close>

section \<open>Queries leave everything else alone\<close>

text \<open>\<open>n'\<close> has issued queries since \<open>n\<close>: their ids are new, those of before are kept.\<close>
definition queried :: "node \<Rightarrow> node \<Rightarrow> bool" where
  "queried n n' \<longleftrightarrow> nd_identity n' = nd_identity n \<and> nd_sessions n' = nd_sessions n \<and> nd_store n' = nd_store n
     \<and> nd_clock n' = nd_clock n \<and> nd_ack_queries n' = nd_ack_queries n \<and> nd_queries n \<le> nd_queries n'
     \<and> set (nd_out n) \<subseteq> set (nd_out n')
     \<and> (\<forall>q < nd_queries n. nd_provider_queries n' q = nd_provider_queries n q \<and> nd_record_queries n' q = nd_record_queries n q)"

lemma queried_refl [simp, intro]: "queried n n"
  by (simp add: queried_def)

lemma queried_trans: "queried a b \<Longrightarrow> queried b c \<Longrightarrow> queried a c"
  by (auto simp: queried_def)

lemma queried_fold: "(\<And>x n. queried n (f x n)) \<Longrightarrow> queried n (fold f xs n)"
  by (induction xs arbitrary: n) (auto intro: queried_trans)

text \<open>Each element of a loop of queries gets its turn, and what it set up is kept.\<close>
lemma queried_fold_member:
  assumes "x \<in> set xs" "\<And>y n. queried n (f y n)"
  shows "\<exists>n1. queried n n1 \<and> queried (f x n1) (fold f xs n)"
proof -
  obtain us vs where "xs = us @ x # vs" using assms(1) by (meson split_list)
  then show ?thesis using queried_fold [where f = f, OF assms(2)] by auto
qed

lemma queried_steps [intro, simp]:
  "queried n (poll_provider_slot E slot n)" "queried n (fetch_record key slot sender n)"
  by (auto simp: queried_def poll_provider_slot_def fetch_record_def get_providers_def get_record_def emit_def)

lemma queried_session_slots [intro, simp]: "queried n (poll_session_slots E slots s n)"
  by (auto simp: poll_session_slots_def intro: queried_fold)

section \<open>The recipient's side\<close>

text \<open>An acknowledgement query is never pending under an id that has not been given out.\<close>
definition acks_issued :: "node \<Rightarrow> bool" where
  "acks_issued n \<longleftrightarrow> (\<forall>q \<ge> nd_queries n. nd_ack_queries n q = None)"

lemma acks_issued_new: "acks_issued (new_node i d s t)" "acks_issued (restart n)"
  by (simp_all add: acks_issued_def restart_def new_node_def)

lemma acks_issued_steps:
  "acks_issued n \<Longrightarrow> acks_issued (poll_ack key i n)" "acks_issued n \<Longrightarrow> queried n n' \<Longrightarrow> acks_issued n'"
  "acks_issued n \<Longrightarrow> acks_issued (handle_mailbox_ack_result q found n)"
  by (auto simp: acks_issued_def poll_ack_def get_record_def emit_def queried_def handle_mailbox_ack_result_def Let_def split: option.splits)

text \<open>\<open>n'\<close> is \<open>n\<close> after queries and a move of the poll cursor.\<close>
definition polled :: "node \<Rightarrow> node \<Rightarrow> bool" where
  "polled n n' \<longleftrightarrow> nd_identity n' = nd_identity n \<and> nd_sessions n' = nd_sessions n \<and> nd_clock n' = nd_clock n
     \<and> (\<exists>c. nd_store n' = (nd_store n)\<lparr> st_last_polled := c \<rparr>)
     \<and> nd_ack_queries n' = nd_ack_queries n \<and> nd_queries n \<le> nd_queries n'"

lemma queried_polled: "queried n n' \<Longrightarrow> polled n n'"
  by (auto simp: queried_def polled_def intro: exI [of _ "st_last_polled (nd_store n)"])

lemma polled_trans: "polled a b \<Longrightarrow> polled b c \<Longrightarrow> polled a c"
  by (auto simp: polled_def)

lemma no_session_iff:
  "no_session E p n \<longleftrightarrow> map_of (nd_sessions n) p = None
     \<and> (\<forall>blob. load_session (en_prims E) (nd_store n) p = Inr (Some blob) \<longrightarrow> dec_session (en_codecs E) blob = None)"
  by (auto simp: no_session_def restore_session_if_persisted_def split: option.splits sum.splits)

lemma last_polled_loads [simp]:
  "load_session P (s\<lparr> st_last_polled := c \<rparr>) = load_session P s" "load_prekey (s\<lparr> st_last_polled := c \<rparr>) = load_prekey s"
  "load_otpk_private P (s\<lparr> st_last_polled := c \<rparr>) = load_otpk_private P s"
proof -
  have "decrypt_at_rest P (s\<lparr> st_last_polled := c \<rparr>) = decrypt_at_rest P s"
    by (rule decrypt_at_rest_dek) simp
  then show "load_session P (s\<lparr> st_last_polled := c \<rparr>) = load_session P s" "load_prekey (s\<lparr> st_last_polled := c \<rparr>) = load_prekey s"
    "load_otpk_private P (s\<lparr> st_last_polled := c \<rparr>) = load_otpk_private P s"
    by (simp_all add: load_session_def load_otpk_private_def load_prekey_def fun_eq_iff split: option.split)
qed

lemma contact_polled: "polled b b' \<Longrightarrow> contact_ok E E' a b \<Longrightarrow> contact_ok E E' a b'"
  by (auto simp: polled_def contact_ok_def can_initiate_def no_session_iff holds_prekeys_of_def cached_prekey_def owns_identity_def)

text \<open>The poll asks who provides the slot of any hour in its window.\<close>
lemma poll_asks:
  assumes "mailbox_last_polled_slot (nd_store b) < slot" "slot \<le> slot_id_for (nd_clock b)" "slot_id_for (nd_clock b) \<le> slot + 23"
  shows "\<exists>q. KadGetProviders q (slot_kad_key (en_prims E) (my_pid b) slot) \<in> set (nd_out (poll_mailbox_slots E b))
     \<and> nd_provider_queries (poll_mailbox_slots E b) q = Some slot \<and> polled b (poll_mailbox_slots E b)"
proof -
  let ?slots = "[poll_start (mailbox_last_polled_slot (nd_store b)) (slot_id_for (nd_clock b))..slot_id_for (nd_clock b)]"
  let ?n = "fold (poll_session_slots E ?slots) (nd_sessions (fold (poll_provider_slot E) ?slots b)) (fold (poll_provider_slot E) ?slots b)"
  have m: "slot \<in> set ?slots" using assms by (simp add: poll_start_def)
  then obtain n1 where n1: "queried b n1" "queried (poll_provider_slot E slot n1) (fold (poll_provider_slot E) ?slots b)"
    using queried_fold_member by (metis queried_steps(1))
  have "queried (poll_provider_slot E slot n1) ?n" using n1(2) by (auto intro: queried_trans queried_fold)
  moreover have "queried b ?n" by (intro queried_trans [OF queried_fold queried_fold]) auto
  moreover have "KadGetProviders (nd_queries n1) (slot_kad_key (en_prims E) (my_pid b) slot) \<in> set (nd_out (poll_provider_slot E slot n1))
     \<and> nd_provider_queries (poll_provider_slot E slot n1) (nd_queries n1) = Some slot
     \<and> nd_queries n1 < nd_queries (poll_provider_slot E slot n1)"
    using n1(1) by (simp add: poll_provider_slot_def get_providers_def emit_def queried_def)
  ultimately have n: "KadGetProviders (nd_queries n1) (slot_kad_key (en_prims E) (my_pid b) slot) \<in> set (nd_out ?n)"
    "nd_provider_queries ?n (nd_queries n1) = Some slot" "polled b ?n"
    by (auto simp: queried_def intro!: queried_polled)
  have "\<not> slot_id_for (nd_clock b) < poll_start (mailbox_last_polled_slot (nd_store b)) (slot_id_for (nd_clock b))"
    using assms by (simp add: poll_start_def)
  then have "poll_mailbox_slots E b = (if slot_id_for (nd_clock b) > 0
      then ?n\<lparr> nd_store := mailbox_set_last_polled_slot (nd_store ?n) (slot_id_for (nd_clock b) - 1) \<rparr> else ?n)"
    by (simp only: poll_mailbox_slots_def Let_def if_False)
  moreover have "polled b (?n\<lparr> nd_store := mailbox_set_last_polled_slot (nd_store ?n) c \<rparr>)" for c
    using n(3) by (auto simp: polled_def mailbox_set_last_polled_slot_def)
  ultimately show ?thesis using n by (intro exI [of _ "nd_queries n1"]) simp
qed

text \<open>A provider other than the node itself is asked for its drop.\<close>
lemma providers_fetch:
  assumes "nd_provider_queries b q = Some slot" "sender \<in> set providers" "sender \<noteq> my_pid b"
  shows "\<exists>r \<ge> nd_queries b. KadGetRecord r (drop_kad_key (en_prims E) (my_pid b) sender slot)
         \<in> set (nd_out (handle_mailbox_providers_result E q providers b))
     \<and> nd_record_queries (handle_mailbox_providers_result E q providers b) r = Some (slot, sender)
     \<and> polled b (handle_mailbox_providers_result E q providers b)"
proof -
  let ?f = "\<lambda>sender n. if sender = my_pid n then n else fetch_record (drop_kad_key (en_prims E) (my_pid n) sender slot) slot sender n"
  have f: "queried n (?f s n)" for s n by simp
  obtain n1 where n1: "queried b n1" "queried (?f sender n1) (fold ?f providers b)"
    using queried_fold_member [OF assms(2), of ?f] f by blast
  have "KadGetRecord (nd_queries n1) (drop_kad_key (en_prims E) (my_pid b) sender slot) \<in> set (nd_out (?f sender n1))
     \<and> nd_record_queries (?f sender n1) (nd_queries n1) = Some (slot, sender) \<and> nd_queries n1 < nd_queries (?f sender n1)"
    using n1(1) assms(3) by (simp add: fetch_record_def get_record_def emit_def queried_def)
  moreover have "polled b (fold ?f providers b)" by (rule queried_polled, rule queried_fold, rule f)
  ultimately show ?thesis using n1 assms(1)
    by (intro exI [of _ "nd_queries n1"]) (auto simp: handle_mailbox_providers_result_def queried_def)
qed

lemma process_incoming_dm_pid: "process_incoming_dm E p w n = (r, n') \<Longrightarrow> my_pid n' = my_pid n"
  using fixed.incoming [of E p w n r n' "settings n"] by (simp add: settings_def)

lemma put_record_received: "received P n sender text \<Longrightarrow> received P (snd (put_record E k v n)) sender text"
  by (simp add: put_record_def received_def)

lemma publish_mailbox_ack_received:
  "received P n sender text \<Longrightarrow> received P (publish_mailbox_ack E peer slot n) sender text"
  by (auto simp: publish_mailbox_ack_def Let_def intro: put_record_received split: option.split)

lemma publish_mailbox_ack_puts:
  assumes "\<And>out k v. en_put_ok E out k v"
  shows "KadPutRecord (ack_kad_key (en_prims E) (my_pid n) peer slot) (my_pid n) \<in> set (nd_out (publish_mailbox_ack E peer slot n))"
  using assms by (simp add: publish_mailbox_ack_def put_record_def emit_def Let_def split: option.split)

section \<open>The sender's side\<close>

lemma put_mailbox_drop_emits:
  assumes "\<And>out k v. en_put_ok E out k v"
  shows "KadStartProviding (slot_kad_key (en_prims E) peer (slot_id_for (nd_clock n))) \<in> set (nd_out (put_mailbox_drop_bytes E peer wire n))
     \<and> KadPutRecord (drop_kad_key (en_prims E) peer (my_pid n) (slot_id_for (nd_clock n))) wire \<in> set (nd_out (put_mailbox_drop_bytes E peer wire n))"
  using assms by (simp add: put_mailbox_drop_bytes_def put_record_def draw_def emit_def Let_def split: option.split)

lemma ratchet_encrypt_and_wrap_bytes_frame:
  "ratchet_encrypt_and_wrap_bytes E peer text hello kind n = (r, n') \<Longrightarrow> nd_identity n' = nd_identity n \<and> nd_clock n' = nd_clock n"
  by (auto simp: ratchet_encrypt_and_wrap_bytes_def build_envelope_def draw_def Let_def
      split: option.splits sum.splits prod.splits if_splits)

lemma build_x3dh_hello_frame:
  "build_x3dh_hello E peer k n = (hello, n') \<Longrightarrow> nd_identity n' = nd_identity n \<and> nd_clock n' = nd_clock n"
  by (auto simp: build_x3dh_hello_def encapsulate_for_def draw_def Let_def split: option.splits prod.splits)

text \<open>What an offline send to a peer without a session puts into the DHT.\<close>
lemma offline_send_drops:
  assumes "\<And>out k v. en_put_ok E out k v" "nd_connected a peer = None" "no_session E peer a" "cached_prekey a peer = Some k"
    and h: "build_x3dh_hello E peer k a = (hello, a1)"
    and w: "ratchet_encrypt_and_wrap_bytes E peer text (Some hello) 0 a1 = (Some (wire, ttl), a2)"
  shows "KadStartProviding (slot_kad_key (en_prims E) peer (slot_id_for (nd_clock a))) \<in> set (nd_out (node_step E (Command (Send peer text)) a))
     \<and> KadPutRecord (drop_kad_key (en_prims E) peer (my_pid a) (slot_id_for (nd_clock a))) wire
         \<in> set (nd_out (node_step E (Command (Send peer text)) a))"
proof -
  have fr: "nd_identity a2 = nd_identity a" "nd_clock a2 = nd_clock a"
    using ratchet_encrypt_and_wrap_bytes_frame [OF w] build_x3dh_hello_frame [OF h] by simp_all
  have "try_encrypt_offline E peer text a = (Some wire, a2)"
    using no_session_restore [OF assms(3)] assms(4) h w by (simp add: try_encrypt_offline_def ratchet_encrypt_and_wrap_def)
  then have "nd_out (node_step E (Command (Send peer text)) a) = nd_out (put_mailbox_drop_bytes E peer wire a2)"
    using assms(2) by (simp add: try_send_or_queue_def queue_offline_def draw_def)
  then show ?thesis using put_mailbox_drop_emits [where E = E and peer = peer and n = a2 and wire = wire, OF assms(1)] fr by simp
qed

section \<open>Property\<close>

text \<open>C3: A message to a peer that is not connected is delivered through the DHT.  Node \<open>a\<close> and \<open>b\<close> hold each
  other's keys and have no session; \<open>a\<close> sends while \<open>b\<close> is not connected.  Then \<open>a\<close> announces itself under \<open>b\<close>'s
  key of the current hour and puts the encrypted message under their drop key.  When \<open>b\<close>, within seven days and
  before 24 hours of slots have passed, polls for the first time since that hour, it asks for the providers of
  that key; told of \<open>a\<close> among any others it asks for the drop; and given the record it stores exactly the text
  under the identity of \<open>a\<close>, notifies the front end and puts the acknowledgement \<open>a\<close> polls for.\<close>
theorem mailbox_delivery:
  assumes keys: "contact_ok E E' a b" "my_pid a \<noteq> my_pid b" and offline: "nd_connected a (my_pid b) = None"
    and dht: "\<And>out k v. en_put_ok E out k v" "\<And>out k v. en_put_ok E' out k v" "acks_issued b"
    and clocks: "0 \<le> nd_clock a" "nd_clock a < 2 ^ 62" "0 \<le> nd_clock b" "nd_clock b \<le> nd_clock a + 604800"
    and slot: "slot = slot_id_for (nd_clock a)" "mailbox_last_polled_slot (nd_store b) < slot"
      "slot \<le> slot_id_for (nd_clock b)" "slot_id_for (nd_clock b) \<le> slot + 23"
  shows "\<exists>wire q. let P = en_prims E; a' = node_step E (Command (Send (my_pid b) text)) a; polling = node_step E' PollTick b in
     KadStartProviding (slot_kad_key P (my_pid b) slot) \<in> set (nd_out a')
     \<and> KadPutRecord (drop_kad_key P (my_pid b) (my_pid a) slot) wire \<in> set (nd_out a')
     \<and> KadGetProviders q (slot_kad_key P (my_pid b) slot) \<in> set (nd_out polling)
     \<and> (\<forall>providers. my_pid a \<in> set providers \<longrightarrow>
          (\<exists>r. let fetching = node_step E' (Behaviour (Kademlia (ProvidersFound q providers))) polling;
                   b' = node_step E' (Behaviour (Kademlia (RecordFound r wire))) fetching in
             KadGetRecord r (drop_kad_key P (my_pid b) (my_pid a) slot) \<in> set (nd_out fetching)
             \<and> received P b' (my_pid a) text
             \<and> KadPutRecord (ack_kad_key P (my_pid b) (my_pid a) slot) (my_pid b) \<in> set (nd_out b')))"
proof -
  let ?P = "en_prims E" and ?polling = "poll_mailbox_slots E' b"
  have P: "en_prims E' = ?P" using keys(1) by (simp add: contact_ok_def can_initiate_def)
  obtain hello a1 where h: "build_x3dh_hello E (my_pid b) (id_x25519_public (nd_identity b)) a = (hello, a1)" by fastforce
  obtain wire ttl a2 where w: "ratchet_encrypt_and_wrap_bytes E (my_pid b) text (Some hello) 0 a1 = (Some (wire, ttl), a2)"
    using first_message_accepted [OF keys(1) clocks h] by blast
  have "no_session E (my_pid b) a" "cached_prekey a (my_pid b) = Some (id_x25519_public (nd_identity b))"
    using keys(1) by (simp_all add: contact_ok_def can_initiate_def holds_prekeys_of_def)
  note drops = offline_send_drops [OF dht(1) offline this h w]
  obtain q where q: "KadGetProviders q (slot_kad_key ?P (my_pid b) slot) \<in> set (nd_out ?polling)"
    "nd_provider_queries ?polling q = Some slot" "polled b ?polling"
    using poll_asks [OF slot(2-4), of E'] P by auto
  have "\<exists>r. KadGetRecord r (drop_kad_key ?P (my_pid b) (my_pid a) slot) \<in> set (nd_out (handle_mailbox_providers_result E' q providers ?polling))
      \<and> received ?P (handle_kad_event E' (RecordFound r wire) (handle_mailbox_providers_result E' q providers ?polling)) (my_pid a) text
      \<and> KadPutRecord (ack_kad_key ?P (my_pid b) (my_pid a) slot) (my_pid b)
          \<in> set (nd_out (handle_kad_event E' (RecordFound r wire) (handle_mailbox_providers_result E' q providers ?polling)))"
    if m: "my_pid a \<in> set providers" for providers
  proof -
    let ?f = "handle_mailbox_providers_result E' q providers ?polling"
    have id: "my_pid ?polling = my_pid b" using q(3) by (simp add: polled_def)
    then obtain r where r: "nd_queries ?polling \<le> r" "KadGetRecord r (drop_kad_key ?P (my_pid b) (my_pid a) slot) \<in> set (nd_out ?f)"
      "nd_record_queries ?f r = Some (slot, my_pid a)" "polled ?polling ?f"
      using providers_fetch [OF q(2) m, of E'] keys(2) P by auto
    have f: "polled b ?f" using polled_trans q(3) r(4) by blast
    have fb: "nd_identity ?f = nd_identity b" "nd_clock ?f = nd_clock b" using f by (simp_all add: polled_def)
    have h': "build_x3dh_hello E (my_pid ?f) (id_x25519_public (nd_identity ?f)) a = (hello, a1)" using h fb by simp
    obtain b3 where b3: "process_incoming_dm E' (my_pid a) wire ?f = (True, b3)" "received ?P b3 (my_pid a) text"
      using first_message_accepted [OF contact_polled [OF f keys(1)] _ _ _ _ h', of "text" "my_pid a"] clocks w fb
      by (cases "process_incoming_dm E' (my_pid a) wire ?f") auto
    have "nd_ack_queries ?f r = None" using r(1) q(3) r(4) dht(3) by (auto simp: polled_def acks_issued_def)
    then have "handle_kad_event E' (RecordFound r wire) ?f = publish_mailbox_ack E' (my_pid a) slot b3"
      using r(3) b3(1) by (simp add: handle_mailbox_record_result_def)
    moreover have "my_pid b3 = my_pid b" using process_incoming_dm_pid [OF b3(1)] fb by simp
    ultimately show ?thesis
      using r(2) publish_mailbox_ack_received [OF b3(2)] publish_mailbox_ack_puts [OF dht(2), of b3] P by auto
  qed
  then show ?thesis using drops q(1) slot(1) unfolding Let_def
    by (intro exI [of _ wire] exI [of _ q]) (simp del: handle_kad_event.simps(4))
qed

definition toy_mail_alice :: node where
  "toy_mail_alice = toy_alice\<lparr> nd_connected := Map.empty, nd_clock := 7200 \<rparr>"

definition toy_mail_bob :: node where
  "toy_mail_bob = toy_bob\<lparr> nd_clock := 14000 \<rparr>"

lemma toy_seals: "seals_to (toy_env 1) (id_x25519_public (toy_identity 20))"
proof -
  have "x25519_dh toy_prims (replicate 32 1) (replicate 32 21) = replicate 32 22" by code_simp
  moreover have "replicate 32 (22 :: byte) \<noteq> replicate 32 0" by simp
  ultimately show ?thesis by (simp add: seals_to_def)
qed

lemma toy_contact: "contact_ok (toy_env 1) (toy_env 3) toy_mail_alice toy_mail_bob"
proof -
  have "holds_prekeys_of toy_prims toy_mail_alice toy_mail_bob"
    using toy_holds by (simp add: holds_prekeys_of_def toy_mail_alice_def toy_mail_bob_def cached_prekey_def load_pq_cache_def
        split: option.split)
  moreover have "no_session (toy_env r) p toy_mail_alice" "no_session (toy_env r) p toy_mail_bob" for r p
    using toy_fresh by (simp_all add: no_session_iff toy_mail_alice_def toy_mail_bob_def)
  moreover have "cached_prekey toy_mail_bob = cached_prekey toy_bob"
    by (simp add: cached_prekey_def fun_eq_iff toy_mail_bob_def)
  moreover have "nd_identity toy_mail_alice = toy_identity 10" "nd_identity toy_mail_bob = toy_identity 20"
    by (simp_all add: toy_mail_alice_def toy_mail_bob_def)
  moreover have "codecs_total toy_codecs" by (simp add: codecs_total_def toy_codecs_def)
  moreover have "crypto_ok toy_prims" by (simp add: crypto_ok_def)
  ultimately show ?thesis using toy_owns toy_bob_knows toy_seals
    by (simp add: contact_ok_def can_initiate_def NONCE_LEN_def)
qed

theorem mailbox_delivery_witness:
  "\<exists>wire q. let P = toy_prims; b = replicate 32 20; a = replicate 32 10;
       a' = node_step (toy_env 1) (Command (Send b (ascii ''hello''))) toy_mail_alice;
       polling = node_step (toy_env 3) PollTick toy_mail_bob in
     KadPutRecord (drop_kad_key P b a 2) wire \<in> set (nd_out a') \<and> KadGetProviders q (slot_kad_key P b 2) \<in> set (nd_out polling)
     \<and> (\<exists>r. received P (node_step (toy_env 3) (Behaviour (Kademlia (RecordFound r wire)))
          (node_step (toy_env 3) (Behaviour (Kademlia (ProvidersFound q [a]))) polling)) a (ascii ''hello''))"
proof -
  have ids: "my_pid toy_mail_alice = replicate 32 10" "my_pid toy_mail_bob = replicate 32 20"
    "nd_connected toy_mail_alice = Map.empty" "nd_clock toy_mail_alice = 7200" "nd_clock toy_mail_bob = 14000"
    by (simp_all add: toy_mail_alice_def toy_mail_bob_def)
  have bob: "acks_issued toy_mail_bob" "mailbox_last_polled_slot (nd_store toy_mail_bob) = 0"
    by (simp_all add: acks_issued_def toy_mail_bob_def toy_bob_def new_node_def mailbox_last_polled_slot_def add_my_otpk_def
        save_prekey_def empty_store_def)
  have f1: "my_pid toy_mail_alice \<noteq> my_pid toy_mail_bob" unfolding ids by simp
  have f2: "nd_connected toy_mail_alice (my_pid toy_mail_bob) = None" unfolding ids by simp
  have f3: "en_put_ok (toy_env r) out k v" for r out k v by (simp add: toy_env_def)
  have f4: "0 \<le> nd_clock toy_mail_alice" "nd_clock toy_mail_alice < 2 ^ 62" "0 \<le> nd_clock toy_mail_bob"
    "nd_clock toy_mail_bob \<le> nd_clock toy_mail_alice + 604800" unfolding ids by simp_all
  have f5: "2 = slot_id_for (nd_clock toy_mail_alice)" "mailbox_last_polled_slot (nd_store toy_mail_bob) < 2"
    "2 \<le> slot_id_for (nd_clock toy_mail_bob)" "slot_id_for (nd_clock toy_mail_bob) \<le> 2 + 23"
    unfolding ids bob by (simp_all add: slot_id_for_def SLOT_SECONDS_def)
  note W = mailbox_delivery [of "toy_env 1" "toy_env 3" toy_mail_alice toy_mail_bob 2 "ascii ''hello''",
      OF toy_contact f1 f2 f3 f3 bob(1) f4 f5, unfolded toy_env_simps ids Let_def]
  show ?thesis unfolding Let_def using W by (metis list.set_intros(1))
qed

end
