(* ===== verification/NodeReplay.thy ===== *)
theory NodeReplay
  imports NodeSafety MailboxDelivery
begin

text \<open>
  Messages over a session that is already in memory, and what happens to the second copy of an
  offline message: \<open>try_send_or_queue\<close> hands one ciphertext to both the outbox and the mailbox, so a
  recipient that polled the mailbox gets it again when the two connect and the outbox is drained.
\<close>

section \<open>Receiving over a session\<close>

lemma receive_text_frame [simp]:
  "nd_sessions (receive_text E p t n) = nd_sessions n" "nd_identity (receive_text E p t n) = nd_identity n"
  "nd_clock (receive_text E p t n) = nd_clock n"
  by (simp_all add: receive_text_def save_plaintext_def draw_def emit_def)

lemma persist_session_frame [simp]:
  "nd_sessions (persist_session E p n) = nd_sessions n" "nd_identity (persist_session E p n) = nd_identity n"
  "nd_clock (persist_session E p n) = nd_clock n"
  by (simp_all add: persist_session_def draw_def split: option.split)

lemma session_message_accepted:
  assumes "map_of (nd_sessions b) peer = Some st" "accept_envelope E b transport wire = Some (peer, payload)"
    and "ep_kind payload = 0" "message_of payload = rm"
    and "ratchet_decrypt (en_prims E) (en_rnd E (nd_draws b) 32) st rm (ratchet_ad peer (my_pid b)) = (Inr text, st')"
    and "crypto_ok (en_prims E)" "\<And>i. length (en_rnd E i NONCE_LEN) = NONCE_LEN"
  shows "\<exists>b'. process_incoming_dm E transport wire b = (True, b') \<and> received (en_prims E) b' peer text
     \<and> map_of (nd_sessions b') peer = Some st' \<and> nd_identity b' = nd_identity b \<and> nd_clock b' = nd_clock b"
proof -
  let ?n = "persist_session E peer (b\<lparr> nd_draws := Suc (nd_draws b), nd_sessions := AList.update peer st' (nd_sessions b) \<rparr>)"
  have "process_incoming_dm E transport wire b = (True, receive_text E peer text ?n)"
    using assms(1-5)
    by (simp add: process_incoming_dm_def restore_session_if_persisted_def decrypt_and_store_def draw_def Let_def dispatch_decrypted_content_def)
  moreover have "received (en_prims E) (receive_text E peer text ?n) peer text"
    using receive_text_received assms(6,7) by (simp add: crypto_ok_def)
  ultimately show ?thesis by simp
qed

lemma session_message_refused:
  assumes "map_of (nd_sessions b) peer = Some st" "accept_envelope E b transport wire = Some (peer, payload)" "message_of payload = rm"
    and "ratchet_decrypt (en_prims E) (en_rnd E (nd_draws b) 32) st rm (ratchet_ad peer (my_pid b)) = (Inl e, st')"
  shows "\<exists>b'. process_incoming_dm E transport wire b = (False, b') \<and> nd_store b' = nd_store b
     \<and> map_of (nd_sessions b') peer = Some st' \<and> nd_identity b' = nd_identity b \<and> nd_clock b' = nd_clock b"
  using assms
  by (simp add: process_incoming_dm_def restore_session_if_persisted_def decrypt_and_store_def draw_def Let_def)

section \<open>The two copies of an offline message\<close>

lemma outbox_wire_row:
  assumes "aead_correct P" "aead_tagged P" "length nonce = NONCE_LEN" "st_outbox s = []"
  shows "\<exists>i. outbox_get_for P (peer_cache_upsert (snd (outbox_add_wire P nonce now s peer wire ttl)) p v w) peer = [(i, wire, True)]"
proof -
  let ?s = "peer_cache_upsert (snd (outbox_add_wire P nonce now s peer wire ttl)) p v w"
  have "st_dek ?s = st_dek s" by (simp add: peer_cache_upsert_def outbox_add_wire_def outbox_insert_def Let_def)
  then have "decrypt_at_rest P ?s (encrypt_at_rest P s nonce wire) = Inr wire"
    by (rule at_rest_roundtrip [OF assms(1-3)])
  moreover have "st_outbox ?s = [\<lparr> ob_id = st_outbox_seq s + 1, ob_peer_tag = outbox_peer_tag P (st_dek ?s) peer,
      ob_ciphertext = encrypt_at_rest P s nonce wire, ob_created = now, ob_ttl = ttl, ob_is_wire = True \<rparr>]"
    using assms(4) by (simp add: peer_cache_upsert_def outbox_add_wire_def outbox_insert_def Let_def)
  ultimately show ?thesis by (simp add: outbox_get_for_def map_filter_simps)
qed

text \<open>What is queued as wire bytes is what a later connection sends.\<close>
lemma offline_copies:
  assumes "aead_correct (en_prims E)" "aead_tagged (en_prims E)" "\<And>i. length (en_rnd E i NONCE_LEN) = NONCE_LEN"
    and "nd_connected a peer = None" "try_encrypt_offline E peer text a = (Some wire, a1)" "st_outbox (nd_store a1) = []"
  shows "SendDm peer wire \<in> set (nd_out (node_step E (ConnectionEstablished peer addr) (node_step E (Command (Send peer text)) a)))"
proof -
  obtain nonce now s where a': "nd_store (node_step E (Command (Send peer text)) a) = snd (outbox_add_wire (en_prims E) nonce now s peer wire (7 * 24 * 3600))"
    "length nonce = NONCE_LEN" "s = nd_store (put_mailbox_drop_bytes E peer wire a1)"
    using assms(3-5) by (simp add: try_send_or_queue_def queue_offline_def draw_def)
  have "st_outbox s = []" using assms(6)
    by (simp add: a'(3) put_mailbox_drop_bytes_def put_record_def emit_def draw_def mailbox_drop_record_def Let_def split: option.split)
  from outbox_wire_row [OF assms(1,2) a'(2) this] obtain i where
    "outbox_get_for (en_prims E) (peer_cache_upsert (nd_store (node_step E (Command (Send peer text)) a)) peer (en_dialable E addr peer)
       (nd_clock (node_step E (Command (Send peer text)) a))) peer = [(i, wire, True)]"
    unfolding a'(1) by blast
  then show ?thesis
    by (simp del: node_step.simps(1) add: connection_established_def drain_outbox_for_def drain_entry_def emit_def)
qed

text \<open>C40: The second copy of an offline message is not the no-op the send path counts on.  A session is at message
  \<open>k\<close> of the peer's chain with nothing skipped.  The first copy is accepted and stored; the second is refused, but
  has moved the receiving chain; so the next genuine message of the peer is refused as well, and lost.\<close>
theorem second_copy_desynchronises:
  assumes session: "map_of (nd_sessions b) peer = Some st" "chain_inv (en_prims E) dh ck st" "rs_skipped st = []"
      "unat (rs_nr st) = k" "k < 2 ^ 32 - 3"
    and "ad = ratchet_ad peer (my_pid b)" "P = en_prims E" "sec = id_x25519_secret (nd_identity b)"
    and wires: "carries E sec peer t (payload_of (wire_msg P dh pn ck ad pt k) hello 0) w"
      "carries E sec peer t (payload_of (wire_msg P dh pn ck ad pt (Suc k)) hello 0) w'"
    and env: "crypto_ok P" "codecs_ok (en_codecs E)" "\<And>i. length (en_rnd E i NONCE_LEN) = NONCE_LEN"
      "0 \<le> t" "t < 2 ^ 62" "0 \<le> nd_clock b" "nd_clock b \<le> t + 604800"
    and other_keys: "aead_decrypt P (mk_at P ck (Suc k)) (rm_ct (wire_msg P dh pn ck ad pt k)) ad (rm_header (wire_msg P dh pn ck ad pt k)) = Inl BadAead"
      "aead_decrypt P (mk_at P ck (Suc (Suc k))) (rm_ct (wire_msg P dh pn ck ad pt (Suc k))) ad
         (rm_header (wire_msg P dh pn ck ad pt (Suc k))) = Inl BadAead"
  shows "\<exists>b1 b2 b3. process_incoming_dm E mailbox w b = (True, b1) \<and> received P b1 peer (pt k)
     \<and> process_incoming_dm E direct w b1 = (False, b2)
     \<and> process_incoming_dm E direct w' b2 = (False, b3) \<and> nd_store b3 = nd_store b1"
proof -
  note def = assms(6-8)
  let ?m = "wire_msg P dh pn ck ad pt"
  have p: "ep_kind (payload_of m hello 0) = 0" "message_of (payload_of m hello 0) = m" for m
    by (simp_all add: payload_of_def message_of_def)
  have acc: "accept_envelope E n tr w = Some (peer, payload_of (?m k) hello 0)"
      "accept_envelope E n tr w' = Some (peer, payload_of (?m (Suc k)) hello 0)"
    if "nd_identity n = nd_identity b" "nd_clock n = nd_clock b" for n tr
    using accept_carried [OF env(2)] wires env that def by simp_all
  obtain st1 where st1: "\<And>f. ratchet_decrypt P f st (?m k) ad = (Inr (pt k), st1)" "chain_inv P dh ck st1" "unat (rs_nr st1) = Suc k"
    "rs_skipped st1 = []"
    using next_of_chain [OF session(2) [folded def(2)] session(3,4), of pn ad pt] session(5) by auto
  obtain b1 where b1: "process_incoming_dm E mailbox w b = (True, b1)" "received P b1 peer (pt k)"
    "map_of (nd_sessions b1) peer = Some st1" "nd_identity b1 = nd_identity b" "nd_clock b1 = nd_clock b"
    using session_message_accepted [OF session(1) acc(1) p, where transport = mailbox and st' = st1] st1(1) env(1,3) def by auto
  have nc: "not_cached s m" if "rs_skipped s = []" for s m using that by (simp add: not_cached_def)
  obtain st2 where st2: "ratchet_decrypt P (en_rnd E (nd_draws b1) 32) st1 (?m k) ad = (Inl BadAead, st2)"
    "chain_inv P dh ck st2" "unat (rs_nr st2) = Suc (Suc k)" "rs_skipped st2 = []"
    using stale_message_moves_chain [OF st1(2), of k pn ad pt "en_rnd E (nd_draws b1) 32"] st1 session(5) other_keys(1) nc [OF st1(4)] by auto
  obtain b2 where b2: "process_incoming_dm E direct w b1 = (False, b2)" "nd_store b2 = nd_store b1"
    "map_of (nd_sessions b2) peer = Some st2" "nd_identity b2 = nd_identity b" "nd_clock b2 = nd_clock b"
    using session_message_refused [OF b1(3) acc(1) [OF b1(4,5)] p(2), where transport = direct and e = BadAead and st' = st2] st2(1) b1(4,5) def by auto
  obtain st3 where st3: "ratchet_decrypt P (en_rnd E (nd_draws b2) 32) st2 (?m (Suc k)) ad = (Inl BadAead, st3)"
    using stale_message_moves_chain [OF st2(2), of "Suc k" pn ad pt "en_rnd E (nd_draws b2) 32"] st2 session(5) other_keys(2) nc [OF st2(4)] by auto
  obtain b3 where "process_incoming_dm E direct w' b2 = (False, b3)" "nd_store b3 = nd_store b2"
    using session_message_refused [OF b2(3) acc(2) [OF b2(4,5)] p(2), where transport = direct and e = BadAead and st' = st3] st3 b2(4,5) def by auto
  then show ?thesis using b1(1,2) b2(1,2) by auto
qed

definition toy_chain :: "nat \<Rightarrow> ratchet_state" where
  "toy_chain k = \<lparr> rs_dhs_secret = [], rs_dhs_public = [1], rs_dhr = Some [1], rs_rk = [], rs_cks = Some (ck_at toy_prims [2] k),
     rs_ckr = Some (ck_at toy_prims [2] k), rs_ns = of_nat k, rs_nr = of_nat k, rs_pn = 0, rs_skipped = [], rs_session_id = [] \<rparr>"

abbreviation toy_ad :: bytes where
  "toy_ad \<equiv> ratchet_ad (replicate 32 10) (replicate 32 20)"

definition toy_listening :: node where
  "toy_listening = toy_bob\<lparr> nd_sessions := [(replicate 32 10, toy_chain 0)] \<rparr>"

lemma toy_wire:
  "\<exists>w. carries (toy_env 1) (replicate 32 21) (replicate 32 10) 40
     (payload_of (wire_msg toy_prims [1] 0 [2] toy_ad (\<lambda>_. [5]) k) None 0) w"
proof -
  let ?n = "toy_alice\<lparr> nd_sessions := [(replicate 32 20, toy_chain k)] \<rparr>"
  have id: "nd_identity ?n = toy_identity 10" "nd_clock ?n = 40" "my_pid ?n = replicate 32 10" by simp_all
  have "rs_cks (toy_chain k) = Some (ck_at toy_prims [2] k)" "rs_dhs_public (toy_chain k) = [1]" "rs_ns (toy_chain k) = of_nat k"
    "rs_pn (toy_chain k) = 0" by (simp_all add: toy_chain_def)
  then have "fst (ratchet_encrypt toy_prims (toy_chain k) [5] ad) = Inr (wire_msg toy_prims [1] 0 [2] ad (\<lambda>_. [5]) k)" for ad
    by (simp add: ratchet_encrypt_def wire_msg_def Let_def)
  then have "ratchet_encrypt toy_prims (toy_chain k) [5] (ratchet_ad (my_pid ?n) (replicate 32 20))
      = (Inr (wire_msg toy_prims [1] 0 [2] toy_ad (\<lambda>_. [5]) k), snd (ratchet_encrypt toy_prims (toy_chain k) [5] toy_ad))"
    by (simp add: prod_eq_iff)
  moreover have "cached_prekey ?n (replicate 32 20) = Some (x25519_pub toy_prims (replicate 32 21))"
    using toy_holds [unfolded holds_prekeys_of_def, THEN conjunct1] by (simp add: cached_prekey_def)
  moreover have "seals_to (toy_env 1) (x25519_pub toy_prims (replicate 32 21))"
    using toy_seals by simp
  moreover have "codecs_total toy_codecs" "crypto_ok toy_prims"
    by (simp_all add: codecs_total_def toy_codecs_def crypto_ok_def)
  ultimately show ?thesis
    using wrap_carries [of "toy_env 1" ?n "replicate 32 21" "replicate 32 20" "toy_chain k" "[5]" _ _ None 0] toy_owns [OF id(1)] id(2)
    by auto
qed

theorem second_copy_desynchronises_witness:
  "\<exists>w w' b1 b2 b3. process_incoming_dm (toy_env 1) [9] w toy_listening = (True, b1) \<and> received toy_prims b1 (replicate 32 10) [5]
     \<and> process_incoming_dm (toy_env 1) (replicate 32 10) w b1 = (False, b2)
     \<and> process_incoming_dm (toy_env 1) (replicate 32 10) w' b2 = (False, b3) \<and> nd_store b3 = nd_store b1"
proof -
  let ?m = "wire_msg toy_prims [1] 0 [2] toy_ad (\<lambda>_. [5])"
  obtain w where w: "carries (toy_env 1) (replicate 32 21) (replicate 32 10) 40 (payload_of (?m 0) None 0) w"
    using toy_wire by blast
  obtain w' where w': "carries (toy_env 1) (replicate 32 21) (replicate 32 10) 40 (payload_of (?m (Suc 0)) None 0) w'"
    using toy_wire by blast
  have b: "map_of (nd_sessions toy_listening) (replicate 32 10) = Some (toy_chain 0)" "my_pid toy_listening = replicate 32 20"
    "nd_clock toy_listening = 50" "id_x25519_secret (nd_identity toy_listening) = replicate 32 21"
    by (simp_all add: toy_listening_def)
  have c: "chain_inv toy_prims [1] [2] (toy_chain 0)" "rs_skipped (toy_chain 0) = []" "unat (rs_nr (toy_chain 0)) = 0"
    by (simp_all add: chain_inv_def toy_chain_def)
  have "aead_decrypt toy_prims (mk_at toy_prims [2] (Suc 0)) (rm_ct (?m 0)) toy_ad (rm_header (?m 0)) = Inl BadAead" by code_simp
  moreover have "aead_decrypt toy_prims (mk_at toy_prims [2] (Suc (Suc 0))) (rm_ct (?m (Suc 0))) toy_ad (rm_header (?m (Suc 0))) = Inl BadAead"
    by code_simp
  moreover have "crypto_ok toy_prims" by (simp add: crypto_ok_def)
  ultimately show ?thesis
    using second_copy_desynchronises [of toy_listening "replicate 32 10" "toy_chain 0" "toy_env 1" "[1]" "[2]" 0 toy_ad toy_prims
        "replicate 32 21" 40 0 "\<lambda>_. [5]" None w w' "[9]" "replicate 32 10"] w w' b c
    by (simp add: NONCE_LEN_def) blast
qed

end
