(* ===== verification/GroupDelivery.thy ===== *)
theory GroupDelivery
  imports NodeReplay
begin

text \<open>
  The path of a group chat message from one member's command to another member's message store: one
  encryption on the sender's group chain, carried to each member over the one-to-one session with it.
\<close>

section \<open>Sessions and chains in step\<close>

text \<open>The receiving session is at or behind the sending one on the same chain, within the skip cap.\<close>
definition in_step :: "prims \<Rightarrow> ratchet_state \<Rightarrow> ratchet_state \<Rightarrow> bool" where
  "in_step P sa sb \<longleftrightarrow> (\<exists>ck. rs_cks sa = Some (ck_at P ck (unat (rs_ns sa))) \<and> chain_inv P (rs_dhs_public sa) ck sb
     \<and> unat (rs_nr sb) \<le> unat (rs_ns sa) \<and> unat (rs_ns sa) < 2 ^ 32 - 1
     \<and> (unat (rs_ns sa) - unat (rs_nr sb)) + length (rs_skipped sb) \<le> MAX_SKIP)"

lemma in_step_decrypts:
  assumes "in_step P sa sb"
  shows "\<exists>m sa'. ratchet_encrypt P sa body ad = (Inr m, sa') \<and> (\<forall>fresh. \<exists>sb'. ratchet_decrypt P fresh sb m ad = (Inr body, sb'))"
proof -
  obtain ck where k: "rs_cks sa = Some (ck_at P ck (unat (rs_ns sa)))" "chain_inv P (rs_dhs_public sa) ck sb"
    "unat (rs_nr sb) \<le> unat (rs_ns sa)" "unat (rs_ns sa) < 2 ^ 32 - 1"
    "(unat (rs_ns sa) - unat (rs_nr sb)) + length (rs_skipped sb) \<le> MAX_SKIP" using assms by (auto simp: in_step_def)
  let ?m = "wire_msg P (rs_dhs_public sa) (rs_pn sa) ck ad (\<lambda>_. body) (unat (rs_ns sa))"
  have "fst (ratchet_encrypt P sa body ad) = Inr ?m" using k(1) by (simp add: ratchet_encrypt_def wire_msg_def Let_def)
  then have "ratchet_encrypt P sa body ad = (Inr ?m, snd (ratchet_encrypt P sa body ad))" by (simp add: prod_eq_iff)
  moreover have "\<exists>sb'. ratchet_decrypt P fresh sb ?m ad = (Inr body, sb')" for fresh
    using ratchet_live [OF k(2-4)] k(5) by (fastforce simp: chain_load_def)
  ultimately show ?thesis by blast
qed

text \<open>The same for a member's copy of a sender's group chain.\<close>
definition chain_in_step :: "prims \<Rightarrow> sender_chain \<Rightarrow> receiver_chain \<Rightarrow> bool" where
  "chain_in_step P sc rc \<longleftrightarrow> (\<exists>ck. sc_chain_key sc = ck_at P ck (unat (sc_index sc)) \<and> group_inv P ck (sc_sign_priv sc) rc
     \<and> unat (rc_next_index rc) \<le> unat (sc_index sc) \<and> unat (sc_index sc) < 2 ^ 32 - 1
     \<and> (unat (sc_index sc) - unat (rc_next_index rc)) + length (rc_skipped rc) \<le> MEGOLM_MAX_SKIP)"

lemma chain_in_step_decrypts:
  assumes "chain_in_step P sc rc"
  shows "\<exists>rc'. megolm_decrypt P rc (fst (megolm_encrypt P sc text ad)) ad = (Inr text, rc')"
proof -
  obtain ck where k: "sc_chain_key sc = ck_at P ck (unat (sc_index sc))" "group_inv P ck (sc_sign_priv sc) rc"
    "unat (rc_next_index rc) \<le> unat (sc_index sc)" "unat (sc_index sc) < 2 ^ 32 - 1"
    "(unat (sc_index sc) - unat (rc_next_index rc)) + length (rc_skipped rc) \<le> MEGOLM_MAX_SKIP"
    using assms by (auto simp: chain_in_step_def)
  have "fst (megolm_encrypt P sc text ad) = group_wire P ck (sc_sign_priv sc) ad (\<lambda>_. text) (unat (sc_index sc))"
    using k(1) by (simp add: megolm_encrypt_def group_wire_def Let_def)
  then show ?thesis using megolm_live [OF k(2-5), of ad "\<lambda>_. text"] by auto
qed

text \<open>A bundle puts the member that installs it in step.\<close>
lemma bundle_in_step:
  "aead_correct P \<Longrightarrow> ed_correct P \<Longrightarrow> unat (sc_index sc) < 2 ^ 32 - 1 \<Longrightarrow> sc_chain_key sc = ck_at P ck (unat (sc_index sc))
     \<Longrightarrow> chain_in_step P sc (from_bundle (current_bundle P sc))"
  unfolding chain_in_step_def
  by (rule exI [of _ ck]) (simp add: from_bundle_inv, simp add: from_bundle_def current_bundle_def)

section \<open>The sender's fan-out\<close>

text \<open>Delivering to the peers \<open>ps\<close> changes no other session, and emits.\<close>
definition kept :: "bytes set \<Rightarrow> node \<Rightarrow> node \<Rightarrow> bool" where
  "kept ps n n' \<longleftrightarrow> nd_identity n' = nd_identity n \<and> nd_clock n' = nd_clock n \<and> st_prekeys (nd_store n') = st_prekeys (nd_store n)
     \<and> (\<forall>p. p \<notin> ps \<longrightarrow> map_of (nd_sessions n') p = map_of (nd_sessions n) p) \<and> set (nd_out n) \<subseteq> set (nd_out n')"

lemma kept_refl [simp]: "kept ps n n"
  by (simp add: kept_def)

lemma kept_trans: "kept ps a b \<Longrightarrow> kept ps b c \<Longrightarrow> kept ps a c"
  by (auto simp: kept_def)

lemma kept_mono: "kept ps a b \<Longrightarrow> ps \<subseteq> qs \<Longrightarrow> kept qs a b"
  by (auto simp: kept_def)

lemma kept_effects:
  "restore_session_if_persisted E p n = (ok, n') \<Longrightarrow> kept {p} n n'"
  "kept {p} n (persist_session E p n)" "kept ps n (emit a n)"
  "ratchet_encrypt_and_wrap_bytes E p c h k n = (r, n') \<Longrightarrow> kept {p} n n'"
  by (auto simp: kept_def restore_session_if_persisted_def persist_session_def ratchet_encrypt_and_wrap_bytes_def build_envelope_def
      draw_def save_session_def Let_def split: if_splits option.splits sum.splits prod.splits)

lemma kept_sent: "kept {p} n n1 \<Longrightarrow> kept {p} n (persist_session E p (emit a n1))"
  by (intro kept_trans [OF _ kept_trans [OF kept_effects(3) kept_effects(2)]])

lemma kept_deliver: "deliver_kind_to_member E p k body n = (ok, n') \<Longrightarrow> kept {p} n n'"
  by (auto simp: deliver_kind_to_member_def split: prod.splits bool.splits option.splits
      intro: kept_sent kept_trans [OF kept_effects(1) kept_effects(4)] kept_effects(1))

lemma kept_fan_out: "kept (set ms) n (snd (fan_out E k body ms n))"
proof (induction ms arbitrary: n)
  case (Cons m ms)
  obtain ok n1 where d: "deliver_kind_to_member E m k body n = (ok, n1)" by fastforce
  have "kept (set (m # ms)) n n1" using kept_mono [OF kept_deliver [OF d]] by simp
  moreover have "kept (set (m # ms)) n' (snd (fan_out E k body ms n'))" for n' by (rule kept_mono [OF Cons.IH]) auto
  ultimately show ?case using d by (auto simp: case_prod_unfold Let_def intro: kept_trans)
qed simp

lemma fan_out_append: "snd (fan_out E k body (us @ vs) n) = snd (fan_out E k body vs (snd (fan_out E k body us n)))"
  by (induction us arbitrary: n) (auto simp: case_prod_unfold Let_def)

lemma fan_out_reaches:
  assumes ok: "crypto_ok (en_prims E)" "codecs_total (en_codecs E)" "owns_identity (en_prims E) a" "seals_to E (x25519_pub (en_prims E) priv)"
    and b: "b \<in> set ms" "b \<noteq> my_pid a" "peer_valid (en_prims E) b" "cached_prekey a b = Some (x25519_pub (en_prims E) priv)"
    and s: "map_of (nd_sessions a) b = Some sa" "ratchet_encrypt (en_prims E) sa body (ratchet_ad (my_pid a) b) = (Inr rm, sa')"
  shows "\<exists>wire. SendDm b wire \<in> set (nd_out (snd (fan_out E kind body ms a)))
     \<and> carries E priv (my_pid a) (nd_clock a) (payload_of rm None kind) wire"
proof -
  obtain us vs where ms: "ms = us @ b # vs" "b \<notin> set us" using b(1) by (meson split_list_first)
  let ?n = "snd (fan_out E kind body us a)"
  have n: "nd_identity ?n = nd_identity a" "nd_clock ?n = nd_clock a" "map_of (nd_sessions ?n) b = Some sa" "cached_prekey ?n = cached_prekey a"
    using kept_fan_out [of us a E kind body] ms(2) s(1) by (auto simp: kept_def cached_prekey_def load_prekey_def fun_eq_iff)
  have own: "owns_identity (en_prims E) ?n" using ok(3) n(1) by (simp add: owns_identity_def)
  obtain wire ttl n' where w: "ratchet_encrypt_and_wrap_bytes E b body None kind ?n = (Some (wire, ttl), n')"
    "carries E priv (my_pid a) (nd_clock a) (payload_of rm None kind) wire"
    using wrap_carries [OF ok(1) own ok(4) _ ok(2) n(3), of body rm sa' None kind] b(4) s(2) n by auto
  have "deliver_kind_to_member E b kind body ?n = (True, persist_session E b (emit (SendDm b wire) n'))"
    using n(3) w(1) by (simp add: deliver_kind_to_member_def restore_session_if_persisted_def)
  then have "snd (fan_out E kind body ms a) = snd (fan_out E kind body vs (persist_session E b (emit (SendDm b wire) n')))"
    using ms(1) b(2,3) n(1) by (simp add: fan_out_append case_prod_unfold Let_def)
  moreover have "SendDm b wire \<in> set (nd_out (persist_session E b (emit (SendDm b wire) n')))"
    using kept_effects(2) [of b "emit (SendDm b wire) n'" E] by (auto simp: kept_def)
  ultimately show ?thesis using kept_fan_out [of vs "persist_session E b (emit (SendDm b wire) n')" E kind body] w(2)
    by (auto simp: kept_def)
qed

section \<open>The member's side\<close>

definition group_received :: "prims \<Rightarrow> node \<Rightarrow> bytes \<Rightarrow> bytes \<Rightarrow> bytes \<Rightarrow> bool" where
  "group_received P n gid sender text \<longleftrightarrow> GuiGroupMessage gid sender \<in> set (nd_out n)
     \<and> (\<exists>m \<in> set (st_group_messages (nd_store n)). sm_sender m = sender \<and> sm_recipient m = gid
          \<and> decrypt_at_rest P (nd_store n) (sm_ciphertext m) = Inr text)"

lemma group_message_received:
  assumes "crypto_ok (en_prims E)" "\<And>i. length (en_rnd E i NONCE_LEN) = NONCE_LEN"
    and "sender \<in> set (group_members (nd_store n) (ge_group_id env))"
    and "their_sender_key_load (en_prims E) (nd_store n) (ge_group_id env) sender = Some blob" "dec_receiver (en_codecs E) blob = Some rc"
    and "megolm_decrypt (en_prims E) rc (ge_msg env) (build_group_ad (ge_group_id env) sender) = (Inr text, rc')"
  shows "group_received (en_prims E) (process_group_message E sender env n) (ge_group_id env) sender text"
proof -
  have saved: "group_received (en_prims E) (emit (GuiGroupMessage gid sender) (save_group_message E gid sender text n')) gid sender text" for gid n'
    using assms(1,2) at_rest_roundtrip [of "en_prims E" "en_rnd E (nd_draws n') NONCE_LEN"]
    by (simp add: group_received_def save_group_message_def group_message_store_def draw_def emit_def crypto_ok_def Let_def)
  show ?thesis using assms(3-6) saved by (simp add: process_group_message_def Let_def split: option.split)
qed

lemma save_session_groups [simp]:
  "group_members (save_session P nonce now s peer blob) = group_members s"
  "their_sender_key_load P' (save_session P nonce now s peer blob) = their_sender_key_load P' s"
proof -
  have "decrypt_at_rest P' (save_session P nonce now s peer blob) = decrypt_at_rest P' s"
    by (rule decrypt_at_rest_dek) (simp add: save_session_def)
  then show "their_sender_key_load P' (save_session P nonce now s peer blob) = their_sender_key_load P' s"
    by (simp add: their_sender_key_load_def save_session_def fun_eq_iff split: option.split)
qed (simp add: group_members_def save_session_def fun_eq_iff)

lemma persist_session_groups [simp]:
  "group_members (nd_store (persist_session E p n)) = group_members (nd_store n)"
  "their_sender_key_load P (nd_store (persist_session E p n)) = their_sender_key_load P (nd_store n)"
  by (simp_all add: persist_session_def draw_def split: option.split)

text \<open>A member that processes the sender's key distribution holds a copy in step: the announcement that precedes
  the first message on a new chain is what establishes the hypothesis of the property below.\<close>
lemma distribution_in_step:
  assumes "crypto_ok (en_prims E)" "ed_correct (en_prims E)" "\<And>i. length (en_rnd E i NONCE_LEN) = NONCE_LEN" "codecs_ok (en_codecs E)"
    and "sender \<in> set (group_members (nd_store n) gid)" "sc_chain_key sc = ck_at (en_prims E) ck (unat (sc_index sc))"
      "unat (sc_index sc) < 2 ^ 32 - 1" "enc_receiver (en_codecs E) (from_bundle (current_bundle (en_prims E) sc)) \<noteq> None"
  shows "\<exists>blob copy. their_sender_key_load (en_prims E)
       (nd_store (process_group_control E sender (new_sender_key_distribution gid (current_bundle (en_prims E) sc) epoch) n)) gid sender = Some blob
     \<and> dec_receiver (en_codecs E) blob = Some copy \<and> chain_in_step (en_prims E) sc copy"
proof -
  let ?P = "en_prims E" and ?copy = "from_bundle (current_bundle (en_prims E) sc)"
  obtain blob where blob: "enc_receiver (en_codecs E) ?copy = Some blob" using assms(8) by blast
  have v: "valid_save ?P (en_rnd E (nd_draws n) NONCE_LEN, nd_clock n, blob)" using assms(1,3) by (simp add: valid_save_def crypto_ok_def)
  have "their_sender_key_load ?P (nd_store (process_group_control E sender (new_sender_key_distribution gid (current_bundle ?P sc) epoch) n)) gid sender
      = Some blob"
    using theirkey.load_save [OF v, where k = "(gid, sender)"] assms(5) blob
    by (simp add: new_sender_key_distribution_def on_sender_key_distribution_def save_their_chain_def draw_def)
  moreover have "chain_in_step ?P sc ?copy" using bundle_in_step assms(1,2,6,7) by (simp add: crypto_ok_def)
  ultimately show ?thesis using codecs_okD(7) [OF assms(4) blob] by blast
qed

section \<open>Property\<close>

text \<open>C4: A group message reaches the other members.  \<open>a\<close> has a chain for the group, the sessions of \<open>a\<close> with member
  \<open>b\<close> are in step, and \<open>b\<close> has \<open>a\<close> as a member and a copy of its chain that is in step.  Then the send
  command makes \<open>a\<close> emit to \<open>b\<close>, whoever the other members are and whether or not they can be reached,
  a message which, handed over by any transport peer within seven days, stores exactly the text under the group
  and the identity of \<open>a\<close> and notifies the front end.\<close>
theorem group_chat_delivery:
  assumes crypto: "crypto_ok (en_prims E)" "en_prims E' = en_prims E" "codecs_ok (en_codecs E)" "codecs_total (en_codecs E)"
      "en_codecs E' = en_codecs E" "\<And>env. enc_envelope (en_codecs E) env \<noteq> None"
      "seals_to E (id_x25519_public (nd_identity b))" "\<And>i. length (en_rnd E' i NONCE_LEN) = NONCE_LEN"
    and ids: "owns_identity (en_prims E) a" "owns_identity (en_prims E) b" "my_pid b \<noteq> my_pid a" "peer_valid (en_prims E) (my_pid b)"
      "cached_prekey a (my_pid b) = Some (id_x25519_public (nd_identity b))"
    and sender: "group_get (nd_store a) gid \<noteq> None" "my_pid b \<in> set (group_members (nd_store a) gid)"
      "my_sender_key_load (en_prims E) (nd_store a) gid = Some chain_blob" "dec_sender (en_codecs E) chain_blob = Some chain"
    and receiver: "my_pid a \<in> set (group_members (nd_store b) gid)"
      "their_sender_key_load (en_prims E) (nd_store b) gid (my_pid a) = Some copy_blob" "dec_receiver (en_codecs E) copy_blob = Some copy"
    and sessions: "map_of (nd_sessions a) (my_pid b) = Some sa" "map_of (nd_sessions b) (my_pid a) = Some sb"
    and steps: "in_step (en_prims E) sa sb" "chain_in_step (en_prims E) chain copy"
    and clocks: "0 \<le> nd_clock a" "nd_clock a < 2 ^ 62" "0 \<le> nd_clock b" "nd_clock b \<le> nd_clock a + 604800"
  shows "\<exists>wire. SendDm (my_pid b) wire \<in> set (nd_out (node_step E (Command (GroupSend gid text)) a))
     \<and> group_received (en_prims E) (node_step E' (Behaviour (DmRequest transport wire)) b) gid (my_pid a) text"
proof -
  let ?P = "en_prims E" and ?sec = "id_x25519_secret (nd_identity b)" and ?ms = "group_members (nd_store a) gid"
  have pub: "id_x25519_public (nd_identity b) = x25519_pub ?P ?sec" using ids(2) by (simp add: owns_identity_def identity_ok_def)
  obtain msg chain' where enc: "megolm_encrypt ?P chain text (build_group_ad gid (my_pid a)) = (msg, chain')" by fastforce
  obtain body where body: "enc_envelope (en_codecs E) \<lparr> ge_group_id = gid, ge_msg = msg \<rparr> = Some body" using crypto(6) by blast
  obtain copy' where copy': "megolm_decrypt ?P copy msg (build_group_ad gid (my_pid a)) = (Inr text, copy')"
    using chain_in_step_decrypts [OF steps(2), of "text" "build_group_ad gid (my_pid a)"] enc by auto
  obtain rm sa' where rm: "ratchet_encrypt ?P sa body (ratchet_ad (my_pid a) (my_pid b)) = (Inr rm, sa')"
    "\<And>fresh. \<exists>sb'. ratchet_decrypt ?P fresh sb rm (ratchet_ad (my_pid a) (my_pid b)) = (Inr body, sb')"
    using in_step_decrypts [OF steps(1)] by blast
  obtain a1 where a1: "node_step E (Command (GroupSend gid text)) a = snd (fan_out E 2 body ?ms a1)"
    "nd_identity a1 = nd_identity a" "nd_clock a1 = nd_clock a" "nd_sessions a1 = nd_sessions a" "cached_prekey a1 = cached_prekey a"
    using sender enc body
    by (auto simp: group_send_def load_or_create_chain_def send_on_chain_def save_my_chain_def save_group_message_def draw_def
        cached_prekey_def load_prekey_def my_sender_key_save_def group_message_store_def Let_def fun_eq_iff split: option.splits)
  have "owns_identity ?P a1" using ids(1) a1(2) by (simp add: owns_identity_def)
  then obtain wire where w: "SendDm (my_pid b) wire \<in> set (nd_out (snd (fan_out E 2 body ?ms a1)))"
    "carries E ?sec (my_pid a) (nd_clock a) (payload_of rm None 2) wire"
    using fan_out_reaches [OF crypto(1,4), of a1 ?sec "my_pid b" ?ms sa body rm sa' 2] crypto(7) ids(3-5) sender(2) sessions(1) rm(1) a1 pub
    by auto
  have acc: "accept_envelope E' b transport wire = Some (my_pid a, payload_of rm None 2)"
    using accept_carried [of E' b "my_pid a" "nd_clock a" _ wire transport] w(2) crypto clocks by (simp add: carries_def)
  obtain sb' where dec: "ratchet_decrypt ?P (en_rnd E' (nd_draws b) 32) sb rm (ratchet_ad (my_pid a) (my_pid b)) = (Inr body, sb')"
    using rm(2) by blast
  let ?b = "persist_session E' (my_pid a) (b\<lparr> nd_draws := Suc (nd_draws b), nd_sessions := AList.update (my_pid a) sb' (nd_sessions b) \<rparr>)"
  have p: "message_of (payload_of rm None 2) = rm" "ep_kind (payload_of rm None 2) = 2" by (simp_all add: message_of_def payload_of_def)
  have "node_step E' (Behaviour (DmRequest transport wire)) b = process_group_message E' (my_pid a) \<lparr> ge_group_id = gid, ge_msg = msg \<rparr> ?b"
    using acc sessions(2) dec crypto(2,5) codecs_okD(4) [OF crypto(3) body]
    by (simp add: process_incoming_dm_def restore_session_if_persisted_def decrypt_and_store_def draw_def Let_def
        dispatch_decrypted_content_def p)
  moreover have "group_received ?P (process_group_message E' (my_pid a) \<lparr> ge_group_id = gid, ge_msg = msg \<rparr> ?b) gid (my_pid a) text"
    using group_message_received [of E' "my_pid a" ?b "\<lparr> ge_group_id = gid, ge_msg = msg \<rparr>" copy_blob copy "text" copy'] crypto(1,2,5,8)
      receiver copy' by simp
  ultimately show ?thesis using w(1) a1(1) by auto
qed

definition toy_group_env :: "byte \<Rightarrow> env" where
  "toy_group_env r = (toy_env r)\<lparr> en_codecs := toy_codecs\<lparr> dec_sender := (\<lambda>b. Some (sender_chain_new [1] [2])),
     dec_receiver := (\<lambda>b. Some (from_bundle (current_bundle toy_prims (sender_chain_new [1] [2])))) \<rparr> \<rparr>"

definition toy_group_alice :: node where
  "toy_group_alice = toy_alice\<lparr> nd_sessions := [(replicate 32 20, toy_chain 0)],
     nd_store := my_sender_key_save toy_prims (replicate 12 0) 0
       (group_member_add 0 (group_upsert 0 (nd_store toy_alice) toy_group [] (replicate 32 10) 0) toy_group (replicate 32 20)) toy_group [5] \<rparr>"

definition toy_group_bob :: node where
  "toy_group_bob = toy_bob\<lparr> nd_sessions := [(replicate 32 10, toy_chain 0)],
     nd_store := their_sender_key_save toy_prims (replicate 12 0) 0 (group_member_add 0 (nd_store toy_bob) toy_group (replicate 32 10))
       toy_group (replicate 32 10) [6] \<rparr>"

lemma toy_group_stores:
  "group_get (nd_store toy_group_alice) toy_group \<noteq> None" "group_members (nd_store toy_group_alice) toy_group = [replicate 32 20]"
  "group_members (nd_store toy_group_bob) toy_group = [replicate 32 10]"
  "my_sender_key_load toy_prims (nd_store toy_group_alice) toy_group = Some [5]"
  "their_sender_key_load toy_prims (nd_store toy_group_bob) toy_group (replicate 32 10) = Some [6]"
  "cached_prekey toy_group_alice = cached_prekey toy_alice"
proof -
  have v: "valid_save toy_prims (replicate 12 0, 0, x)" for x by (simp add: valid_save_def NONCE_LEN_def)
  show "my_sender_key_load toy_prims (nd_store toy_group_alice) toy_group = Some [5]"
    using mykey.load_save [OF v] by (simp add: toy_group_alice_def)
  show "their_sender_key_load toy_prims (nd_store toy_group_bob) toy_group (replicate 32 10) = Some [6]"
    using theirkey.load_save [OF v, where k = "(toy_group, replicate 32 10)"] by (simp add: toy_group_bob_def)
  show "group_get (nd_store toy_group_alice) toy_group \<noteq> None" "group_members (nd_store toy_group_alice) toy_group = [replicate 32 20]"
    "cached_prekey toy_group_alice = cached_prekey toy_alice"
    by (simp_all add: toy_group_alice_def toy_alice_def new_node_def my_sender_key_save_def group_member_add_def group_upsert_def
        empty_store_def upsert_by_def group_get_def find_by_def group_row_ok_def toy_group_def group_members_def save_pq_prekey_def
        save_prekey_def cached_prekey_def load_prekey_def fun_eq_iff)
  show "group_members (nd_store toy_group_bob) toy_group = [replicate 32 10]"
    by (simp add: toy_group_bob_def toy_bob_def new_node_def their_sender_key_save_def group_member_add_def add_my_otpk_def
        empty_store_def upsert_by_def group_members_def save_prekey_def)
qed

theorem group_chat_delivery_witness:
  "\<exists>wire. SendDm (replicate 32 20) wire \<in> set (nd_out (node_step (toy_group_env 1) (Command (GroupSend toy_group (ascii ''hi''))) toy_group_alice))
     \<and> group_received toy_prims (node_step (toy_group_env 3) (Behaviour (DmRequest [9] wire)) toy_group_bob) toy_group (replicate 32 10) (ascii ''hi'')"
proof -
  have n: "nd_identity toy_group_alice = toy_identity 10" "nd_identity toy_group_bob = toy_identity 20" "nd_clock toy_group_alice = 40"
    "nd_clock toy_group_bob = 50" "map_of (nd_sessions toy_group_alice) (replicate 32 20) = Some (toy_chain 0)"
    "map_of (nd_sessions toy_group_bob) (replicate 32 10) = Some (toy_chain 0)"
    by (simp_all add: toy_group_alice_def toy_group_bob_def)
  have e: "en_prims (toy_group_env r) = toy_prims" "codecs_ok (en_codecs (toy_group_env r))" "codecs_total (en_codecs (toy_group_env r))"
    "en_codecs (toy_group_env 3) = en_codecs (toy_group_env 1)" "enc_envelope (en_codecs (toy_group_env r)) env \<noteq> None"
    "dec_sender (en_codecs (toy_group_env r)) b = Some (sender_chain_new [1] [2])"
    "dec_receiver (en_codecs (toy_group_env r)) b = Some (from_bundle (current_bundle toy_prims (sender_chain_new [1] [2])))"
    "en_rnd (toy_group_env r) = en_rnd (toy_env r)" for r env b
    using toy_codecs_ok by (simp_all add: toy_group_env_def codecs_ok_def codecs_total_def toy_codecs_def)
  have s: "seals_to (toy_group_env 1) (id_x25519_public (nd_identity toy_group_bob))"
    using toy_seals by (simp add: seals_to_def e n)
  have "cached_prekey toy_alice (replicate 32 20) = Some (id_x25519_public (toy_identity 20))"
    using toy_holds [unfolded holds_prekeys_of_def, THEN conjunct1] by simp
  moreover have "in_step toy_prims (toy_chain 0) (toy_chain 0)"
    unfolding in_step_def by (rule exI [of _ "[2]"]) (simp add: toy_chain_def chain_inv_def)
  moreover have "chain_in_step toy_prims (sender_chain_new [1] [2]) (from_bundle (current_bundle toy_prims (sender_chain_new [1] [2])))"
    by (rule bundle_in_step [where ck = "[1]"]) (simp_all add: sender_chain_new_def)
  moreover have "crypto_ok toy_prims" by (simp add: crypto_ok_def)
  moreover have "length (en_rnd (toy_group_env 3) i NONCE_LEN) = NONCE_LEN" for i by (simp add: e)
  ultimately show ?thesis
    using group_chat_delivery [of "toy_group_env 1" "toy_group_env 3" toy_group_bob toy_group_alice toy_group "[5]" _ "[6]" _
        "toy_chain 0" "toy_chain 0" "ascii ''hi''" "[9]", OF _ _ _ _ _ _ s _ _ _ _ _ _ toy_group_stores(1)]
      toy_owns [OF n(1)] toy_owns [OF n(2)]
    by (simp add: e n toy_group_stores)
qed

end
