(* ===== verification/NodePool.thy ===== *)
theory NodePool
  imports NodeKeys NodeDelivery
begin

text \<open>
  The own one-time prekeys along runs of the event loop: every row of the pool can be loaded and is the key pair
  it claims to be, so the private half of a key that was handed out is there until it is used.
\<close>

definition otpk_row_ok :: "prims \<Rightarrow> store \<Rightarrow> otpk_row \<Rightarrow> bool" where
  "otpk_row_ok P s r \<longleftrightarrow> ok_consumed r = None
     \<and> (\<exists>sec. decrypt_at_rest P s (ok_priv r) = Inr sec \<and> length sec = 32 \<and> ok_pub r = x25519_pub P sec)"

definition pool_ok :: "prims \<Rightarrow> store \<Rightarrow> bool" where
  "pool_ok P s \<longleftrightarrow> distinct (map ok_id (st_otpks s)) \<and> (\<forall>r \<in> set (st_otpks s). ok_id r \<le> st_otpk_seq s \<and> otpk_row_ok P s r)"

text \<open>What the pool gives: a row with a public key loads as the private half of it.\<close>
lemma pool_loads:
  assumes "pool_ok P s" "r \<in> set (st_otpks s)"
  shows "\<exists>sec. load_otpk_private P s (ok_id r) = Inr (Some sec) \<and> ok_pub r = x25519_pub P sec"
proof -
  obtain sec where sec: "decrypt_at_rest P s (ok_priv r) = Inr sec" "length sec = 32" "ok_pub r = x25519_pub P sec" "ok_consumed r = None"
    using assms by (auto simp: pool_ok_def otpk_row_ok_def)
  have "List.find (\<lambda>x. ok_id x = ok_id r \<and> ok_consumed x = None) (st_otpks s) \<noteq> None"
    using assms(2) sec(4) by (auto simp: find_None_iff)
  then obtain x where x: "List.find (\<lambda>x. ok_id x = ok_id r \<and> ok_consumed x = None) (st_otpks s) = Some x" by auto
  then have "x \<in> set (st_otpks s)" "ok_id x = ok_id r" by (auto simp: find_Some_iff)
  then have "x = r" using assms by (auto simp: pool_ok_def distinct_map inj_on_def)
  then show ?thesis using x sec by (simp add: load_otpk_private_def)
qed

lemma pool_ok_cong:
  assumes "st_otpks s' = st_otpks s" "st_otpk_seq s' = st_otpk_seq s" "st_dek s' = st_dek s"
  shows "pool_ok P s' = pool_ok P s"
  using assms decrypt_at_rest_dek [of s' s] by (simp add: pool_ok_def otpk_row_ok_def)

lemma otpk_row_ok_dek: "st_dek s' = st_dek s \<Longrightarrow> otpk_row_ok P s' = otpk_row_ok P s"
  using decrypt_at_rest_dek [of s' s] by (simp add: otpk_row_ok_def fun_eq_iff)

lemma otpk_row_ok_served [simp]: "otpk_row_ok P s (r\<lparr> ok_served := t \<rparr>) = otpk_row_ok P s r"
  by (simp add: otpk_row_ok_def)

lemma pool_ok_rows:
  assumes "pool_ok P s" "st_dek s' = st_dek s" "st_otpk_seq s \<le> st_otpk_seq s'" "distinct (map ok_id (st_otpks s'))"
    and "\<And>r. r \<in> set (st_otpks s') \<Longrightarrow> (\<exists>x \<in> set (st_otpks s). ok_id r = ok_id x \<and> otpk_row_ok P s r = otpk_row_ok P s x)
       \<or> ok_id r \<le> st_otpk_seq s' \<and> otpk_row_ok P s r"
  shows "pool_ok P s'"
  using assms by (force simp: pool_ok_def otpk_row_ok_dek [OF assms(2)])

lemma pool_ok_add:
  assumes ok: "pool_ok P s" and "aead_correct P" "aead_tagged P" "length nonce = NONCE_LEN" "length sec = 32" "pub = x25519_pub P sec"
  shows "pool_ok P (snd (add_my_otpk P nonce now s sec pub sig))"
proof (rule pool_ok_rows [OF ok])
  have "decrypt_at_rest P s (encrypt_at_rest P s nonce sec) = Inr sec"
    by (rule at_rest_roundtrip [OF assms(2-4)]) simp
  then show "(\<exists>x \<in> set (st_otpks s). ok_id r = ok_id x \<and> otpk_row_ok P s r = otpk_row_ok P s x)
      \<or> ok_id r \<le> st_otpk_seq (snd (add_my_otpk P nonce now s sec pub sig)) \<and> otpk_row_ok P s r"
    if "r \<in> set (st_otpks (snd (add_my_otpk P nonce now s sec pub sig)))" for r
    using that assms(5,6) by (auto simp: add_my_otpk_def Let_def otpk_row_ok_def)
  show "distinct (map ok_id (st_otpks (snd (add_my_otpk P nonce now s sec pub sig))))"
    using ok by (force simp: pool_ok_def add_my_otpk_def Let_def)
qed (simp_all add: add_my_otpk_def Let_def)

lemma pool_ok_pop: "pool_ok P s \<Longrightarrow> pop_unused_otpk now s = (r, s') \<Longrightarrow> pool_ok P s'"
proof (rule pool_ok_rows [of P s])
  assume ok: "pool_ok P s" and pop: "pop_unused_otpk now s = (r, s')"
  have "s' = s \<or> (\<exists>x. s' = s\<lparr> st_otpks := map (\<lambda>y. if ok_id y = x then y\<lparr> ok_served := Some now \<rparr> else y) (st_otpks s) \<rparr>)"
    using pop by (auto simp: pop_unused_otpk_def split: list.splits)
  then have *: "st_dek s' = st_dek s \<and> st_otpk_seq s' = st_otpk_seq s \<and> map ok_id (st_otpks s') = map ok_id (st_otpks s)
      \<and> (\<forall>r \<in> set (st_otpks s'). \<exists>x \<in> set (st_otpks s). ok_id r = ok_id x \<and> otpk_row_ok P s r = otpk_row_ok P s x)"
    by (elim disjE exE) (simp_all, blast, fastforce)
  then show "st_dek s' = st_dek s" "st_otpk_seq s \<le> st_otpk_seq s'" "distinct (map ok_id (st_otpks s'))"
    "\<And>r. r \<in> set (st_otpks s') \<Longrightarrow> (\<exists>x \<in> set (st_otpks s). ok_id r = ok_id x \<and> otpk_row_ok P s r = otpk_row_ok P s x)
       \<or> ok_id r \<le> st_otpk_seq s' \<and> otpk_row_ok P s r"
    using ok by (auto simp: pool_ok_def)
qed

lemma pool_ok_consume: "pool_ok P s \<Longrightarrow> pool_ok P (delete_otpk (mark_otpk_consumed now s i) i)"
proof (rule pool_ok_rows [of P s])
  assume ok: "pool_ok P s"
  have "filter (\<lambda>x. ok_id x \<noteq> i) (map (\<lambda>x. if ok_id x = i then x\<lparr> ok_consumed := Some now \<rparr> else x) rows)
      = filter (\<lambda>x. ok_id x \<noteq> i) rows" for rows :: "otpk_row list" by (induction rows) auto
  then have *: "delete_otpk (mark_otpk_consumed now s i) i = s\<lparr> st_otpks := filter (\<lambda>x. ok_id x \<noteq> i) (st_otpks s) \<rparr>"
    by (simp add: delete_otpk_def mark_otpk_consumed_def)
  show "distinct (map ok_id (st_otpks (delete_otpk (mark_otpk_consumed now s i) i)))"
    unfolding * using ok by (simp add: pool_ok_def distinct_map_filter)
  show "(\<exists>x \<in> set (st_otpks s). ok_id r = ok_id x \<and> otpk_row_ok P s r = otpk_row_ok P s x)
       \<or> ok_id r \<le> st_otpk_seq (delete_otpk (mark_otpk_consumed now s i) i) \<and> otpk_row_ok P s r"
    if "r \<in> set (st_otpks (delete_otpk (mark_otpk_consumed now s i) i))" for r
    using that unfolding * by auto
qed (simp_all add: delete_otpk_def mark_otpk_consumed_def)

text \<open>Draws of the lengths asked for, over crates that behave as documented.\<close>
definition draws_ok :: "env \<Rightarrow> bool" where
  "draws_ok E \<longleftrightarrow> aead_correct (en_prims E) \<and> aead_tagged (en_prims E) \<and> (\<forall>i l. length (en_rnd E i l) = l)"

lemma pool_ok_generate: "draws_ok E \<Longrightarrow> pool_ok (en_prims E) (nd_store n) \<Longrightarrow> pool_ok (en_prims E) (nd_store (generate_otpk E n))"
  by (simp add: generate_otpk_def draw_def Let_def draws_ok_def pool_ok_add)

lemma pool_ok_replenish:
  assumes "draws_ok E" "pool_ok (en_prims E) (nd_store n)"
  shows "pool_ok (en_prims E) (nd_store (replenish_otpk_pool E n))"
proof -
  have "pool_ok (en_prims E) (nd_store ((generate_otpk E ^^ k) n))" for k
    using assms by (induction k) (simp_all add: pool_ok_generate)
  then show ?thesis by (simp add: replenish_otpk_pool_def)
qed

lemma pool_ok_answer:
  assumes "draws_ok E" "pool_ok (en_prims E) (nd_store n)"
  shows "pool_ok (en_prims E) (nd_store (answer_prekey_request E p n))"
  using assms pool_ok_pop [OF assms(2)]
  by (auto simp: answer_prekey_request_def should_attach_otpk_def pop_one_otpk_bundle_def Let_def pool_ok_replenish split: prod.splits)

interpretation pool: prekey_invariant E "\<lambda>n. draws_ok E \<longrightarrow> pool_ok (en_prims E) (nd_store n)" for E
proof
  fix n n' :: node and peer i resp r k pq
  assume i: "draws_ok E \<longrightarrow> pool_ok (en_prims E) (nd_store n)"
  show "core n' = core n \<Longrightarrow> draws_ok E \<longrightarrow> pool_ok (en_prims E) (nd_store n')"
    using i pool_ok_cong [of "nd_store n'" "nd_store n"] by (simp add: core_def store_core_def)
  show "draws_ok E \<longrightarrow> pool_ok (en_prims E) (nd_store (load_pq_cache peer n))" using i by simp
  show "draws_ok E \<longrightarrow> pool_ok (en_prims E) (nd_store (n\<lparr> nd_cached_otpks := (nd_cached_otpks n)(peer := None) \<rparr>))" using i by simp
  show "draws_ok E \<longrightarrow> pool_ok (en_prims E) (nd_store (consume_otpk i n))"
    using i by (simp add: consume_otpk_def pool_ok_consume split: option.split)
  show "draws_ok E \<longrightarrow> pool_ok (en_prims E) (nd_store (answer_prekey_request E peer n))" using i pool_ok_answer by blast
  show "verify_and_store_prekey E peer resp n = (r, n') \<Longrightarrow> draws_ok E \<longrightarrow> pool_ok (en_prims E) (nd_store n')"
    using i pool_ok_cong [of "save_prekey t s p x g" s for t s p x g]
    by (auto simp: verify_and_store_prekey_def save_prekey_def split: if_splits)
  show "draws_ok E \<longrightarrow> pool_ok (en_prims E) (nd_store (cache_otpk E peer k n))"
    using i by (simp add: cache_otpk_def split: option.split)
  show "draws_ok E \<longrightarrow> pool_ok (en_prims E) (nd_store (cache_pq E peer pq n))"
    using i pool_ok_cong [of "save_pq_prekey s p x" s for s p x]
    by (auto simp: cache_pq_def save_pq_prekey_def split: option.split)
qed

text \<open>Along every run every key of the pool is the key pair it claims to be, and loads.\<close>
lemma pool_run: "draws_ok E \<Longrightarrow> pool_ok (en_prims E) (nd_store (node_run E evs (new_node i deniable (empty_store dek) clock)))"
  using pool.run [where E = E and n = "new_node i deniable (empty_store dek) clock" and evs = evs]
  by (simp add: pool_ok_def new_node_def empty_store_def)

text \<open>C33: No peer is ever handed a one-time prekey whose private half is lost or wrong.  Along every run of a node, every row its
  pool lists (those handed out and not yet used included) loads under its id, as the private half of exactly the public key that is
  published, while the data-encryption key is the one the node started with.\<close>
theorem pool_stays_sound:
  assumes "draws_ok E"
  shows "let n = node_run E evs (new_node i deniable (empty_store dek) clock)
    in st_dek (nd_store n) = dek \<and> distinct (map ok_id (st_otpks (nd_store n)))
     \<and> (\<forall>r \<in> set (st_otpks (nd_store n)). \<exists>sec. load_otpk_private (en_prims E) (nd_store n) (ok_id r) = Inr (Some sec)
          \<and> ok_pub r = x25519_pub (en_prims E) sec)"
proof -
  let ?n0 = "new_node i deniable (empty_store dek) clock"
  have "settings (node_run E evs ?n0) = settings ?n0" by (rule fixed.run) simp
  then have "st_dek (nd_store (node_run E evs ?n0)) = dek" by (simp add: settings_def new_node_def empty_store_def)
  then show ?thesis using pool_run [OF assms, of evs i deniable dek clock] pool_loads by (auto simp: Let_def pool_ok_def)
qed

lemma replenish_nonempty:
  assumes "unused_otpk_count (nd_store n) < OTPK_POOL_TARGET"
  shows "st_otpks (nd_store (replenish_otpk_pool E n)) \<noteq> []"
proof -
  obtain k where "OTPK_POOL_TARGET - unused_otpk_count (nd_store n) = Suc k" using assms by (metis Suc_diff_Suc)
  then show ?thesis by (simp add: replenish_otpk_pool_def generate_otpk_def draw_def Let_def add_my_otpk_def)
qed

theorem pool_stays_sound_witness:
  "let n = node_run (toy_env 3) [Behaviour (Prekey (PrekeyRequested [9]))] (new_node (toy_identity 20) False (empty_store [1]) 50)
   in \<exists>r \<in> set (st_otpks (nd_store n)). \<exists>sec. load_otpk_private toy_prims (nd_store n) (ok_id r) = Inr (Some sec) \<and> ok_pub r = sec"
proof -
  let ?n0 = "new_node (toy_identity 20) False (empty_store [1]) 50"
  let ?n = "node_run (toy_env 3) [Behaviour (Prekey (PrekeyRequested [9]))] ?n0"
  have "unused_otpk_count (empty_store [1]) < OTPK_POOL_TARGET"
    by (simp add: unused_otpk_count_def empty_store_def OTPK_POOL_TARGET_def)
  then have "st_otpks (nd_store ?n) \<noteq> []"
    by (simp add: node_run_def answer_prekey_request_def should_attach_otpk_def check_and_update_otpk_gate_def pop_one_otpk_bundle_def
        pop_unused_otpk_def new_node_def empty_store_def Let_def replenish_nonempty)
  moreover have "draws_ok (toy_env 3)" by (simp add: draws_ok_def)
  from pool_stays_sound [OF this, of "[Behaviour (Prekey (PrekeyRequested [9]))]" "toy_identity 20" False "[1]" 50]
  have "\<forall>r \<in> set (st_otpks (nd_store ?n)). \<exists>sec. load_otpk_private toy_prims (nd_store ?n) (ok_id r) = Inr (Some sec) \<and> ok_pub r = sec"
    by (simp add: Let_def)
  ultimately show ?thesis unfolding Let_def by (meson last_in_set)
qed

end
