(* ===== verification/ColdStart.thy ===== *)
theory ColdStart
  imports NodePool NodeReplay
begin

text \<open>
  A conversation from nothing: two nodes that know only each other's PeerId.  The sender asks for
  the recipient's prekeys and holds the text back; the recipient cannot check the hello it then gets, holds it back and asks in
  turn.  The prekey protocol of both directions and the two queues of pending work are composed here.
\<close>

section \<open>Answering a prekey request\<close>

text \<open>A response of \<open>b\<close>: the two signed keys of its identity, and a one-time prekey of its pool if any.\<close>
definition own_keys :: "identity \<Rightarrow> prekey_response \<Rightarrow> bool" where
  "own_keys i resp \<longleftrightarrow> pr_x25519 resp = id_x25519_public i \<and> pr_signature resp = id_x25519_signature i
     \<and> pr_pq resp = Some \<lparr> mk_ek = id_ml_kem_ek i, mk_signature = id_ml_kem_signature i \<rparr>"

definition own_response :: "node \<Rightarrow> prekey_response \<Rightarrow> bool" where
  "own_response b resp \<longleftrightarrow> own_keys (nd_identity b) resp
     \<and> (\<forall>k. pr_otpk resp = Some k \<longrightarrow> (\<exists>r \<in> set (st_otpks (nd_store b)). ok_id r = otp_id k \<and> ok_pub r = otp_x25519 k))"

text \<open>What answering changes: the pool, which keeps its keys, and the rate limit.\<close>
definition answered :: "node \<Rightarrow> node \<Rightarrow> bool" where
  "answered n n' \<longleftrightarrow> nd_identity n' = nd_identity n \<and> nd_clock n' = nd_clock n \<and> nd_sessions n' = nd_sessions n
     \<and> nd_inflight n' = nd_inflight n \<and> nd_pending_sends n' = nd_pending_sends n \<and> nd_pending_recvs n' = nd_pending_recvs n
     \<and> nd_cached_otpks n' = nd_cached_otpks n \<and> nd_cached_pq n' = nd_cached_pq n
     \<and> st_prekeys (nd_store n') = st_prekeys (nd_store n) \<and> st_sessions (nd_store n') = st_sessions (nd_store n)
     \<and> st_dek (nd_store n') = st_dek (nd_store n)
     \<and> (\<forall>r \<in> set (st_otpks (nd_store n)). \<exists>x \<in> set (st_otpks (nd_store n')). ok_id x = ok_id r \<and> ok_pub x = ok_pub r)"

lemma answered_refl [simp]: "answered n n"
  by (auto simp: answered_def)

lemma answered_trans: "answered a b \<Longrightarrow> answered b c \<Longrightarrow> answered a c"
  unfolding answered_def by (elim conjE, intro conjI ballI) (simp_all, metis)

lemma answered_generate: "answered n (generate_otpk E n)"
  by (auto simp: answered_def generate_otpk_def draw_def Let_def add_my_otpk_def)

lemma answered_replenish: "answered n (replenish_otpk_pool E n)"
proof -
  have "answered n ((generate_otpk E ^^ k) n)" for k
    by (induction k) (auto intro: answered_trans answered_generate)
  then show ?thesis by (simp add: replenish_otpk_pool_def)
qed

lemma answered_pop:
  assumes "pop_unused_otpk now (nd_store n) = (r, s)"
  shows "answered n (n\<lparr> nd_store := s \<rparr>)"
proof -
  have "\<exists>y \<in> set (map (\<lambda>y. if ok_id y = i then y\<lparr> ok_served := t \<rparr> else y) rows). ok_id y = ok_id x \<and> ok_pub y = ok_pub x"
    if "x \<in> set rows" for x :: otpk_row and rows i t
    using that by (intro bexI [of _ "if ok_id x = i then x\<lparr> ok_served := t \<rparr> else x"]) auto
  then have "answered n (n\<lparr> nd_store := (nd_store n)\<lparr> st_otpks := map (\<lambda>y. if ok_id y = i then y\<lparr> ok_served := t \<rparr> else y)
      (st_otpks (nd_store n)) \<rparr> \<rparr>)" for i t
    by (simp add: answered_def)
  then show ?thesis using assms by (auto simp: pop_unused_otpk_def split: list.splits)
qed

lemma pop_answer:
  assumes "pop_unused_otpk now s = (Inr (Some (i, pub, sig)), s')"
  shows "\<exists>r \<in> set (st_otpks s). ok_id r = i \<and> ok_pub r = pub"
proof -
  obtain r rs where r: "sort_key ok_id (filter (\<lambda>r. ok_served r = None) (st_otpks s)) = r # rs" "ok_id r = i" "ok_pub r = pub"
    using assms by (auto simp: pop_unused_otpk_def split: list.splits if_splits)
  have "r \<in> set (sort_key ok_id (filter (\<lambda>r. ok_served r = None) (st_otpks s)))" unfolding r(1) by simp
  then show ?thesis using r(2,3) by auto
qed

lemma answer_prekey_request_ok:
  "answered n (answer_prekey_request E p n)
   \<and> (\<exists>resp. nd_out (answer_prekey_request E p n) = nd_out n @ [SendPrekeyResponse p resp] \<and> own_response n resp)"
proof -
  obtain attach n1 where a: "should_attach_otpk p n = (attach, n1)" by fastforce
  have n1: "answered n n1" "nd_store n1 = nd_store n" "nd_identity n1 = nd_identity n" "nd_out n1 = nd_out n"
    using a by (auto simp: should_attach_otpk_def answered_def Let_def split: prod.splits)
  obtain otpk n2 where o': "(if attach then pop_one_otpk_bundle E n1 else (None, n1)) = (otpk, n2)" by fastforce
  obtain r s where pop: "pop_unused_otpk (nd_clock n1) (nd_store n1) = (r, s)" by fastforce
  have n2: "answered n1 n2 \<and> (\<forall>k. otpk = Some k \<longrightarrow> (\<exists>r \<in> set (st_otpks (nd_store n)). ok_id r = otp_id k \<and> ok_pub r = otp_x25519 k))"
  proof (cases attach)
    case True
    then have "n2 = replenish_otpk_pool E (n1\<lparr> nd_store := s \<rparr>)"
      and k: "otpk = (case r of Inr (Some (i, pub, sig)) \<Rightarrow> Some \<lparr> otp_id = i, otp_x25519 = pub, otp_signature = sig \<rparr> | _ \<Rightarrow> None)"
      using o' pop by (simp_all add: pop_one_otpk_bundle_def)
    moreover have "\<exists>x \<in> set (st_otpks (nd_store n)). ok_id x = otp_id y \<and> ok_pub x = otp_x25519 y" if y: "otpk = Some y" for y
    proof -
      obtain i pub sig where "r = Inr (Some (i, pub, sig))" "y = \<lparr> otp_id = i, otp_x25519 = pub, otp_signature = sig \<rparr>"
        using k y by (auto split: sum.splits option.splits)
      then show ?thesis using pop_answer pop n1(2) by fastforce
    qed
    ultimately show ?thesis using answered_trans [OF answered_pop [OF pop] answered_replenish] by blast
  qed (use o' in auto)
  let ?resp = "\<lparr> pr_x25519 = id_x25519_public (nd_identity n2), pr_signature = id_x25519_signature (nd_identity n2),
    pr_otpk = otpk, pr_pq = Some \<lparr> mk_ek = id_ml_kem_ek (nd_identity n2), mk_signature = id_ml_kem_signature (nd_identity n2) \<rparr> \<rparr>"
  have ans: "answer_prekey_request E p n = emit (SendPrekeyResponse p ?resp) n2"
    using a o' by (simp add: answer_prekey_request_def Let_def)
  have "nd_identity n2 = nd_identity n" using n1(3) n2 by (simp add: answered_def)
  then have "own_response n ?resp" using n2 by (simp add: own_response_def own_keys_def)
  moreover have "answered n2 (emit (SendPrekeyResponse p ?resp) n2)" by (auto simp: answered_def emit_def)
  moreover have "nd_out n2 = nd_out n" using o' n1(4) by (auto simp: pop_one_otpk_bundle_def Let_def split: if_splits prod.splits)
  ultimately show ?thesis unfolding ans using n1(1) n2
    by (intro conjI exI [of _ ?resp]) (auto simp: emit_def intro: answered_trans)
qed

section \<open>Learning a stranger's keys\<close>

text \<open>\<open>n\<close> has no session with \<open>p\<close> and none of its keys; a stranger has nothing pending with it either.\<close>
definition unknown :: "env \<Rightarrow> bytes \<Rightarrow> node \<Rightarrow> bool" where
  "unknown E p n \<longleftrightarrow> no_session E p n \<and> find_by pk_peer p (st_prekeys (nd_store n)) = None \<and> nd_cached_otpks n p = None
     \<and> nd_cached_pq n p = None"

definition stranger :: "env \<Rightarrow> bytes \<Rightarrow> node \<Rightarrow> bool" where
  "stranger E p n \<longleftrightarrow> unknown E p n \<and> p \<notin> nd_inflight n \<and> nd_pending_sends n p = None \<and> nd_pending_recvs n p = None"

text \<open>The widths of the published keys, and that the ML-KEM halves belong together.\<close>
definition prekeys_typed :: "prims \<Rightarrow> node \<Rightarrow> bool" where
  "prekeys_typed P n \<longleftrightarrow> length (id_x25519_public (nd_identity n)) = 32 \<and> length (id_x25519_signature (nd_identity n)) = 64
     \<and> id_ml_kem_ek (nd_identity n) = kem_ek P (id_ml_kem_dk (nd_identity n))"

text \<open>The node after the response was checked and cached, before the pending work.\<close>
definition learn :: "env \<Rightarrow> bytes \<Rightarrow> prekey_response \<Rightarrow> node \<Rightarrow> node" where
  "learn E p resp n = fetch_done p (cache_pq E p (pr_pq resp) (cache_otpk E p (pr_otpk resp)
     (n\<lparr> nd_store := save_prekey (nd_clock n) (nd_store n) p (pr_x25519 resp) (pr_signature resp) \<rparr>)))"

lemma own_response_handled:
  assumes "ed_correct (en_prims E)" "owns_identity (en_prims E) b" "own_keys (nd_identity b) resp"
  shows "handle_prekey_event E (PrekeyResponded (my_pid b) resp) n
    = process_pending E (my_pid b) (id_x25519_public (nd_identity b)) (learn E (my_pid b) resp n)"
proof -
  have "peer_ed_key (en_prims E) (my_pid b) = Some (id_verifying_key (nd_identity b))"
    using peer_ed_key_identity assms(1,2) by (simp add: owns_identity_def)
  moreover have "ed_verify (en_prims E) (id_verifying_key (nd_identity b)) (prekey_signing_bytes (id_x25519_public (nd_identity b)))
      (id_x25519_signature (nd_identity b))"
    using assms(2) unfolding owns_identity_def identity_ok_def by blast
  ultimately have "peer_signed (en_prims E) (my_pid b) (prekey_signing_bytes (pr_x25519 resp)) (pr_signature resp)"
    using assms(3) by (simp add: peer_signed_def own_keys_def)
  then show ?thesis using assms(3) by (simp add: verify_and_store_prekey_def learn_def own_keys_def)
qed

lemma save_prekey_frame [simp]:
  "st_otpks (save_prekey t s p x g) = st_otpks s" "st_dek (save_prekey t s p x g) = st_dek s" "st_sessions (save_prekey t s p x g) = st_sessions s"
  "st_otpks (save_pq_prekey s p x) = st_otpks s" "st_dek (save_pq_prekey s p x) = st_dek s" "st_sessions (save_pq_prekey s p x) = st_sessions s"
  by (simp_all add: save_prekey_def save_pq_prekey_def)

lemma learn_frame [simp]:
  "nd_identity (learn E p resp n) = nd_identity n" "nd_clock (learn E p resp n) = nd_clock n" "nd_sessions (learn E p resp n) = nd_sessions n"
  "nd_pending_sends (learn E p resp n) = nd_pending_sends n" "nd_pending_recvs (learn E p resp n) = nd_pending_recvs n"
  "st_otpks (nd_store (learn E p resp n)) = st_otpks (nd_store n)" "st_dek (nd_store (learn E p resp n)) = st_dek (nd_store n)"
  "st_sessions (nd_store (learn E p resp n)) = st_sessions (nd_store n)"
  by (auto simp: learn_def fetch_done_def cache_pq_def cache_otpk_def split: option.split)

lemma load_otpk_cong: "st_otpks s' = st_otpks s \<Longrightarrow> st_dek s' = st_dek s \<Longrightarrow> load_otpk_private P s' = load_otpk_private P s"
  using decrypt_at_rest_dek [of s' s] by (simp add: load_otpk_private_def fun_eq_iff split: option.split)

lemma no_session_cong:
  "nd_sessions n' = nd_sessions n \<Longrightarrow> st_sessions (nd_store n') = st_sessions (nd_store n) \<Longrightarrow> st_dek (nd_store n') = st_dek (nd_store n)
     \<Longrightarrow> no_session E p n' = no_session E p n"
  using decrypt_at_rest_dek [of "nd_store n'" "nd_store n"] by (simp add: no_session_iff load_session_def split: option.split)

lemma save_unknown_prekey:
  assumes "find_by pk_peer p (st_prekeys s) = None"
  shows "find_by pk_peer p (st_prekeys (save_prekey t s p x g))
     = Some \<lparr> pk_peer = p, pk_x25519 = x, pk_signature = g, pk_fetched = t, pk_ml_kem_ek = None \<rparr>"
proof -
  have "\<not> list_ex (\<lambda>r. pk_peer r = p) (st_prekeys s)" using assms by (auto simp: find_by_def find_None_iff list_ex_iff)
  then show ?thesis using assms by (simp add: save_prekey_def upsert_by_def find_by_def find_append)
qed

section \<open>The sender before and after the response\<close>

lemma find_save_pq:
  "find_by pk_peer p (st_prekeys (save_pq_prekey s p ek)) = map_option (\<lambda>r. r\<lparr> pk_ml_kem_ek := Some ek \<rparr>) (find_by pk_peer p (st_prekeys s))"
proof -
  have "List.find (\<lambda>r. pk_peer r = p) (map (\<lambda>r. if pk_peer r = p then r\<lparr> pk_ml_kem_ek := Some ek \<rparr> else r) rows)
      = map_option (\<lambda>r. r\<lparr> pk_ml_kem_ek := Some ek \<rparr>) (List.find (\<lambda>r. pk_peer r = p) rows)" for rows :: "prekey_row list"
    by (induction rows) auto
  then show ?thesis by (simp add: find_by_def save_pq_prekey_def)
qed

text \<open>A stranger's keys after its response are the stranger's.\<close>
lemma learned_prekey:
  assumes "unknown E p n" "length (pr_x25519 resp) = 32" "length (pr_signature resp) = 64"
  shows "cached_prekey (learn E p resp n) p = Some (pr_x25519 resp)"
proof -
  have f: "find_by pk_peer p (st_prekeys (save_prekey t (nd_store n) p x g))
     = Some \<lparr> pk_peer = p, pk_x25519 = x, pk_signature = g, pk_fetched = t, pk_ml_kem_ek = None \<rparr>" for t x g
    using assms(1) by (intro save_unknown_prekey) (simp add: unknown_def)
  show ?thesis using assms(2,3)
    by (auto simp: cached_prekey_def load_prekey_def learn_def fetch_done_def cache_pq_def cache_otpk_def f find_save_pq split: option.split)
qed

lemma learned_pq:
  assumes "unknown E p n" "pr_pq resp = Some \<lparr> mk_ek = ek, mk_signature = g \<rparr>"
    and "nd_cached_pq (load_pq_cache p (learn E p resp n)) p = Some ek'"
  shows "ek' = ek"
proof -
  have f: "find_by pk_peer p (st_prekeys (save_prekey t (nd_store n) p x g))
     = Some \<lparr> pk_peer = p, pk_x25519 = x, pk_signature = g, pk_fetched = t, pk_ml_kem_ek = None \<rparr>" for t x g
    using assms(1) by (intro save_unknown_prekey) (simp add: unknown_def)
  have c: "nd_cached_pq n p = None" using assms(1) by (simp add: unknown_def)
  show ?thesis using assms(2,3) c
    by (auto simp: load_pq_cache_def load_pq_prekey_def learn_def fetch_done_def cache_pq_def cache_otpk_def f find_save_pq
        split: option.splits if_splits)
qed

lemma learned_otpk:
  assumes "unknown E p n" "nd_cached_otpks (learn E p resp n) p = Some k"
  shows "pr_otpk resp = Some k"
  using assms by (auto simp: unknown_def learn_def fetch_done_def cache_pq_def cache_otpk_def split: option.splits if_splits)

lemma learned_holds:
  assumes "unknown E (my_pid b) n" "own_response b resp" "prekeys_typed P b" "answered b b'" "pool_ok P (nd_store b')"
  shows "holds_prekeys_of P (learn E (my_pid b) resp n) b'"
proof -
  have id: "nd_identity b' = nd_identity b" using assms(4) by (simp add: answered_def)
  have "\<exists>s. load_otpk_private P (nd_store b') (otp_id k) = Inr (Some s) \<and> otp_x25519 k = x25519_pub P s"
    if k: "nd_cached_otpks (learn E (my_pid b) resp n) (my_pid b) = Some k" for k
  proof -
    obtain r where "r \<in> set (st_otpks (nd_store b))" "ok_id r = otp_id k" "ok_pub r = otp_x25519 k"
      using learned_otpk [OF assms(1) k] assms(2) by (auto simp: own_response_def)
    then obtain x where "x \<in> set (st_otpks (nd_store b'))" "ok_id x = otp_id k" "ok_pub x = otp_x25519 k"
      using assms(4) unfolding answered_def by metis
    then show ?thesis using pool_loads [OF assms(5)] by metis
  qed
  moreover have "cached_prekey (learn E (my_pid b) resp n) (my_pid b) = Some (id_x25519_public (nd_identity b))"
    using learned_prekey [OF assms(1), of resp] assms(2,3) by (simp add: own_response_def own_keys_def prekeys_typed_def)
  moreover have "ek = kem_ek P (id_ml_kem_dk (nd_identity b))"
    if "nd_cached_pq (load_pq_cache (my_pid b) (learn E (my_pid b) resp n)) (my_pid b) = Some ek" for ek
    using learned_pq [OF assms(1) _ that] assms(2,3) by (simp add: own_response_def own_keys_def prekeys_typed_def)
  ultimately show ?thesis unfolding holds_prekeys_of_def id by blast
qed

end
