(* ===== verification/ColdDelivery.thy ===== *)
theory ColdDelivery
  imports ColdStart
begin

text \<open>
  The four steps of a conversation from nothing, put together: what each node says at each step and that the text
  arrives.
\<close>

section \<open>What the steps say\<close>

lemma wrap_bytes_out: "ratchet_encrypt_and_wrap_bytes E p c h k n = (r, n') \<Longrightarrow> nd_out n' = nd_out n"
  by (auto simp: ratchet_encrypt_and_wrap_bytes_def build_envelope_def draw_def Let_def
      split: option.splits prod.splits sum.splits if_splits)

lemma build_hello_out: "build_x3dh_hello E p k n = (h, n') \<Longrightarrow> nd_out n' = nd_out n"
  by (auto simp: build_x3dh_hello_def encapsulate_for_def load_pq_cache_def draw_def Let_def split: option.splits prod.splits if_splits)

lemma encrypt_and_send_says:
  assumes "ratchet_encrypt_and_wrap_bytes E peer text hello 0 n = (Some (wire, ttl), n')"
  shows "nd_out (encrypt_and_send_existing E peer text hello n) = nd_out n @ [SendDm peer wire]"
  using assms wrap_bytes_out [OF assms]
  by (auto simp: encrypt_and_send_existing_def ratchet_encrypt_and_wrap_def persist_session_def save_plaintext_def
      draw_def Let_def split: option.split)

lemma step_identity: "nd_identity (node_step E ev n) = nd_identity n"
  using fixed.step [where E = E and c = "settings n" and n = n and ev = ev] by (simp add: settings_def)

lemma accept_envelope_cong:
  assumes "nd_identity n' = nd_identity n" "nd_clock n' = nd_clock n"
  shows "accept_envelope E n' = accept_envelope E n"
  by (intro ext) (unfold accept_envelope_def verified_sender_def assms, rule refl)

lemma holds_cong:
  assumes "nd_identity b' = nd_identity b" "st_otpks (nd_store b') = st_otpks (nd_store b)" "st_dek (nd_store b') = st_dek (nd_store b)"
    and "nd_store a' = nd_store a" "nd_cached_otpks a' = nd_cached_otpks a" "nd_cached_pq a' = nd_cached_pq a"
  shows "holds_prekeys_of P a' b' = holds_prekeys_of P a b"
  using assms load_otpk_cong [OF assms(2,3)]
  by (simp add: holds_prekeys_of_def cached_prekey_def load_pq_cache_def split: option.split)

lemma unknown_prekey: "unknown E p n \<Longrightarrow> cached_prekey n p = None"
  by (simp add: unknown_def cached_prekey_def load_prekey_def)

lemma unknown_cong:
  assumes "nd_sessions n' = nd_sessions n" "st_sessions (nd_store n') = st_sessions (nd_store n)" "st_dek (nd_store n') = st_dek (nd_store n)"
    and "st_prekeys (nd_store n') = st_prekeys (nd_store n)" "nd_cached_otpks n' = nd_cached_otpks n" "nd_cached_pq n' = nd_cached_pq n"
  shows "unknown E p n' = unknown E p n"
  using assms no_session_cong [OF assms(1-3)] by (simp add: unknown_def)

lemma bootstrap_keeps_sends:
  "ep_kind payload = 0 \<Longrightarrow> nd_pending_sends (snd (bootstrap_responder_and_decrypt E p e i payload n)) = nd_pending_sends n"
  by (auto simp: bootstrap_responder_and_decrypt_def decrypt_first_message_def decrypt_and_store_def dispatch_decrypted_content_def
      receive_text_def save_plaintext_def persist_session_def consume_otpk_def draw_def emit_def Let_def
      split: option.split sum.split prod.split)

lemma received_sends [simp]: "received P (n\<lparr> nd_pending_sends := f \<rparr>) s t = received P n s t"
  by (simp add: received_def)

section \<open>The four steps\<close>

text \<open>The recipient is asked first: one request, the text waits.\<close>
lemma first_ask:
  assumes "stranger E p a" "nd_connected a p \<noteq> None"
  shows "node_step E (Command (Send p text)) a
    = emit (SendPrekeyRequest p) (a\<lparr> nd_pending_sends := (nd_pending_sends a)(p \<mapsto> [text]), nd_inflight := insert p (nd_inflight a) \<rparr>)"
proof -
  have "unknown E p a" "p \<notin> nd_inflight a" "nd_pending_sends a p = None" using assms(1) by (simp_all add: stranger_def)
  moreover have "restore_session_if_persisted E p a = (False, a)"
    using \<open>unknown E p a\<close> no_session_restore by (simp add: unknown_def)
  ultimately show ?thesis using assms(2) unknown_prekey
    by (auto simp: try_send_or_queue_def request_prekey_def)
qed

text \<open>The answer sets the waiting text free: one hello goes out, over the keys learned.\<close>
lemma answer_releases:
  assumes "ed_correct (en_prims E)" "owns_identity (en_prims E) b" "own_keys (nd_identity b) resp" "unknown E (my_pid b) a"
    and "nd_pending_sends a (my_pid b) = Some [text]" "nd_pending_recvs a (my_pid b) = None"
  shows "\<exists>n3. holds_prekeys_of P n3 = holds_prekeys_of P (learn E (my_pid b) resp a)
     \<and> nd_identity n3 = nd_identity a \<and> nd_clock n3 = nd_clock a \<and> nd_out n3 = nd_out a
     \<and> node_step E (Behaviour (Prekey (PrekeyResponded (my_pid b) resp))) a
         = bootstrap_initiator_and_send E (my_pid b) text (id_x25519_public (nd_identity b)) n3"
proof -
  let ?p = "my_pid b" and ?l = "learn E (my_pid b) resp a"
  let ?n3 = "?l\<lparr> nd_pending_recvs := (nd_pending_recvs ?l)(?p := None), nd_pending_sends := (nd_pending_sends ?l)(?p := None) \<rparr>"
  have "no_session E ?p ?n3 = no_session E ?p a" by (intro no_session_cong) simp_all
  then have "restore_session_if_persisted E ?p ?n3 = (False, ?n3)"
    using assms(4) no_session_restore by (simp add: unknown_def)
  then have "node_step E (Behaviour (Prekey (PrekeyResponded ?p resp))) a
      = bootstrap_initiator_and_send E ?p text (id_x25519_public (nd_identity b)) ?n3"
    using own_response_handled [OF assms(1-3), of a] assms(5,6)
    by (simp add: process_pending_def send_pending_def)
  moreover have "holds_prekeys_of P ?n3 = holds_prekeys_of P ?l" by (intro ext holds_cong) simp_all
  moreover have "nd_out ?n3 = nd_out a"
    by (auto simp: learn_def fetch_done_def cache_pq_def cache_otpk_def split: option.split)
  ultimately show ?thesis by (intro exI [of _ ?n3]) simp
qed

text \<open>The hello of a stranger is held back, and its sender asked.\<close>
lemma hello_waits:
  assumes "stranger E p b" "accept_envelope E b transport wire = Some (p, payload)" "ep_x3dh_eph payload = Some eph"
  shows "node_step E (Behaviour (DmRequest transport wire)) b
    = emit (SendPrekeyRequest p) (b\<lparr> nd_pending_recvs := (nd_pending_recvs b)(p \<mapsto> [payload]), nd_inflight := insert p (nd_inflight b) \<rparr>)"
proof -
  have "unknown E p b" "p \<notin> nd_inflight b" "nd_pending_recvs b p = None" using assms(1) by (simp_all add: stranger_def)
  moreover have "restore_session_if_persisted E p b = (False, b)"
    using \<open>unknown E p b\<close> no_session_restore by (simp add: unknown_def)
  ultimately show ?thesis using assms(2,3) unknown_prekey
    by (simp add: process_incoming_dm_def request_prekey_def)
qed

text \<open>The second answer opens it.\<close>
lemma answer_opens:
  assumes "ed_correct (en_prims E)" "owns_identity (en_prims E) a" "own_keys (nd_identity a) resp" "unknown E (my_pid a) b"
    and "nd_pending_recvs b (my_pid a) = Some [payload]" "nd_pending_sends b (my_pid a) = None"
    and "ep_x3dh_eph payload = Some eph" "ep_kind payload = 0"
  shows "\<exists>nb. holds_prekeys_of P n3 nb = holds_prekeys_of P n3 b \<and> nd_identity nb = nd_identity b \<and> nd_clock nb = nd_clock b
     \<and> (received P (snd (bootstrap_responder_and_decrypt E (my_pid a) eph (id_x25519_public (nd_identity a)) payload nb)) p t
        \<longrightarrow> received P (node_step E (Behaviour (Prekey (PrekeyResponded (my_pid a) resp))) b) p t)"
proof -
  let ?p = "my_pid a" and ?l = "learn E (my_pid a) resp b" and ?k = "id_x25519_public (nd_identity a)"
  let ?nb = "?l\<lparr> nd_pending_recvs := (nd_pending_recvs ?l)(?p := None) \<rparr>"
  let ?done = "snd (bootstrap_responder_and_decrypt E ?p eph ?k payload ?nb)"
  have "no_session E ?p ?nb = no_session E ?p b" by (intro no_session_cong) simp_all
  then have "recv_pending E ?p ?k payload ?nb = ?done"
    using assms(4,7) no_session_restore by (simp add: unknown_def recv_pending_def)
  moreover have "nd_pending_sends ?done ?p = None" using bootstrap_keeps_sends [OF assms(8)] assms(6) by simp
  ultimately have "node_step E (Behaviour (Prekey (PrekeyResponded ?p resp))) b
      = ?done\<lparr> nd_pending_sends := (nd_pending_sends ?done)(?p := None) \<rparr>"
    using own_response_handled [OF assms(1-3), of b] assms(5) by (simp add: process_pending_def Let_def)
  moreover have "holds_prekeys_of P n3 ?nb = holds_prekeys_of P n3 b" by (intro holds_cong) simp_all
  ultimately show ?thesis by (intro exI [of _ ?nb]) simp
qed

section \<open>The sender's half\<close>

text \<open>Two nodes over the same crates and codecs that own their identities; \<open>b\<close> has a sound pool.\<close>
definition pair_ok :: "env \<Rightarrow> env \<Rightarrow> node \<Rightarrow> node \<Rightarrow> bool" where
  "pair_ok E E' a b \<longleftrightarrow> crypto_ok (en_prims E) \<and> ed_correct (en_prims E) \<and> en_prims E' = en_prims E \<and> codecs_ok (en_codecs E)
     \<and> codecs_total (en_codecs E) \<and> en_codecs E' = en_codecs E \<and> seals_to E (id_x25519_public (nd_identity b)) \<and> draws_ok E'
     \<and> owns_identity (en_prims E) a \<and> owns_identity (en_prims E) b \<and> prekeys_typed (en_prims E) a \<and> prekeys_typed (en_prims E) b
     \<and> pool_ok (en_prims E) (nd_store b)"

text \<open>What the answer of \<open>b\<close> makes \<open>a\<close> send opens at every later state of \<open>b\<close> that still has the keys.\<close>
lemma stranger_sends:
  assumes ok: "pair_ok E E' a b" and fresh: "stranger E (my_pid b) a" "nd_connected a (my_pid b) \<noteq> None"
    and b': "answered b b'" "pool_ok (en_prims E) (nd_store b')" "own_response b resp"
    and clocks: "0 \<le> nd_clock a" "nd_clock a < 2 ^ 62" "0 \<le> nd_clock b" "nd_clock b \<le> nd_clock a + 604800"
    and a1: "a1 = node_step E (Command (Send (my_pid b) text)) a"
  shows "\<exists>n3 wire payload eph. nd_out (node_step E (Behaviour (Prekey (PrekeyResponded (my_pid b) resp))) a1) = nd_out a1 @ [SendDm (my_pid b) wire]
     \<and> holds_prekeys_of (en_prims E) n3 b' \<and> accept_envelope E' b' transport wire = Some (my_pid a, payload)
     \<and> ep_x3dh_eph payload = Some eph \<and> ep_kind payload = 0
     \<and> (\<forall>nb. holds_prekeys_of (en_prims E) n3 nb \<longrightarrow> nd_identity nb = nd_identity b \<longrightarrow> nd_clock nb = nd_clock b \<longrightarrow>
          received (en_prims E) (snd (bootstrap_responder_and_decrypt E' (my_pid a) eph (id_x25519_public (nd_identity a)) payload nb)) (my_pid a) text)"
proof -
  let ?P = "en_prims E" and ?a = "my_pid a" and ?b = "my_pid b" and ?k = "id_x25519_public (nd_identity a)"
  note ok = ok [unfolded pair_ok_def]
  note a1 = a1 [unfolded first_ask [OF fresh]]
  have "unknown E ?b a1 = unknown E ?b a" unfolding a1 by (intro unknown_cong) (simp_all add: emit_def)
  then have unk: "unknown E ?b a1" using fresh(1) by (simp add: stranger_def)
  have pend: "nd_pending_sends a1 ?b = Some [text]" "nd_pending_recvs a1 ?b = None" "nd_identity a1 = nd_identity a" "nd_clock a1 = nd_clock a"
    using fresh(1) unfolding a1 by (simp_all add: stranger_def emit_def)
  have keys: "ed_correct ?P" "owns_identity ?P b" "own_keys (nd_identity b) resp" "prekeys_typed ?P b"
    using ok b'(3) by (simp_all add: own_response_def)
  obtain n3 where n3: "holds_prekeys_of ?P n3 = holds_prekeys_of ?P (learn E ?b resp a1)"
    "nd_identity n3 = nd_identity a" "nd_clock n3 = nd_clock a" "nd_out n3 = nd_out a1"
    "node_step E (Behaviour (Prekey (PrekeyResponded ?b resp))) a1 = bootstrap_initiator_and_send E ?b text (id_x25519_public (nd_identity b)) n3"
    using answer_releases [OF keys(1-3) unk pend(1,2), where P = ?P, unfolded pend(3,4)] by blast
  have holds: "holds_prekeys_of ?P n3 b'"
    unfolding n3(1) by (rule learned_holds [OF unk b'(3) keys(4) b'(1,2)])
  have b'_id: "nd_identity b' = nd_identity b" "nd_clock b' = nd_clock b" using b'(1) by (simp_all add: answered_def)
  have can: "can_initiate E E' n3 nb" if "holds_prekeys_of ?P n3 nb" "nd_identity nb = nd_identity b" for nb
    using that ok n3(2) by (simp add: can_initiate_def owns_identity_def draws_ok_def)
  obtain hello n4 where h: "build_x3dh_hello E ?b (id_x25519_public (nd_identity b)) n3 = (hello, n4)" by fastforce
  have opens: "\<exists>wire ttl n' payload eph. ratchet_encrypt_and_wrap_bytes E ?b text (Some hello) 0 n4 = (Some (wire, ttl), n')
     \<and> accept_envelope E' nb transport wire = Some (?a, payload) \<and> ep_x3dh_eph payload = Some eph \<and> ep_kind payload = 0
     \<and> received ?P (snd (bootstrap_responder_and_decrypt E' ?a eph ?k payload nb)) ?a text"
    if "holds_prekeys_of ?P n3 nb" "nd_identity nb = nd_identity b" "nd_clock nb = nd_clock b" for nb
    using first_message_opens [OF can [OF that(1,2)], of hello n4 "text" transport] that(2,3) h clocks n3(2,3) by simp blast
  obtain wire ttl n5 payload eph where w: "ratchet_encrypt_and_wrap_bytes E ?b text (Some hello) 0 n4 = (Some (wire, ttl), n5)"
    "accept_envelope E' b' transport wire = Some (?a, payload)" "ep_x3dh_eph payload = Some eph" "ep_kind payload = 0"
    using opens [OF holds b'_id] by blast
  have "received ?P (snd (bootstrap_responder_and_decrypt E' ?a eph ?k payload nb)) ?a text"
    if nb: "holds_prekeys_of ?P n3 nb" "nd_identity nb = nd_identity b" "nd_clock nb = nd_clock b" for nb
  proof -
    have "accept_envelope E' nb = accept_envelope E' b'" using nb(2,3) b'_id by (intro accept_envelope_cong) simp_all
    then show ?thesis using opens [OF nb] w by auto
  qed
  moreover have "nd_out (node_step E (Behaviour (Prekey (PrekeyResponded ?b resp))) a1) = nd_out a1 @ [SendDm ?b wire]"
    using n3(4,5) h build_hello_out [OF h] encrypt_and_send_says [OF w(1)] by (simp add: bootstrap_initiator_and_send_def)
  ultimately show ?thesis using holds w(2-4) by blast
qed

section \<open>Properties\<close>

text \<open>C1: A conversation between two strangers is delivered.  Two nodes know each other's PeerId only (no session, no keys, nothing
  pending), and \<open>a\<close> is connected.  The send command makes \<open>a\<close> ask \<open>b\<close> for its prekeys and nothing
  else; \<open>b\<close> answers, with a one-time prekey if it has one to give; the answer makes \<open>a\<close> send one hello; \<open>b\<close>, which cannot check who
  spoke, keeps it and asks \<open>a\<close> for its prekeys; the answer of \<open>a\<close> makes \<open>b\<close> open the kept hello: exactly
  the text is stored under the identity of \<open>a\<close> and the front end of \<open>b\<close> is notified.\<close>
theorem cold_start_delivery:
  assumes crypto: "crypto_ok (en_prims E)" "ed_correct (en_prims E)" "en_prims E' = en_prims E" "codecs_ok (en_codecs E)"
    "codecs_total (en_codecs E)" "en_codecs E' = en_codecs E" "seals_to E (id_x25519_public (nd_identity b))" "draws_ok E'"
    and ids: "owns_identity (en_prims E) a" "owns_identity (en_prims E) b" "prekeys_typed (en_prims E) a" "prekeys_typed (en_prims E) b"
    and fresh: "stranger E (my_pid b) a" "stranger E' (my_pid a) b" "nd_connected a (my_pid b) \<noteq> None" "pool_ok (en_prims E) (nd_store b)"
    and clocks: "0 \<le> nd_clock a" "nd_clock a < 2 ^ 62" "0 \<le> nd_clock b" "nd_clock b \<le> nd_clock a + 604800"
  shows "let a1 = node_step E (Command (Send (my_pid b) text)) a; b1 = node_step E' (Behaviour (Prekey (PrekeyRequested (my_pid a)))) b
    in nd_out a1 = nd_out a @ [SendPrekeyRequest (my_pid b)]
     \<and> (\<exists>resp. nd_out b1 = nd_out b @ [SendPrekeyResponse (my_pid a) resp]
     \<and> (let a2 = node_step E (Behaviour (Prekey (PrekeyResponded (my_pid b) resp))) a1
        in \<exists>wire. nd_out a2 = nd_out a1 @ [SendDm (my_pid b) wire]
     \<and> (let b2 = node_step E' (Behaviour (DmRequest transport wire)) b1; a3 = node_step E (Behaviour (Prekey (PrekeyRequested (my_pid b)))) a2
        in nd_out b2 = nd_out b1 @ [SendPrekeyRequest (my_pid a)]
     \<and> (\<exists>resp'. nd_out a3 = nd_out a2 @ [SendPrekeyResponse (my_pid b) resp']
     \<and> received (en_prims E) (node_step E' (Behaviour (Prekey (PrekeyResponded (my_pid a) resp'))) b2) (my_pid a) text))))"
proof -
  let ?P = "en_prims E" and ?a = "my_pid a" and ?b = "my_pid b"
  let ?a1 = "node_step E (Command (Send ?b text)) a" and ?b1 = "node_step E' (Behaviour (Prekey (PrekeyRequested ?a))) b"
  have ok: "pair_ok E E' a b" using crypto ids fresh(4) by (simp add: pair_ok_def)
  have out1: "nd_out ?a1 = nd_out a @ [SendPrekeyRequest ?b]" unfolding first_ask [OF fresh(1,3)] by simp
  obtain resp where b1: "answered b ?b1" "nd_out ?b1 = nd_out b @ [SendPrekeyResponse ?a resp]" "own_response b resp"
    using answer_prekey_request_ok [of b E' ?a] by auto
  have b1_id: "nd_identity ?b1 = nd_identity b" "nd_clock ?b1 = nd_clock b" using b1(1) by (simp_all add: answered_def)
  have "unknown E' ?a ?b1 = unknown E' ?a b" using b1(1) by (intro unknown_cong) (simp_all add: answered_def)
  then have strange: "stranger E' ?a ?b1" using fresh(2) b1(1) by (simp add: stranger_def answered_def)
  have pool: "pool_ok ?P (nd_store ?b1)" using pool_ok_answer [OF crypto(8)] fresh(4) crypto(3) by simp
  obtain n3 wire payload eph where out2: "nd_out (node_step E (Behaviour (Prekey (PrekeyResponded ?b resp))) ?a1) = nd_out ?a1 @ [SendDm ?b wire]"
    and w: "holds_prekeys_of ?P n3 ?b1" "accept_envelope E' ?b1 transport wire = Some (?a, payload)" "ep_x3dh_eph payload = Some eph" "ep_kind payload = 0"
    and opens: "\<And>nb. holds_prekeys_of ?P n3 nb \<Longrightarrow> nd_identity nb = nd_identity b \<Longrightarrow> nd_clock nb = nd_clock b \<Longrightarrow>
      received ?P (snd (bootstrap_responder_and_decrypt E' ?a eph (id_x25519_public (nd_identity a)) payload nb)) ?a text"
    using stranger_sends [OF ok fresh(1,3) b1(1) pool b1(3) clocks refl, of "text" transport] by blast
  let ?a2 = "node_step E (Behaviour (Prekey (PrekeyResponded ?b resp))) ?a1" and ?b2 = "node_step E' (Behaviour (DmRequest transport wire)) ?b1"
  let ?a3 = "node_step E (Behaviour (Prekey (PrekeyRequested ?b))) ?a2"
  note b2 = hello_waits [OF strange w(2,3)]
  have out3: "nd_out ?b2 = nd_out ?b1 @ [SendPrekeyRequest ?a]" unfolding b2 by simp
  have "nd_identity ?a2 = nd_identity a" using step_identity by metis
  then obtain resp' where a3: "nd_out ?a3 = nd_out ?a2 @ [SendPrekeyResponse ?b resp']" "own_keys (nd_identity a) resp'"
    using answer_prekey_request_ok [of ?a2 E ?b]
    by (simp only: own_response_def node_step.simps handle_behaviour_event.simps handle_prekey_event.simps(1)) metis
  have "unknown E' ?a ?b2 = unknown E' ?a ?b1" unfolding b2 by (intro unknown_cong) (simp_all add: emit_def)
  then have b2_ok: "unknown E' ?a ?b2" "nd_pending_recvs ?b2 ?a = Some [payload]" "nd_pending_sends ?b2 ?a = None"
    "nd_identity ?b2 = nd_identity b" "nd_clock ?b2 = nd_clock b" "holds_prekeys_of ?P n3 ?b2 = holds_prekeys_of ?P n3 ?b1"
    using strange b1_id unfolding b2 by (simp_all add: stranger_def emit_def) (intro holds_cong; simp add: emit_def)
  have "ed_correct (en_prims E')" "owns_identity (en_prims E') a" using crypto(2,3) ids(1) by simp_all
  from answer_opens [OF this a3(2) b2_ok(1-3) w(3,4), of ?P n3 ?a "text"]
  have "received ?P (node_step E' (Behaviour (Prekey (PrekeyResponded ?a resp'))) ?b2) ?a text"
    using opens b2_ok(4-6) w(1) by auto
  then show ?thesis using out1 b1(2) out2 out3 a3(1) unfolding Let_def by blast
qed

text \<open>Two fresh nodes for the witness; \<open>toy_cold_bob\<close> has generated one one-time prekey.\<close>
definition toy_cold_alice :: node where
  "toy_cold_alice = (new_node (toy_identity 10) False (empty_store [2]) 40)\<lparr> nd_connected := [replicate 32 20 \<mapsto> [1]] \<rparr>"

definition toy_cold_bob :: node where
  "toy_cold_bob = generate_otpk (toy_env 3) (new_node (toy_identity 20) False (empty_store [1]) 50)"

lemma toy_cold [simp]:
  "nd_identity toy_cold_alice = toy_identity 10" "nd_clock toy_cold_alice = 40" "nd_connected toy_cold_alice = [replicate 32 20 \<mapsto> [1]]"
  "nd_out toy_cold_alice = []" "nd_identity toy_cold_bob = toy_identity 20" "nd_clock toy_cold_bob = 50" "nd_out toy_cold_bob = []"
  by (simp_all add: toy_cold_alice_def toy_cold_bob_def generate_otpk_def draw_def Let_def new_node_def)

lemma toy_strangers: "stranger (toy_env r) p toy_cold_alice" "stranger (toy_env r) p toy_cold_bob"
  by (simp_all add: stranger_def unknown_def no_session_iff load_session_def toy_cold_alice_def toy_cold_bob_def generate_otpk_def
      draw_def Let_def add_my_otpk_def new_node_def empty_store_def find_by_def)

lemma toy_typed: "nd_identity n = toy_identity r \<Longrightarrow> prekeys_typed toy_prims n"
  by (simp add: prekeys_typed_def) (simp add: toy_identity_def generate_identity_def assemble_identity_def generate_signed_prekey_def
      generate_signed_ml_kem_prekey_def Let_def toy_prims_def)

theorem cold_start_delivery_witness:
  "let a1 = node_step (toy_env 1) (Command (Send (replicate 32 20) (ascii ''hello''))) toy_cold_alice;
       b1 = node_step (toy_env 3) (Behaviour (Prekey (PrekeyRequested (replicate 32 10)))) toy_cold_bob
   in nd_out a1 = [SendPrekeyRequest (replicate 32 20)]
    \<and> (\<exists>resp. nd_out b1 = [SendPrekeyResponse (replicate 32 10) resp]
    \<and> (let a2 = node_step (toy_env 1) (Behaviour (Prekey (PrekeyResponded (replicate 32 20) resp))) a1
       in \<exists>wire. nd_out a2 = nd_out a1 @ [SendDm (replicate 32 20) wire]
    \<and> (let b2 = node_step (toy_env 3) (Behaviour (DmRequest [9] wire)) b1;
           a3 = node_step (toy_env 1) (Behaviour (Prekey (PrekeyRequested (replicate 32 20)))) a2
       in nd_out b2 = nd_out b1 @ [SendPrekeyRequest (replicate 32 10)]
    \<and> (\<exists>resp'. nd_out a3 = nd_out a2 @ [SendPrekeyResponse (replicate 32 20) resp']
    \<and> received toy_prims (node_step (toy_env 3) (Behaviour (Prekey (PrekeyResponded (replicate 32 10) resp'))) b2)
        (replicate 32 10) (ascii ''hello'')))))"
proof -
  let ?E = "toy_env 1" and ?E' = "toy_env 3"
  have draws: "draws_ok ?E'" by (simp add: draws_ok_def)
  have "pool_ok toy_prims (nd_store (new_node (toy_identity 20) False (empty_store [1]) 50))"
    by (simp add: pool_ok_def new_node_def empty_store_def)
  then have pool: "pool_ok toy_prims (nd_store toy_cold_bob)" using pool_ok_generate [OF draws] by (simp add: toy_cold_bob_def)
  have ids: "owns_identity toy_prims toy_cold_alice" "owns_identity toy_prims toy_cold_bob" "prekeys_typed toy_prims toy_cold_alice"
    "prekeys_typed toy_prims toy_cold_bob" "my_pid toy_cold_alice = replicate 32 10" "my_pid toy_cold_bob = replicate 32 20"
    using toy_owns toy_typed toy_cold by (blast, blast, blast, blast, simp_all)
  have "codecs_total toy_codecs" "crypto_ok toy_prims" by (simp_all add: codecs_total_def toy_codecs_def crypto_ok_def)
  then show ?thesis
    using cold_start_delivery [of ?E ?E' toy_cold_bob toy_cold_alice "ascii ''hello''" "[9]"] draws pool ids toy_strangers toy_seals
    unfolding ids(5,6) by (simp del: node_step.simps)
qed

end
