(* ===== verification/Spec2Isabelle.thy ===== *)
theory Spec2Isabelle
  imports Prelude Primitives Chain Ratchet RatchetNet Codec Megolm X3dh Sealed Message Group Mailbox Store StoreProps
    Identity NodeState NodeSend NodeGroup NodeRecv NodeLoop NodeFrame NodeKeys Scramble ScrambleProps ToyCodec NodeDelivery NodeSafety
    Text Bootstrap Startup StartupProps Repl ReplProps Tools Views Gui Push Network Serde MailboxDelivery NodeReplay GroupDelivery NodePool
    ColdStart ColdDelivery
begin

text \<open>
  Verification development of the ZeroCenter (ME55) messenger, a serverless end-to-end encrypted
  messenger over libp2p.  All paths below are under \<open>src/src/\<close>.

  \<^bold>\<open>The program and the model.\<close>  One process holds one node (\<open>P2PNode\<close> of core/node.rs): an identity, a SQLite
  message store, one Double Ratchet session per peer, and tables of queries and of work waiting for a prekey.  An event loop
  handles one thing at a time: a command of the terminal or the window, a timer, a connection, an event of a
  libp2p behaviour.  A handler changes the node and emits requests, DHT records and notifications.  So the model of
  the program is one function, \<open>node_step\<close>, from an event and a node to a node, whose \<open>nd_out\<close> lists what was
  emitted; a run is a list of events (\<open>node_run\<close>).  \<open>boot\<close> leads from the command line and the disk to the
  first state, \<open>restart\<close> is what is left after a crash.  Two nodes interact when what one emits is an event of the other.

  \<^bold>\<open>Conventions.\<close>  A byte string, a text (its UTF-8 bytes) and a PeerId are \<open>bytes\<close>.  Rust integers that the code compares or
  serializes are words of their width; \<open>usize\<close> is 64 bits; an \<open>i64\<close> time or row id is an \<open>int\<close>, or a word where its sum
  can wrap (\<open>is_expired\<close>).  A struct is a record, an enum a datatype, a \<open>Result\<close> a sum; a panic is \<open>None\<close>
  or an error of its own.  An operation on \<open>&mut self\<close> returns its result and the state it leaves, on the
  error paths too.  Randomness is an argument: the value drawn, or in a node the function \<open>en_rnd\<close> of the number of
  the draw.  Code outside the repository is an argument: the crypto crates are the record
  \<open>prims\<close>, the serde codecs \<open>codecs\<close>, Kademlia's local store and address texts fields of \<open>env\<close>, HTTP, DNS, hex, JSON and the parsers of
  addresses \<open>outside\<close>.  What is assumed of them is a named predicate stating their documented behaviour
  (\<open>aead_correct\<close>, \<open>dh_agree\<close>, \<open>ed_correct\<close>, \<open>kem_correct\<close>, \<open>codecs_ok\<close>, ...), and
  \<open>toy_prims\<close>, \<open>toy_codecs\<close> and \<open>toy_env\<close> show that the assumptions can hold together.

  \<^bold>\<open>Foundations.\<close>
    \<^item> Prelude: words, big-endian integers, ASCII tags, list and option facts.  Primitives: the crates and their laws.
    \<^item> Chain: the locales \<open>chain_receiver\<close> and \<open>replay_safe_receiver\<close>, the contract of a receiver of one
      symmetric chain with a bounded cache of skipped keys; any delivery order, with duplicates, is proved once there.
    \<^item> Codec: length-prefixed fields, with the locale \<open>lp_codec\<close> for the two writers of the program.
    \<^item> Text: the parts of Rust's \<open>str\<close> that are used.  ToyCodec: a concrete codec for the witnesses.

  \<^bold>\<open>Cryptographic protocols.\<close>
    \<^item> Ratchet (crypto/ratchet.rs): the session with its key schedule, skipped keys and error paths; \<open>ratchet_any_order\<close> and
      \<open>ratchet_cache_bounded\<close>, from the interpretation \<open>rx\<close>; what stale and forged messages do to a session.
      RatchetNet: two sessions over a network that delays and reorders, as a step relation with its invariant by rule
      induction (\<open>async_delivery\<close>, \<open>session_id_shared\<close>).
    \<^item> Megolm (crypto/megolm.rs): sender and receiver chains of a group; \<open>group_delivery\<close> from the interpretation \<open>gx\<close>, \<open>group_replay_rejected\<close>.
    \<^item> X3dh (crypto/x3dh.rs), Sealed (crypto/sealed.rs): key agreement in four variants, sealed sender certificates.
    \<^item> Message and Group (protocol/message.rs, protocol/group.rs): envelopes and control messages, their signed bytes
      (injective in all fields), builders against verifiers.  Mailbox (network/mailbox.rs): slots and record keys.

  \<^bold>\<open>State on disk.\<close>
    \<^item> Store (storage/store.rs): every table and operation, with the locale \<open>keyed_store\<close> for the three tables of encrypted
      blobs.  StoreProps: one-time prekeys load at most once, the outbox is a queue per peer, what the queries return.
    \<^item> Identity (core/identity.rs): generation, both migrations, saving and loading.
    \<^item> Startup (core/config.rs, cli.rs, crypto/keyring.rs, entry.rs, \<open>open\<close> and \<open>start\<close>): from arguments and disk to the running
      node.  StartupProps: \<open>reboot_is_restart\<close> relates the detailed boot to \<open>restart\<close>; the outbox migration.

  \<^bold>\<open>The node\<close> (core/node.rs).
    \<^item> NodeState, NodeSend, NodeGroup, NodeRecv, NodeLoop: fields and effects; sending; groups; receiving and the
      prekey protocol; mailbox, connections, sweeps and the loop.  One definition per function, composed as the code does.
    \<^item> NodeFrame and NodeKeys: the locale \<open>prekey_invariant\<close> lifts an invariant of the few operations that touch
      key material to every run; its interpretations \<open>authentic\<close>, \<open>once\<close> and \<open>fixed\<close> give \<open>prekeys_stay_authentic\<close>, \<open>node_serves_otpk_once\<close> and that identity
      and database key never change.  NodePool: its interpretation \<open>pool\<close>, every own one-time prekey loads and is the key pair it claims to be.
    \<^item> NodeDelivery, MailboxDelivery, GroupDelivery: end to end, from the command at one node to the readable row at the other:
      first contact, delivery through the DHT while the peer is away, group chat.
    \<^item> ColdStart, ColdDelivery: two strangers.  What answering a prekey request and learning from the answer change, then the
      five steps in which the waiting text and the waiting hello are set free (\<open>cold_start_delivery\<close>).
    \<^item> NodeSafety, NodeReplay: rejected messages leave no trace, a processed update stays ignored until its group is created anew; and where the code falls short of its
      comments (key reuse after an offline send, group takeover, slots that are never polled, the second copy of an offline message).

  \<^bold>\<open>Transport, seeds and surfaces.\<close>
    \<^item> Scramble (network/scramble.rs): frames, both state machines, jitter, handshake.  ScrambleProps: a reference
      decoder; the reader refines it, the writer's stream decodes to the bytes accepted, the pipe delivers, the loop of \<open>poll_read\<close> ends.
    \<^item> Bootstrap (network/bootstrap.rs): the seed list and the signed manifest.  Tools (bin/me55_tools.rs): the maintainer's side of it.
      Network (network/behaviour.rs): the protocols and toggles given to libp2p.
    \<^item> Repl, Views, Gui (cli.rs, entry.rs, gui/app.rs, the printing of node.rs): what can be typed and clicked and what is
      shown.  ReplProps: every request has its line, the safety number.  Push (node.rs, entry.rs, gui/app.rs): notifications through a
      bounded channel to the webview, in order, lost only when the channel is full.  Serde (serde_helpers.rs): the two adapters.

  \<^bold>\<open>Bounds and termination.\<close>  No fuel is used where a result is claimed: loops are structural recursion, folds over finite lists or
  functions with a measure.  The loop of \<open>poll_read\<close> ends because each round that goes on consumes bytes of the wrapped stream or
  moves the read state, and the end of the stream, which answers \<open>Ok(0)\<close> for ever, ends the read in every state
  (\<open>poll_read_returns\<close>); \<open>scrambled_pipe_delivers\<close> bounds the polls.  The 64 tries for a representable key are the source's own limit, and running out of them is its error.  The skip caps are 1000 in both ratchets, with counters of 32 bits that wrap as
  in the release build; theorems on delivery state the distance from the end of the counter.  Delivery theorems state that
  the sender's clock lies between 1970 and \<open>2 ^ 62\<close> and that the message is at most seven days old.

  \<^bold>\<open>Not modelled, and why.\<close>
    \<^item> libp2p: what the swarm and the behaviours that \<open>Behaviour::new\<close> sets up do, and the relay, identify and hole-punching events, which are
      only logged.  A DHT query is answered by an event with its id; that a record put under a key is found under it is the pairing of
      the two in a theorem's statement, not a model of Kademlia.
    \<^item> Generated code: serde derives (a codec with the law that what was written is read back) and clap's parser.
    \<^item> SQLite failures and crashes inside one statement; the creation of tables and indexes.  Rows that tie in an
      \<open>ORDER BY\<close>, whose order SQL leaves open, come in the order of their insertion.
    \<^item> The difference between \<open>verify\<close> and \<open>verify_strict\<close> of ed25519-dalek: both are \<open>ed_verify\<close>.
    \<^item> Time inside a handler: the clock is constant during one step and set between steps (\<open>ClockSet\<close>); timers are events.
    \<^item> A wrapped stream that never runs dry: the sources of Scramble give finitely many answers and bytes before they are not ready or at
      their end.  A peer that keeps empty frames available keeps one read busy for as long.
    \<^item> ChaCha20's counter limit of 256 GiB per direction of a scrambled connection, and the timer behind the jitter.
    \<^item> Log lines and fixed help texts; \<open>ListPeers\<close>, which prints a hash map in no defined order; the Tauri builder;
      the tokio entry points (main.rs, bin/me55agui.rs), which only call \<open>run\<close>.
    \<^item> Secrecy: the development proves functional, integrity and state properties; it contains no adversary's knowledge.
\<close>

end
